(* ===== verification/Prelude.thy ===== *)
theory Prelude
  imports Main "HOL-Library.Word"
begin

text \<open>
  Vocabulary shared by every theory of the development.

  \<^item> \<^verbatim>\<open>int64\<close> is Go's int64 (and int, on the 64-bit targets the service is built
    for), \<^verbatim>\<open>uuid\<close> is the 16 byte array of \<^verbatim>\<open>uuid.UUID\<close>, whose nil value is all zeros.
  \<^item> \<^verbatim>\<open>time\<close> is an instant, in nanoseconds since January 1 of year 1 UTC, the origin of
    \<^verbatim>\<open>time.Time\<close>: \<^verbatim>\<open>IsZero\<close> is being that origin, \<^verbatim>\<open>UTC\<close> changes the presentation only.
  \<^item> Go strings are byte sequences, so they are HOL strings (lists of 8-bit characters).
  \<^item> A Go error is the sentinel that \<^verbatim>\<open>errors.Is\<close> finds in it; the text wrapped around
    the sentinel is dropped. A function returning \<^verbatim>\<open>(T, error)\<close> returns
    \<^typ>\<open>'e + 'a\<close>, with the error on the left.
  \<^item> A method of a store port runs inside one SQL transaction: \<^verbatim>\<open>('s, 'a) op\<close> takes the
    state of that transaction and gives the result, or the error, and the new state.
\<close>

named_theorems op_simps
  \<open>characteristic equations of the control-flow combinators and of the store operations\<close>

type_synonym int64 = "64 word"
type_synonym uuid = "128 word"
type_synonym time = int

abbreviation uuid_Nil :: uuid where "uuid_Nil \<equiv> 0"

abbreviation IsZero :: "time \<Rightarrow> bool" where "IsZero t \<equiv> t = 0"

text \<open>The sentinels of the packages money, wallet, wagering, events and app, in that order,
  then the errors that PostgreSQL (SQLSTATE code and constraint name), its driver and the context
  can produce, those of the SQS publisher and of the AWS API (its error code), and a panic.\<close>

datatype error =
    ErrInvalidAmount
  | ErrInvalidCurrency
  | ErrNegativeAmount
  | ErrOverflow
  | MoneyErrCurrencyMismatch
  | ErrUninitialized
  | ErrInvalidWallet
  | ErrInsufficientFunds
  | WalletErrCurrencyMismatch
  | ErrNonPositiveAmount
  | ErrInvalidLedger
  | ErrValidation
  | ErrInvalidTransition
  | ErrTerminal
  | ErrInvalidEvent
  | ErrUUIDGenerator
  | ErrWalletNotFound
  | ErrWalletExists
  | ErrTransactionNotFound
  | ErrIdempotencyConflict
  | ErrExternalIDConflict
  | ErrDuplicateTransaction
  | ErrConcurrentModification
  | ErrInvalidCursor
  | ErrAlreadyProcessed
  | ErrMissingToken
  | ErrInvalidToken
  | ErrStrconv
  | ErrCanceled
  | ErrDeadlineExceeded
  | ErrPg string string
  | ErrDriver
  | ErrBatchTooLarge
  | ErrApi string
  | Panic

subsection \<open>Results\<close>

fun rbind :: "'e + 'a \<Rightarrow> ('a \<Rightarrow> 'e + 'b) \<Rightarrow> 'e + 'b" where
  "rbind (Inl e) f = Inl e"
| "rbind (Inr a) f = f a"

lemma rbind_Inr_iff [simp]: "rbind m f = Inr b \<longleftrightarrow> (\<exists>a. m = Inr a \<and> f a = Inr b)"
  by (cases m) auto

lemma rbind_Inl_iff: "rbind m f = Inl e \<longleftrightarrow> m = Inl e \<or> (\<exists>a. m = Inr a \<and> f a = Inl e)"
  by (cases m) auto

lemma rbind_split:
  "P (rbind m f) \<longleftrightarrow> (\<forall>e. m = Inl e \<longrightarrow> P (Inl e)) \<and> (\<forall>a. m = Inr a \<longrightarrow> P (f a))"
  by (cases m) auto

lemma rbind_split_asm:
  "P (rbind m f) \<longleftrightarrow>
    \<not> ((\<exists>e. m = Inl e \<and> \<not> P (Inl e)) \<or> (\<exists>a. m = Inr a \<and> \<not> P (f a)))"
  by (cases m) auto

lemma rbind_cong [fundef_cong]:
  "m = m' \<Longrightarrow> (\<And>a. m' = Inr a \<Longrightarrow> f a = f' a) \<Longrightarrow> rbind m f = rbind m' f'"
  by (cases m') auto

text \<open>\<^verbatim>\<open>if c { return e }\<close> followed by the rest of the function.\<close>

definition check :: "bool \<Rightarrow> 'e \<Rightarrow> 'e + unit" where
  "check ok e = (if ok then Inr () else Inl e)"

lemma check_simps [simp]:
  "check True e = Inr ()"
  "check False e = Inl e"
  "check ok e = Inr u \<longleftrightarrow> ok"
  "check ok e = Inl e' \<longleftrightarrow> \<not> ok \<and> e' = e"
  by (auto simp: check_def)

subsection \<open>Operations of a store\<close>

type_synonym ('s, 'a) op = "'s \<Rightarrow> (error + 'a) \<times> 's"

definition ok :: "'a \<Rightarrow> ('s, 'a) op" where
  "ok a = (\<lambda>s. (Inr a, s))"

definition fail :: "error \<Rightarrow> ('s, 'a) op" where
  "fail e = (\<lambda>s. (Inl e, s))"

text \<open>A computation that does not touch the store.\<close>

definition lift :: "error + 'a \<Rightarrow> ('s, 'a) op" where
  "lift r = (\<lambda>s. (r, s))"

text \<open>\<^verbatim>\<open>if err != nil { return err }\<close> after a call.\<close>

definition obind :: "('s, 'a) op \<Rightarrow> ('a \<Rightarrow> ('s, 'b) op) \<Rightarrow> ('s, 'b) op" where
  "obind m f = (\<lambda>s. case m s of (Inl e, s') \<Rightarrow> (Inl e, s') | (Inr a, s') \<Rightarrow> f a s')"

text \<open>The error of a call handed to the code that inspects it.\<close>

definition otry :: "('s, 'a) op \<Rightarrow> ('s, error + 'a) op" where
  "otry m = (\<lambda>s. case m s of (r, s') \<Rightarrow> (Inr r, s'))"

lemma ok_apply [simp, op_simps]: "ok a s = (Inr a, s)"
  by (simp add: ok_def)

lemma fail_apply [simp, op_simps]: "fail e s = (Inl e, s)"
  by (simp add: fail_def)

lemma lift_apply [simp, op_simps]: "lift r s = (r, s)"
  by (simp add: lift_def)

lemma obind_apply [op_simps]:
  "obind m f s = (case m s of (Inl e, s') \<Rightarrow> (Inl e, s') | (Inr a, s') \<Rightarrow> f a s')"
  by (simp add: obind_def)

lemma otry_apply [op_simps]: "otry m s = (case m s of (r, s') \<Rightarrow> (Inr r, s'))"
  by (simp add: otry_def)

lemma obind_Inr [simp]: "m s = (Inr a, s') \<Longrightarrow> obind m f s = f a s'"
  by (simp add: obind_def)

lemma obind_Inl [simp]: "m s = (Inl e, s') \<Longrightarrow> obind m f s = (Inl e, s')"
  by (simp add: obind_def)

lemma otry_eq [simp]: "m s = (r, s') \<Longrightarrow> otry m s = (Inr r, s')"
  by (simp add: otry_def)

lemma obind_ok [simp]: "obind (ok a) f = f a"
  by (simp add: obind_def ok_def fun_eq_iff)

lemma obind_fail [simp]: "obind (fail e) f = fail e"
  by (simp add: obind_def fail_def fun_eq_iff)

lemma obind_lift_Inr [simp]: "obind (lift (Inr a)) f = f a"
  by (simp add: obind_def lift_def fun_eq_iff)

lemma obind_lift_Inl [simp]: "obind (lift (Inl e)) f = fail e"
  by (simp add: obind_def lift_def fail_def fun_eq_iff)

text \<open>Inversion: what a call that went through must have done.\<close>

lemma obind_InrE:
  assumes "obind m f s = (Inr b, t)"
  obtains a s' where "m s = (Inr a, s')" and "f a s' = (Inr b, t)"
  using assms by (auto simp: obind_def split: prod.splits sum.splits)

lemma obind_Inr_iff:
  "obind m f s = (Inr b, t) \<longleftrightarrow> (\<exists>a s'. m s = (Inr a, s') \<and> f a s' = (Inr b, t))"
  by (auto simp: obind_def split: prod.splits sum.splits)

lemma lift_Inr_iff [simp]: "lift r s = (Inr b, t) \<longleftrightarrow> r = Inr b \<and> t = s"
  by (auto simp: lift_def)

lemma obind_lift: "obind (lift r) f s = (case r of Inl e \<Rightarrow> (Inl e, s) | Inr a \<Rightarrow> f a s)"
  by (cases r) auto

subsection \<open>Lists\<close>

lemma sum_list_snoc [simp]: "sum_list (xs @ [x]) = sum_list xs + (x :: 'a :: monoid_add)"
  by simp

lemma last_snoc_if: "last (xs @ [x]) = x"
  by simp

end
