(* ===== verification/GoInt.thy ===== *)
theory GoInt
  imports Prelude
begin

text \<open>
  Go's int64 arithmetic on \<^typ>\<open>int64\<close>: addition, subtraction and multiplication wrap, as the
  word operations do; the comparisons are the signed ones and are written on \<^const>\<open>sint\<close>;
  division truncates. The lemmas give the mathematical value of a sum, difference or negation
  whenever it is representable, which is what the overflow checks of the program establish.
\<close>

abbreviation MaxInt64 :: int64 where "MaxInt64 \<equiv> 9223372036854775807"
abbreviation MinInt64 :: int64 where "MinInt64 \<equiv> 9223372036854775808"

text \<open>\<^verbatim>\<open>time.Second\<close> and \<^verbatim>\<open>time.Minute\<close>, in nanoseconds.\<close>

abbreviation Second :: int64 where "Second \<equiv> 1000000000"
abbreviation Minute :: int64 where "Minute \<equiv> 60000000000"

abbreviation max_int64 :: int where "max_int64 \<equiv> 9223372036854775807"
abbreviation min_int64 :: int where "min_int64 \<equiv> -9223372036854775808"

definition fits64 :: "int \<Rightarrow> bool" where
  "fits64 i \<longleftrightarrow> min_int64 \<le> i \<and> i \<le> max_int64"

text \<open>Truncating division of two int64 values.\<close>

definition quot64 :: "int64 \<Rightarrow> int64 \<Rightarrow> int64" where
  "quot64 a b = word_of_int (sgn (sint a) * sgn (sint b) * (\<bar>sint a\<bar> div \<bar>sint b\<bar>))"

lemma sint_MaxInt64 [simp]: "sint MaxInt64 = max_int64"
  by simp

lemma sint_MinInt64 [simp]: "sint MinInt64 = min_int64"
  by simp

lemma sint64_ge: "min_int64 \<le> sint (a :: int64)"
  using sint_ge [of a] by simp

lemma sint64_le: "sint (a :: int64) \<le> max_int64"
  using sint_lt [of a] by simp

lemma fits64_sint [simp]: "fits64 (sint (a :: int64))"
  using sint64_ge [of a] sint64_le [of a] by (simp add: fits64_def)

lemma sint_of_int64: "fits64 i \<Longrightarrow> sint (word_of_int i :: int64) = i"
  by (simp add: fits64_def sint_sbintrunc' signed_take_bit_int_eq_self)

lemma sint_add64: "fits64 (sint a + sint b) \<Longrightarrow> sint (a + b :: int64) = sint a + sint b"
  by (simp add: fits64_def sint_word_ariths signed_take_bit_int_eq_self)

lemma sint_sub64: "fits64 (sint a - sint b) \<Longrightarrow> sint (a - b :: int64) = sint a - sint b"
  by (simp add: fits64_def sint_word_ariths signed_take_bit_int_eq_self)

lemma sint_mult64: "fits64 (sint a * sint b) \<Longrightarrow> sint (a * b :: int64) = sint a * sint b"
  by (simp add: fits64_def sint_word_ariths signed_take_bit_int_eq_self)

lemma sint_minus64: "fits64 (- sint a) \<Longrightarrow> sint (- a :: int64) = - sint a"
  by (simp add: fits64_def sint_word_ariths signed_take_bit_int_eq_self)

text \<open>The signed value in terms of the unsigned one.\<close>

lemma sint_uint64:
  "sint (a :: int64) =
    (if uint a < 9223372036854775808 then uint a else uint a - 18446744073709551616)"
proof -
  define u where "u = uint a"
  have lt: "u < 18446744073709551616"
    using uint_lt2p [of a] by (simp add: u_def)
  have ge: "0 \<le> u" by (simp add: u_def)
  have s: "sint a = (u + 9223372036854775808) mod 18446744073709551616 - 9223372036854775808"
    by (simp add: sint_uint signed_take_bit_eq_take_bit_shift take_bit_eq_mod u_def)
  show ?thesis
  proof (cases "u < 9223372036854775808")
    case True
    then have "(u + 9223372036854775808) mod 18446744073709551616 = u + 9223372036854775808"
      using ge by (intro mod_pos_pos_trivial) auto
    with True s show ?thesis by (simp add: u_def)
  next
    case False
    have "(u + 9223372036854775808) mod 18446744073709551616
        = (u - 9223372036854775808) mod 18446744073709551616"
      by (simp add: mod_eq_dvd_iff)
    also have "\<dots> = u - 9223372036854775808"
      using False lt by (intro mod_pos_pos_trivial) auto
    finally show ?thesis using False s by (simp add: u_def)
  qed
qed

lemma uint64_lt: "uint (a :: int64) < 18446744073709551616"
  using uint_lt2p [of a] by simp

lemma unat_nonneg64: "0 \<le> sint (a :: int64) \<Longrightarrow> int (unat a) = sint a"
  using uint64_lt [of a] by (simp add: sint_uint64 split: if_splits)

lemma sint_inject64: "sint (a :: int64) = sint b \<longleftrightarrow> a = b"
proof
  assume "sint a = sint b"
  then have "uint a = uint b"
    using uint64_lt [of a] uint64_lt [of b] uint_ge_0 [of a] uint_ge_0 [of b]
    by (simp only: sint_uint64 split: if_splits)
  then show "a = b" by (rule word_uint_eqI)
qed simp

lemma word_of_int_sint64 [simp]: "word_of_int (sint (a :: int64)) = a"
  by (simp add: sint_of_int64 flip: sint_inject64)

lemma word_of_int_eqI64: "fits64 i \<Longrightarrow> sint a = i \<Longrightarrow> (a :: int64) = word_of_int i"
  by (simp add: sint_of_int64 flip: sint_inject64)

lemma zero_iff_sint64: "(a :: int64) = 0 \<longleftrightarrow> sint a = 0"
  using sint_inject64 [of a 0] by simp

lemma quot64_nonneg:
  assumes "0 \<le> sint a" and "0 < sint b"
  shows "sint (quot64 a b) = sint a div sint b"
proof -
  have "sgn (sint a) * sgn (sint b) * (\<bar>sint a\<bar> div \<bar>sint b\<bar>) = sint a div sint b"
    using assms by (cases "sint a = 0") (auto simp: sgn_if)
  moreover have "0 \<le> sint a div sint b" and "sint a div sint b \<le> sint a"
    using assms zdiv_mono2 [of "sint a" 1 "sint b"] by (auto simp: pos_imp_zdiv_nonneg_iff)
  ultimately show ?thesis
    using sint64_le [of a] by (simp add: quot64_def sint_of_int64 fits64_def)
qed

text \<open>The idiom \<^verbatim>\<open>uint64(-(v + 1)) + 1\<close> for the magnitude of a negative int64.\<close>

definition neg_magnitude :: "int64 \<Rightarrow> 64 word" where
  "neg_magnitude v = (- (v + 1)) + 1"

lemma neg_magnitude_eq: "neg_magnitude v = - v"
  by (simp add: neg_magnitude_def)

end
