(* ===== verification/GoStrings.thy ===== *)
theory GoStrings
  imports GoInt "HOL-Library.Sublist"
begin

text \<open>
  The functions of Go's standard packages strings, strconv and fmt that the program calls, on
  byte strings: \<^verbatim>\<open>strings.HasPrefix\<close> is \<^const>\<open>prefix\<close> with its arguments swapped, then
  \<^verbatim>\<open>strings.Cut\<close> at a one-byte separator, \<^verbatim>\<open>strings.TrimLeft\<close> for the cutset "0",
  \<^verbatim>\<open>strings.TrimSpace\<close> with Unicode's white space in UTF-8, \<^verbatim>\<open>strconv.ParseInt(s, 10, 64)\<close>
  and the decimal formatting of \<^verbatim>\<open>fmt.Sprintf\<close>. The lemmas relate decimal text and numbers.
\<close>

definition is_digit :: "char \<Rightarrow> bool" where
  "is_digit c \<longleftrightarrow> 48 \<le> (of_char c :: nat) \<and> of_char c \<le> (57 :: nat)"

definition is_upper :: "char \<Rightarrow> bool" where
  "is_upper c \<longleftrightarrow> 65 \<le> (of_char c :: nat) \<and> of_char c \<le> (90 :: nat)"

definition digit_val :: "char \<Rightarrow> nat" where
  "digit_val c = of_char c - 48"

definition digit_char :: "nat \<Rightarrow> char" where
  "digit_char n = char_of (48 + n)"

definition digits_val :: "string \<Rightarrow> nat" where
  "digits_val s = foldl (\<lambda>a c. 10 * a + digit_val c) 0 s"

fun nat_str :: "nat \<Rightarrow> string" where
  "nat_str n = (if n < 10 then [digit_char n] else nat_str (n div 10) @ [digit_char (n mod 10)])"

declare nat_str.simps [simp del]

text \<open>\<^verbatim>\<open>strings.Cut(s, sep)\<close>: the text before and after the first separator, and whether
  there was one.\<close>

definition Cut :: "string \<Rightarrow> char \<Rightarrow> string \<times> string \<times> bool" where
  "Cut s sep =
    (takeWhile (\<lambda>c. c \<noteq> sep) s, drop 1 (dropWhile (\<lambda>c. c \<noteq> sep) s), sep \<in> set s)"

definition TrimLeftZeros :: "string \<Rightarrow> string" where
  "TrimLeftZeros s = dropWhile (\<lambda>c. c = CHR ''0'') s"

text \<open>The white space of \<^verbatim>\<open>unicode.IsSpace\<close>, each character in UTF-8.\<close>

definition white_space :: "string list" where
  "white_space =
    [[CHR 0x09], [CHR 0x0A], [CHR 0x0B], [CHR 0x0C], [CHR 0x0D], [CHR 0x20],
     [CHR 0xC2, CHR 0x85], [CHR 0xC2, CHR 0xA0], [CHR 0xE1, CHR 0x9A, CHR 0x80],
     [CHR 0xE2, CHR 0x80, CHR 0x80], [CHR 0xE2, CHR 0x80, CHR 0x81],
     [CHR 0xE2, CHR 0x80, CHR 0x82], [CHR 0xE2, CHR 0x80, CHR 0x83],
     [CHR 0xE2, CHR 0x80, CHR 0x84], [CHR 0xE2, CHR 0x80, CHR 0x85],
     [CHR 0xE2, CHR 0x80, CHR 0x86], [CHR 0xE2, CHR 0x80, CHR 0x87],
     [CHR 0xE2, CHR 0x80, CHR 0x88], [CHR 0xE2, CHR 0x80, CHR 0x89],
     [CHR 0xE2, CHR 0x80, CHR 0x8A], [CHR 0xE2, CHR 0x80, CHR 0xA8],
     [CHR 0xE2, CHR 0x80, CHR 0xA9], [CHR 0xE2, CHR 0x80, CHR 0xAF],
     [CHR 0xE2, CHR 0x81, CHR 0x9F], [CHR 0xE3, CHR 0x80, CHR 0x80]]"

function trim_front :: "string list \<Rightarrow> string \<Rightarrow> string" where
  "trim_front ps s =
    (case find (\<lambda>p. p \<noteq> [] \<and> prefix p s) ps of
       None \<Rightarrow> s
     | Some p \<Rightarrow> trim_front ps (drop (length p) s))"
  by pat_completeness auto
termination
  by (relation "measure (\<lambda>(ps, s). length s)")
    (auto simp: find_Some_iff prefix_def)

declare trim_front.simps [simp del]

definition TrimSpace :: "string \<Rightarrow> string" where
  "TrimSpace s = rev (trim_front (map rev white_space) (rev (trim_front white_space s)))"

definition ParseInt :: "string \<Rightarrow> error + int64" where
  "ParseInt s =
    (case s of
       [] \<Rightarrow> Inl ErrStrconv
     | c # cs \<Rightarrow>
         let neg = (c = CHR ''-'');
             ds = (if neg \<or> c = CHR ''+'' then cs else s)
         in if ds = [] \<or> \<not> list_all is_digit ds then Inl ErrStrconv
            else if neg then
              (if - int (digits_val ds) < min_int64 then Inl ErrStrconv
               else Inr (word_of_int (- int (digits_val ds))))
            else
              (if max_int64 < int (digits_val ds) then Inl ErrStrconv
               else Inr (word_of_int (int (digits_val ds)))))"

text \<open>\<^verbatim>\<open>strings.ToLower\<close>, for a comparison with an ASCII text without the letters i and k,
  the only ones that a character outside ASCII is the upper case of.\<close>

definition lower_char :: "char \<Rightarrow> char" where
  "lower_char c = (if is_upper c then char_of (of_char c + 32 :: nat) else c)"

definition ToLower :: "string \<Rightarrow> string" where
  "ToLower s = map lower_char s"

text \<open>\<^verbatim>\<open>%d\<close> and \<^verbatim>\<open>%02d\<close> of an unsigned value, and \<^verbatim>\<open>strconv.FormatInt(v, 10)\<close>.\<close>

definition pad2 :: "string \<Rightarrow> string" where
  "pad2 s = (if length s < 2 then CHR ''0'' # s else s)"

definition FormatInt :: "int64 \<Rightarrow> string" where
  "FormatInt v =
    (if sint v < 0 then CHR ''-'' # nat_str (nat (- sint v)) else nat_str (nat (sint v)))"

subsection \<open>Digits\<close>

lemma digit_char_digit [simp]: "n < 10 \<Longrightarrow> is_digit (digit_char n)"
  by (auto simp: is_digit_def digit_char_def)

lemma digit_val_char [simp]: "n < 10 \<Longrightarrow> digit_val (digit_char n) = n"
  by (auto simp: digit_val_def digit_char_def)

lemma digit_val_lt: "is_digit c \<Longrightarrow> digit_val c < 10"
  by (auto simp: is_digit_def digit_val_def)

lemma digit_char_val: "is_digit c \<Longrightarrow> digit_char (digit_val c) = c"
  by (auto simp: is_digit_def digit_val_def digit_char_def)

lemma digit_val_zero: "is_digit c \<Longrightarrow> digit_val c = 0 \<longleftrightarrow> c = CHR ''0''"
proof
  assume c: "is_digit c" and "digit_val c = 0"
  then have "c = digit_char 0" using digit_char_val [OF c] by simp
  then show "c = CHR ''0''" by (simp add: digit_char_def char_of_def bit_iff_odd)
qed (simp add: digit_val_def)

lemma is_digit_not [simp]:
  "\<not> is_digit CHR ''.''" "\<not> is_digit CHR ''-''" "\<not> is_digit CHR ''+''" "is_digit CHR ''0''"
  by (auto simp: is_digit_def)

lemma digits_val_simps [simp]: "digits_val [] = 0"
  by (simp add: digits_val_def)

lemma digits_val_snoc [simp]: "digits_val (s @ [c]) = 10 * digits_val s + digit_val c"
  by (simp add: digits_val_def)

lemma digits_val_append: "digits_val (s @ t) = digits_val s * 10 ^ length t + digits_val t"
proof (induction t rule: rev_induct)
  case (snoc c t)
  then show ?case
    using digits_val_snoc [of "s @ t" c] by (simp add: algebra_simps)
qed simp

lemma digits_val_Cons: "digits_val (c # s) = digit_val c * 10 ^ length s + digits_val s"
  using digits_val_append [of "[c]" s] by (simp add: digits_val_def)

lemma digits_val_lt: "list_all is_digit s \<Longrightarrow> digits_val s < 10 ^ length s"
proof (induction s)
  case (Cons c s)
  then have "digits_val s < 10 ^ length s" and "digit_val c \<le> 9"
    using digit_val_lt [of c] by auto
  then have "digit_val c * 10 ^ length s + digits_val s < 9 * 10 ^ length s + 10 ^ length s"
    by (meson add_le_less_mono mult_le_mono1)
  then show ?case by (simp add: digits_val_Cons)
qed simp

lemma digits_val_ge:
  assumes "list_all is_digit (c # s)" and "c \<noteq> CHR ''0''"
  shows "10 ^ length s \<le> digits_val (c # s)"
proof -
  have "1 \<le> digit_val c"
    using assms digit_val_zero [of c] by simp
  then have "1 * 10 ^ length s \<le> digit_val c * 10 ^ length s"
    by (rule mult_le_mono1)
  then show ?thesis by (simp add: digits_val_Cons trans_le_add1)
qed

lemma digits_val_trim: "digits_val (TrimLeftZeros s) = digits_val s"
  by (induction s)
    (auto simp: TrimLeftZeros_def digits_val_Cons digit_val_def)

lemma trimmed_length:
  assumes "list_all is_digit s"
  shows "length (TrimLeftZeros s) \<le> n \<longleftrightarrow> digits_val s < 10 ^ n"
proof (cases "TrimLeftZeros s")
  case Nil
  then show ?thesis using digits_val_trim [of s] by simp
next
  case (Cons c t)
  have ct: "list_all is_digit (c # t)"
    using assms Cons unfolding TrimLeftZeros_def
    by (metis list_all_append takeWhile_dropWhile_id)
  have nz: "c \<noteq> CHR ''0''"
    using Cons hd_dropWhile [of "\<lambda>c. c = CHR ''0''" s]
    by (simp add: TrimLeftZeros_def)
  have v: "digits_val s = digits_val (c # t)"
    using Cons digits_val_trim [of s] by simp
  have lo: "10 ^ length t \<le> digits_val s" and hi: "digits_val s < 10 ^ Suc (length t)"
    using digits_val_ge [OF ct nz] digits_val_lt [OF ct] v by simp_all
  show ?thesis
  proof
    assume "length (TrimLeftZeros s) \<le> n"
    then have "(10::nat) ^ Suc (length t) \<le> 10 ^ n"
      using Cons by (intro power_increasing) auto
    with hi show "digits_val s < 10 ^ n" by simp
  next
    assume "digits_val s < 10 ^ n"
    with lo have "(10::nat) ^ length t < 10 ^ n" by (rule le_less_trans)
    then have "length t < n" by (rule power_less_imp_less_exp [rotated]) simp
    then show "length (TrimLeftZeros s) \<le> n" using Cons by simp
  qed
qed

subsection \<open>Formatting\<close>

lemma nat_str_digits [simp]: "list_all is_digit (nat_str n)"
  by (induction n rule: nat_str.induct) (subst nat_str.simps, auto)

lemma nat_str_not_Nil [simp]: "nat_str n \<noteq> []"
  by (subst nat_str.simps) simp

lemma digits_val_nat_str [simp]: "digits_val (nat_str n) = n"
proof (induction n rule: nat_str.induct)
  case (1 n)
  then show ?case
    by (subst nat_str.simps) (auto simp: digits_val_def [of "[_]"])
qed

lemma digits_not_mem: "list_all is_digit s \<Longrightarrow> \<not> is_digit c \<Longrightarrow> c \<notin> set s"
  by (auto simp: list_all_iff)

lemma pad2_digits [simp]: "list_all is_digit s \<Longrightarrow> list_all is_digit (pad2 s)"
  by (simp add: pad2_def)

lemma digits_val_pad2 [simp]: "digits_val (pad2 s) = digits_val s"
  by (simp add: pad2_def digits_val_Cons digit_val_def)

lemma pad2_length [simp]: "n < 100 \<Longrightarrow> length (pad2 (nat_str n)) = 2"
proof (cases "n < 10")
  case True
  then show ?thesis by (subst nat_str.simps) (simp add: pad2_def)
next
  case False
  assume "n < 100"
  then have "n div 10 < 10" by simp
  with False show ?thesis
    by (subst nat_str.simps, subst nat_str.simps) (simp add: pad2_def)
qed

subsection \<open>Cutting and parsing\<close>

lemma Cut_absent [simp]: "sep \<notin> set s \<Longrightarrow> Cut s sep = (s, [], False)"
proof -
  assume "sep \<notin> set s"
  then have "dropWhile (\<lambda>c. c \<noteq> sep) s = []" and "takeWhile (\<lambda>c. c \<noteq> sep) s = s"
    by (auto simp: dropWhile_eq_Nil_conv takeWhile_eq_all_conv)
  with \<open>sep \<notin> set s\<close> show ?thesis
    unfolding Cut_def by (simp del: dropWhile_eq_Nil_conv takeWhile_eq_all_conv)
qed

lemma Cut_present [simp]: "sep \<notin> set s \<Longrightarrow> Cut (s @ sep # t) sep = (s, t, True)"
proof -
  assume "sep \<notin> set s"
  then have "\<And>c. c \<in> set s \<Longrightarrow> c \<noteq> sep" by auto
  then show ?thesis by (simp add: Cut_def takeWhile_tail dropWhile_append2)
qed

lemma Cut_inv:
  assumes "Cut s sep = (a, b, found)"
  shows "sep \<notin> set a \<and> (if found then s = a @ sep # b else s = a \<and> b = [])"
  using assms
proof (cases "sep \<in> set s")
  case True
  then obtain x y where s: "s = x @ sep # y" and x: "sep \<notin> set x"
    by (meson split_list_first)
  then show ?thesis using assms by auto
next
  case False
  then show ?thesis using assms by auto
qed

lemma ParseInt_digits:
  assumes "list_all is_digit s" and "s \<noteq> []"
  shows "ParseInt s =
    (if max_int64 < int (digits_val s) then Inl ErrStrconv
     else Inr (word_of_int (int (digits_val s))))"
proof -
  obtain c cs where s: "s = c # cs" using assms(2) by (cases s) auto
  then have "c \<noteq> CHR ''-''" and "c \<noteq> CHR ''+''"
    using assms(1) is_digit_not by auto
  then show ?thesis using assms s by (simp add: ParseInt_def)
qed

lemma ParseInt_nat_str:
  "int n \<le> max_int64 \<Longrightarrow> ParseInt (nat_str n) = Inr (word_of_int (int n))"
  by (subst ParseInt_digits) simp_all

text \<open>\<^verbatim>\<open>strconv.ParseInt\<close> undoes \<^verbatim>\<open>strconv.FormatInt\<close>.\<close>

lemma ParseInt_FormatInt: "ParseInt (FormatInt v) = Inr v"
proof (cases "sint v < 0")
  case True
  then show ?thesis
    using sint64_ge [of v] by (simp add: FormatInt_def ParseInt_def Let_def)
next
  case False
  then show ?thesis
    using sint64_le [of v] by (simp add: FormatInt_def ParseInt_nat_str)
qed

end
