(* ===== verification/Money.thy ===== *)
theory Money
  imports GoStrings
begin

text \<open>
  Package \<^verbatim>\<open>internal/domain/money\<close>: amounts in minor units as int64 bound to a currency.
  Every operation is the code's, on \<^typ>\<open>int64\<close> with its wrap-around. \<^verbatim>\<open>units\<close> reads
  the amount as an integer, and the lemmas of the second half say that the overflow checks make
  the operations exact on integers: a result is the integer sum, difference, negation or parsed
  decimal, or it is \<^const>\<open>ErrOverflow\<close> and that integer is not representable.
\<close>

type_synonym Currency = string

definition Scale :: nat where "Scale = 2"

abbreviation unitsPerMajor :: int64 where "unitsPerMajor \<equiv> 100"

record Money =
  m_minor :: int64
  m_currency :: Currency
  m_valid :: bool

abbreviation units :: "Money \<Rightarrow> int" where "units m \<equiv> sint (m_minor m)"

text \<open>The two regular expressions \<^verbatim>\<open>^[A-Z]{3}$\<close> and \<^verbatim>\<open>^[0-9]+(\.[0-9]{1,2})?$\<close>.\<close>

definition currencyPattern :: "string \<Rightarrow> bool" where
  "currencyPattern s \<longleftrightarrow> length s = 3 \<and> list_all is_upper s"

definition amountPattern :: "string \<Rightarrow> bool" where
  "amountPattern s \<longleftrightarrow>
    (case Cut s CHR ''.'' of (whole, frac, dot) \<Rightarrow>
       whole \<noteq> [] \<and> list_all is_digit whole \<and>
       (dot \<longrightarrow> 1 \<le> length frac \<and> length frac \<le> 2 \<and> list_all is_digit frac))"

definition ParseCurrency :: "string \<Rightarrow> error + Currency" where
  "ParseCurrency code = (if currencyPattern code then Inr code else Inl ErrInvalidCurrency)"

definition FromMinor :: "int64 \<Rightarrow> Currency \<Rightarrow> error + Money" where
  "FromMinor minor currency =
    rbind (ParseCurrency currency) (\<lambda>_.
      Inr \<lparr>m_minor = minor, m_currency = currency, m_valid = True\<rparr>)"

definition MustFromMinor :: "int64 \<Rightarrow> Currency \<Rightarrow> error + Money" where
  "MustFromMinor minor currency =
    (case FromMinor minor currency of Inl _ \<Rightarrow> Inl Panic | Inr m \<Rightarrow> Inr m)"

definition Money_Zero :: "Currency \<Rightarrow> error + Money" where
  "Money_Zero currency = FromMinor 0 currency"

subsection \<open>Parsing\<close>

function pad_frac :: "string \<Rightarrow> string" where
  "pad_frac frac = (if length frac < Scale then pad_frac (frac @ ''0'') else frac)"
  by pat_completeness auto
termination
  by (relation "measure (\<lambda>frac. Scale - length frac)") auto

declare pad_frac.simps [simp del]

definition parseMinor :: "string \<Rightarrow> error + int64" where
  "parseMinor amount =
    (if amount = [] then Inl ErrInvalidAmount
     else if prefix ''-'' amount \<and> amountPattern (drop 1 amount) then Inl ErrNegativeAmount
     else if \<not> amountPattern amount then Inl ErrInvalidAmount
     else
       (case Cut amount CHR ''.'' of (whole, frac, _) \<Rightarrow>
          if length (TrimLeftZeros whole) > 17 then Inl ErrOverflow
          else
            (case ParseInt whole of
               Inl _ \<Rightarrow> Inl ErrInvalidAmount
             | Inr major \<Rightarrow>
                 (case ParseInt (pad_frac frac) of
                    Inl _ \<Rightarrow> Inl ErrInvalidAmount
                  | Inr cents \<Rightarrow>
                      if sint major > sint (quot64 (MaxInt64 - cents) unitsPerMajor)
                      then Inl ErrOverflow
                      else Inr (major * unitsPerMajor + cents)))))"

definition Money_Parse :: "string \<Rightarrow> string \<Rightarrow> error + Money" where
  "Money_Parse amount currency =
    rbind (ParseCurrency currency) (\<lambda>cur.
    rbind (parseMinor amount) (\<lambda>minor.
      Inr \<lparr>m_minor = minor, m_currency = cur, m_valid = True\<rparr>))"

definition Negate :: "Money \<Rightarrow> error + Money" where
  "Negate m =
    (if \<not> m_valid m then Inl ErrUninitialized
     else if m_minor m = MinInt64 then Inl ErrOverflow
     else Inr \<lparr>m_minor = - m_minor m, m_currency = m_currency m, m_valid = True\<rparr>)"

definition ParseSigned :: "string \<Rightarrow> string \<Rightarrow> error + Money" where
  "ParseSigned amount currency =
    (if prefix ''-'' amount then rbind (Money_Parse (drop 1 amount) currency) Negate
     else Money_Parse amount currency)"

subsection \<open>Rendering\<close>

definition Amount :: "Money \<Rightarrow> string" where
  "Amount m =
    (let v = m_minor m;
         neg = sint v < 0;
         u = (if neg then neg_magnitude v else v);
         s = nat_str (unat (u div 100)) @ ''.'' @ pad2 (nat_str (unat (u mod 100)))
     in if neg then CHR ''-'' # s else s)"

definition Money_String :: "Money \<Rightarrow> string" where
  "Money_String m = Amount m @ '' '' @ m_currency m"

subsection \<open>Arithmetic and comparison\<close>

definition IsZeroM :: "Money \<Rightarrow> bool" where "IsZeroM m \<longleftrightarrow> m_minor m = 0"
definition IsNegative :: "Money \<Rightarrow> bool" where "IsNegative m \<longleftrightarrow> sint (m_minor m) < 0"
definition IsPositive :: "Money \<Rightarrow> bool" where "IsPositive m \<longleftrightarrow> sint (m_minor m) > 0"

definition check_pair :: "Money \<Rightarrow> Money \<Rightarrow> error + unit" where
  "check_pair m p =
    (if \<not> m_valid m \<or> \<not> m_valid p then Inl ErrUninitialized
     else if m_currency m \<noteq> m_currency p then Inl MoneyErrCurrencyMismatch
     else Inr ())"

definition Money_Add :: "Money \<Rightarrow> Money \<Rightarrow> error + Money" where
  "Money_Add m p =
    rbind (check_pair m p) (\<lambda>_.
      if (sint (m_minor p) > 0 \<and> sint (m_minor m) > sint (MaxInt64 - m_minor p)) \<or>
         (sint (m_minor p) < 0 \<and> sint (m_minor m) < sint (MinInt64 - m_minor p))
      then Inl ErrOverflow
      else Inr \<lparr>m_minor = m_minor m + m_minor p, m_currency = m_currency m, m_valid = True\<rparr>)"

definition Money_Sub :: "Money \<Rightarrow> Money \<Rightarrow> error + Money" where
  "Money_Sub m p =
    rbind (check_pair m p) (\<lambda>_.
      if (sint (m_minor p) < 0 \<and> sint (m_minor m) > sint (MaxInt64 + m_minor p)) \<or>
         (sint (m_minor p) > 0 \<and> sint (m_minor m) < sint (MinInt64 + m_minor p))
      then Inl ErrOverflow
      else Inr \<lparr>m_minor = m_minor m - m_minor p, m_currency = m_currency m, m_valid = True\<rparr>)"

definition Compare :: "Money \<Rightarrow> Money \<Rightarrow> error + int" where
  "Compare m p =
    rbind (check_pair m p) (\<lambda>_.
      if sint (m_minor m) < sint (m_minor p) then Inr (- 1)
      else if sint (m_minor m) > sint (m_minor p) then Inr 1
      else Inr 0)"

definition Equal :: "Money \<Rightarrow> Money \<Rightarrow> bool" where
  "Equal m p \<longleftrightarrow> m_valid m \<and> m_valid p \<and> m_currency m = m_currency p \<and> m_minor m = m_minor p"

definition SameCurrency :: "Money \<Rightarrow> Money \<Rightarrow> bool" where
  "SameCurrency m p \<longleftrightarrow> m_valid m \<and> m_valid p \<and> m_currency m = m_currency p"

record MoneyJSON =
  j_amount :: string
  j_currency :: string

definition ToJSON :: "Money \<Rightarrow> MoneyJSON" where
  "ToJSON m = \<lparr>j_amount = Amount m, j_currency = m_currency m\<rparr>"

definition FromJSON :: "MoneyJSON \<Rightarrow> error + Money" where
  "FromJSON j = Money_Parse (j_amount j) (j_currency j)"

subsection \<open>Values\<close>

lemma Money_eq_iff:
  "(m :: Money) = p \<longleftrightarrow>
    m_minor m = m_minor p \<and> m_currency m = m_currency p \<and> m_valid m = m_valid p"
  by (cases m; cases p) auto

lemma FromMinor_eq:
  "FromMinor v c =
    (if currencyPattern c then Inr \<lparr>m_minor = v, m_currency = c, m_valid = True\<rparr>
     else Inl ErrInvalidCurrency)"
  by (simp add: FromMinor_def ParseCurrency_def)

lemma FromMinor_Inr_iff:
  "FromMinor v c = Inr m \<longleftrightarrow>
    currencyPattern c \<and> m_minor m = v \<and> m_currency m = c \<and> m_valid m"
  by (auto simp: FromMinor_eq Money_eq_iff)

text \<open>A value that a constructor can have made.\<close>

definition money_ok :: "Money \<Rightarrow> bool" where
  "money_ok m \<longleftrightarrow> m_valid m \<and> currencyPattern (m_currency m)"

lemma FromMinor_ok: "FromMinor v c = Inr m \<Longrightarrow> money_ok m"
  by (simp add: FromMinor_Inr_iff money_ok_def)

lemma FromMinor_self: "money_ok m \<Longrightarrow> FromMinor (m_minor m) (m_currency m) = Inr m"
  by (simp add: FromMinor_Inr_iff money_ok_def)

lemma IsZeroM_units: "IsZeroM m \<longleftrightarrow> units m = 0"
  by (simp add: IsZeroM_def zero_iff_sint64)

lemmas money_sign_defs = IsZeroM_units IsNegative_def IsPositive_def

lemma check_pair_Inr [simp]:
  "check_pair m p = Inr u \<longleftrightarrow> m_valid m \<and> m_valid p \<and> m_currency m = m_currency p"
  by (auto simp: check_pair_def)

subsection \<open>The decimal text of an amount\<close>

lemma pad_frac_eq: "pad_frac f = f @ replicate (2 - length f) CHR ''0''"
proof (induction f rule: pad_frac.induct)
  case (1 f)
  show ?case
  proof (cases "length f < Scale")
    case True
    then have "pad_frac f = pad_frac (f @ ''0'')" by (subst pad_frac.simps) simp
    also have "\<dots> = (f @ ''0'') @ replicate (2 - length (f @ ''0'')) CHR ''0''"
      using 1 True by blast
    also have "\<dots> = f @ replicate (2 - length f) CHR ''0''"
      using True by (simp add: Scale_def Suc_diff_Suc numeral_2_eq_2 flip: replicate_Suc)
    finally show ?thesis .
  next
    case False
    then show ?thesis by (subst pad_frac.simps) (simp add: Scale_def)
  qed
qed

text \<open>The reference meaning of a plain decimal: its value in hundredths.\<close>

definition decimal_units :: "string \<Rightarrow> int" where
  "decimal_units s =
    (case Cut s CHR ''.'' of (whole, frac, _) \<Rightarrow>
       100 * int (digits_val whole) + int (digits_val (pad_frac frac)))"

text \<open>The canonical two-digit form.\<close>

definition decimal_text :: "nat \<Rightarrow> string" where
  "decimal_text n = nat_str (n div 100) @ ''.'' @ pad2 (nat_str (n mod 100))"

lemma Cut_decimal_text:
  "Cut (decimal_text n) CHR ''.'' = (nat_str (n div 100), pad2 (nat_str (n mod 100)), True)"
  using digits_not_mem [OF nat_str_digits is_digit_not(1)]
  by (simp add: decimal_text_def)

lemma amountPattern_decimal_text [simp]: "amountPattern (decimal_text n)"
  by (simp add: amountPattern_def Cut_decimal_text)

lemma decimal_units_text [simp]: "decimal_units (decimal_text n) = int n"
proof -
  have "100 * int (n div 100) + int (n mod 100) = int n"
    by (metis int_ops(9) mult.commute of_nat_add of_nat_mult of_nat_numeral div_mult_mod_eq)
  then show ?thesis
    by (simp add: decimal_units_def Cut_decimal_text pad_frac_eq)
qed

lemma amountPattern_digit_hd: "amountPattern s \<Longrightarrow> s \<noteq> [] \<and> is_digit (hd s)"
proof -
  assume p: "amountPattern s"
  obtain w f d where c: "Cut s CHR ''.'' = (w, f, d)" by (cases "Cut s CHR ''.''") auto
  from p c have "w \<noteq> []" and "list_all is_digit w" by (auto simp: amountPattern_def)
  moreover from Cut_inv [OF c] have "s = w \<or> s = w @ CHR ''.'' # f" by (auto split: if_splits)
  ultimately show ?thesis by (cases w) auto
qed

lemma amountPattern_no_sign: "amountPattern s \<Longrightarrow> \<not> prefix ''-'' s"
  using amountPattern_digit_hd [of s] by (cases s) auto

lemma Amount_eq:
  "Amount m =
    (if units m < 0 then CHR ''-'' # decimal_text (nat (- units m))
     else decimal_text (nat (units m)))"
proof -
  have div: "unat (u div 100) = unat u div 100" and mod: "unat (u mod 100) = unat u mod 100"
    for u :: "64 word"
    by (simp_all add: unat_div unat_mod)
  have neg: "unat (neg_magnitude v) = nat (- sint v)" if "sint v < 0" for v :: int64
  proof -
    have "uint (- v) = - sint v"
      using that uint64_lt [of v]
      by (simp add: sint_uint64 uint_word_ariths zmod_zminus1_eq_if split: if_splits)
    then show ?thesis by (simp add: neg_magnitude_eq unat_eq_nat_uint)
  qed
  have pos: "unat v = nat (sint v)" if "\<not> sint v < 0" for v :: int64
    using that by (metis linorder_not_less nat_int unat_nonneg64)
  show ?thesis
    by (simp add: Amount_def Let_def decimal_text_def div mod neg pos)
qed

subsection \<open>The parser against the reference meaning\<close>

lemma frac_units:
  assumes "list_all is_digit f" and "length f \<le> 2"
  shows "digits_val (pad_frac f) < 100"
    and "ParseInt (pad_frac f) = Inr (word_of_int (int (digits_val (pad_frac f))))"
proof -
  have d: "list_all is_digit (pad_frac f)" and l: "length (pad_frac f) = 2"
    using assms by (auto simp: pad_frac_eq list_all_iff)
  show lt: "digits_val (pad_frac f) < 100"
    using digits_val_lt [OF d] l by simp
  have "pad_frac f \<noteq> []" using l by auto
  with d lt show "ParseInt (pad_frac f) = Inr (word_of_int (int (digits_val (pad_frac f))))"
    by (simp add: ParseInt_digits)
qed

text \<open>The bound \<^verbatim>\<open>major > (math.MaxInt64-cents)/unitsPerMajor\<close> rejects exactly the overflows.\<close>

lemma overflow_bound:
  assumes "0 \<le> c" and "c < 100" and "0 \<le> w" and "w \<le> max_int64"
  shows "sint (word_of_int w :: int64)
      > sint (quot64 (MaxInt64 - word_of_int c) unitsPerMajor) \<longleftrightarrow> max_int64 < 100 * w + c"
proof -
  have c: "sint (word_of_int c :: int64) = c" and w: "sint (word_of_int w :: int64) = w"
    using assms by (auto intro!: sint_of_int64 simp: fits64_def)
  have fits: "fits64 (sint MaxInt64 - sint (word_of_int c :: int64))"
    unfolding c sint_MaxInt64 fits64_def using assms(1,2) by linarith
  define x where "x = (MaxInt64 - word_of_int c :: int64)"
  have x: "sint x = max_int64 - c"
    using sint_sub64 [OF fits] unfolding c sint_MaxInt64 x_def .
  have h: "sint unitsPerMajor = 100" by simp
  have "0 \<le> sint x" and "0 < sint unitsPerMajor"
    using x assms(1,2) h by linarith+
  from quot64_nonneg [OF this] have q: "sint (quot64 x unitsPerMajor) = (max_int64 - c) div 100"
    unfolding h x .
  have "(M - c) div 100 < w \<longleftrightarrow> M < 100 * w + c" for M :: int
    using div_mult_mod_eq [of "M - c" 100] pos_mod_bound [of 100 "M - c"]
      pos_mod_sign [of 100 "M - c"] by linarith
  then show ?thesis unfolding w x_def [symmetric] q .
qed

lemma parseMinor_digits:
  assumes w: "w \<noteq> []" "list_all is_digit w"
    and f: "list_all is_digit f" "length f \<le> 2"
    and cut: "Cut s CHR ''.'' = (w, f, d)" and pat: "amountPattern s"
  shows "parseMinor s =
    (if decimal_units s \<le> max_int64 then Inr (word_of_int (decimal_units s))
     else Inl ErrOverflow)"
proof -
  define W where "W = int (digits_val w)"
  define C where "C = int (digits_val (pad_frac f))"
  have C: "0 \<le> C" "C < 100" and pf: "ParseInt (pad_frac f) = Inr (word_of_int C)"
    using frac_units [OF f] by (simp_all add: C_def)
  have du: "decimal_units s = 100 * W + C"
    by (simp add: decimal_units_def cut W_def C_def)
  have ne: "s \<noteq> []" and ns: "\<not> prefix ''-'' s"
    using amountPattern_digit_hd [OF pat] amountPattern_no_sign [OF pat] by auto
  show ?thesis
  proof (cases "length (TrimLeftZeros w) > 17")
    case True
    then have "10 ^ 17 \<le> digits_val w" using trimmed_length [OF w(2), of 17] by simp
    then have "10 ^ 17 \<le> W" by (simp add: W_def)
    with C have "max_int64 < decimal_units s" by (simp add: du)
    with True show ?thesis by (simp add: parseMinor_def ne ns pat cut)
  next
    case False
    then have "digits_val w < 10 ^ 17" using trimmed_length [OF w(2), of 17] by simp
    then have W: "0 \<le> W" "W \<le> max_int64" by (simp_all add: W_def)
    then have pw: "ParseInt w = Inr (word_of_int W)"
      using ParseInt_digits [OF w(2,1)] by (simp add: W_def)
    have sum: "word_of_int W * unitsPerMajor + word_of_int C = word_of_int (100 * W + C)"
      by (simp add: wi_hom_syms mult.commute)
    from False show ?thesis
      using overflow_bound [OF C W]
      by (simp add: parseMinor_def ne ns pat cut pw pf du sum not_less)
  qed
qed

lemma amountPatternE:
  assumes "amountPattern s"
  obtains w f d where "Cut s CHR ''.'' = (w, f, d)" "w \<noteq> []" "list_all is_digit w"
    "list_all is_digit f" "length f \<le> 2"
proof -
  obtain w f d where c: "Cut s CHR ''.'' = (w, f, d)" by (cases "Cut s CHR ''.''") auto
  moreover have "\<not> d \<Longrightarrow> f = []" using Cut_inv [OF c] by auto
  ultimately show ?thesis
    using assms that by (cases d) (auto simp: amountPattern_def)
qed

lemma parseMinor_eq:
  "parseMinor s =
    (if amountPattern s then
       (if decimal_units s \<le> max_int64 then Inr (word_of_int (decimal_units s))
        else Inl ErrOverflow)
     else if prefix ''-'' s \<and> amountPattern (drop 1 s) then Inl ErrNegativeAmount
     else Inl ErrInvalidAmount)"
proof (cases "amountPattern s")
  case True
  then show ?thesis
    by (rule amountPatternE) (simp add: True parseMinor_digits)
next
  case False
  then show ?thesis by (auto simp: parseMinor_def)
qed

text \<open>The reading of a plain decimal, by its digits: an integer part, and after a point at most the
  digit of the tenths and the digit of the hundredths.\<close>

definition number_of :: "string \<Rightarrow> int" where
  "number_of ds = horner_sum (\<lambda>c. of_char c - 48) 10 (rev ds)"

definition hundredths :: "string \<Rightarrow> int option" where
  "hundredths s =
    (let whole = takeWhile is_digit s in
     if whole = [] then None
     else
       (case dropWhile is_digit s of
          [] \<Rightarrow> Some (number_of whole * 100)
        | [p, a] \<Rightarrow>
            if p = CHR ''.'' \<and> is_digit a then Some (number_of whole * 100 + number_of [a] * 10) else None
        | [p, a, b] \<Rightarrow>
            if p = CHR ''.'' \<and> is_digit a \<and> is_digit b
            then Some (number_of whole * 100 + number_of [a] * 10 + number_of [b]) else None
        | _ \<Rightarrow> None))"

lemma digit_number: "is_digit c \<Longrightarrow> int (digit_val c) = of_char c - 48"
  by (simp add: digit_val_def is_digit_def of_nat_diff of_char_def)

lemma number_of_digits: "list_all is_digit ds \<Longrightarrow> number_of ds = int (digits_val ds)"
proof (induction ds rule: rev_induct)
  case (snoc c ds)
  then show ?case using digit_number [of c] by (simp add: number_of_def digits_val_def)
qed (simp add: number_of_def digits_val_def)

lemma hundredths_Some:
  assumes "amountPattern s"
  shows "hundredths s = Some (decimal_units s)"
proof -
  obtain w f d where c: "Cut s CHR ''.'' = (w, f, d)" by (cases "Cut s CHR ''.''") auto
  have w: "w \<noteq> []" "list_all is_digit w" and f: "d \<Longrightarrow> 1 \<le> length f \<and> length f \<le> 2 \<and> list_all is_digit f"
    using assms c by (auto simp: amountPattern_def)
  have dot: "\<not> is_digit CHR ''.''" by (simp add: is_digit_def)
  show ?thesis
  proof (cases d)
    case False
    then have s: "s = w" "f = []" using Cut_inv [OF c] by auto
    have t: "takeWhile is_digit s = w" "dropWhile is_digit s = []"
      using w(2) unfolding s(1) list_all_iff takeWhile_eq_all_conv dropWhile_eq_Nil_conv by blast+
    have "digits_val ''00'' = 0" by (simp add: digits_val_def digit_val_def)
    then show ?thesis
      using number_of_digits [OF w(2)] w(1) unfolding hundredths_def decimal_units_def c s(2) t Let_def
      by (simp add: pad_frac_eq numeral_2_eq_2)
  next
    case True
    then have s: "s = w @ CHR ''.'' # f" using Cut_inv [OF c] by auto
    have t: "takeWhile is_digit s = w" "dropWhile is_digit s = CHR ''.'' # f"
      using w(2) dot unfolding s by (simp_all add: takeWhile_append dropWhile_append list_all_iff)
    consider (one) a where "f = [a]" | (two) a b where "f = [a, b]"
      using f [OF True] by (cases f rule: list.exhaust [case_names Nil Cons]; cases "tl f") (auto simp: Suc_le_eq)
    then show ?thesis
      by cases (use f [OF True] w number_of_digits [OF w(2)] number_of_digits [of "[_]"] in
        \<open>simp_all add: hundredths_def Let_def t decimal_units_def c pad_frac_eq digits_val_def digit_val_def numeral_2_eq_2\<close>)
  qed
qed

lemma hundredths_None:
  assumes "\<not> amountPattern s"
  shows "hundredths s = None"
proof (rule ccontr)
  assume n: "hundredths s \<noteq> None"
  let ?w = "takeWhile is_digit s" and ?r = "dropWhile is_digit s"
  have w: "?w \<noteq> []" "list_all is_digit ?w" using n by (auto simp: hundredths_def list_all_iff dest: set_takeWhileD)
  have dot: "CHR ''.'' \<notin> set ?w" using set_takeWhileD by (fastforce simp: is_digit_def)
  have r: "?r = [] \<or> (\<exists>f. ?r = CHR ''.'' # f \<and> 1 \<le> length f \<and> length f \<le> 2 \<and> list_all is_digit f)"
    using n by (auto simp: hundredths_def Let_def split: list.splits if_splits)
  have "amountPattern (w @ r)" if "w \<noteq> []" "list_all is_digit w" "CHR ''.'' \<notin> set w"
    "r = [] \<or> (\<exists>f. r = CHR ''.'' # f \<and> 1 \<le> length f \<and> length f \<le> 2 \<and> list_all is_digit f)" for w r
  proof -
    have u: "takeWhile (\<lambda>c. c \<noteq> CHR ''.'') (w @ r) = w @ takeWhile (\<lambda>c. c \<noteq> CHR ''.'') r"
      "dropWhile (\<lambda>c. c \<noteq> CHR ''.'') (w @ r) = dropWhile (\<lambda>c. c \<noteq> CHR ''.'') r"
      by (rule takeWhile_append2, use that(3) in metis) (rule dropWhile_append2, use that(3) in metis)
    have t: "takeWhile (\<lambda>c. c \<noteq> CHR ''.'') (w @ r) = w" "dropWhile (\<lambda>c. c \<noteq> CHR ''.'') (w @ r) = r"
      unfolding u using that(4) by (elim disjE exE; simp)+
    from that(4) show ?thesis
    proof
      assume "r = []"
      then show ?thesis using that(1-3) unfolding amountPattern_def Cut_def t by simp
    next
      assume "\<exists>f. r = CHR ''.'' # f \<and> 1 \<le> length f \<and> length f \<le> 2 \<and> list_all is_digit f"
      then obtain f where "r = CHR ''.'' # f" "1 \<le> length f" "length f \<le> 2" "list_all is_digit f" by blast
      then show ?thesis using that(1,2) unfolding amountPattern_def Cut_def t by simp
    qed
  qed
  from this [OF w dot r] show False using assms by simp
qed

text \<open>C30. \<^verbatim>\<open>parseMinor\<close> is exact. A plain decimal with at most two digits after the point gives its
  value in hundredths when that value fits in int64 and \<^const>\<open>ErrOverflow\<close> otherwise; a minus sign
  in front of a plain decimal gives \<^const>\<open>ErrNegativeAmount\<close>, anything else
  \<^const>\<open>ErrInvalidAmount\<close>. The value is read digit by digit: 25.5 is 2550 hundredths. Neither
  \<^verbatim>\<open>strconv.ParseInt\<close> call can fail and the length test and the division test together reject
  exactly the overflows.\<close>

theorem parseMinor_exact:
  "parseMinor s =
    (case hundredths s of
       Some n \<Rightarrow> if n \<le> max_int64 then Inr (word_of_int n) else Inl ErrOverflow
     | None \<Rightarrow>
         if prefix ''-'' s \<and> hundredths (drop 1 s) \<noteq> None then Inl ErrNegativeAmount
         else Inl ErrInvalidAmount)"
  using hundredths_Some hundredths_None
  by (cases "amountPattern s"; cases "amountPattern (drop 1 s)") (simp_all add: parseMinor_eq)

lemma decimal_units_nonneg: "0 \<le> decimal_units s"
  by (simp add: decimal_units_def split: prod.splits)

lemma parseMinor_Inr:
  "parseMinor s = Inr v \<longleftrightarrow> amountPattern s \<and> decimal_units s = sint v"
proof
  assume "parseMinor s = Inr v"
  then show "amountPattern s \<and> decimal_units s = sint v"
    using decimal_units_nonneg [of s]
    by (auto simp: parseMinor_eq fits64_def sint_of_int64 split: if_splits)
next
  assume a: "amountPattern s \<and> decimal_units s = sint v"
  then show "parseMinor s = Inr v"
    using sint64_le [of v] by (simp add: parseMinor_eq)
qed

lemma Money_Parse_Inr:
  "Money_Parse a c = Inr m \<longleftrightarrow>
    currencyPattern c \<and> amountPattern a \<and> decimal_units a = units m \<and>
    m_currency m = c \<and> m_valid m"
  by (auto simp: Money_Parse_def ParseCurrency_def parseMinor_Inr Money_eq_iff)

lemma Money_Parse_nonneg: "Money_Parse a c = Inr m \<Longrightarrow> 0 \<le> units m \<and> money_ok m"
  using decimal_units_nonneg [of a] by (auto simp: Money_Parse_Inr money_ok_def)

lemma Negate_Inr:
  "Negate m = Inr p \<longleftrightarrow>
    m_valid m \<and> m_minor m \<noteq> MinInt64 \<and> p = m\<lparr>m_minor := - m_minor m\<rparr>"
  by (auto simp: Negate_def Money_eq_iff)

text \<open>C31. Amounts survive rendering: \<^verbatim>\<open>ParseSigned(m.Amount(), m.Currency())\<close> gives back m for
  every valid amount but one. The least int64 renders as -92233720368547758.08, whose magnitude
  is not representable, and parsing it back is \<^const>\<open>ErrOverflow\<close>.\<close>

theorem ParseSigned_Amount:
  assumes "money_ok m"
  shows "ParseSigned (Amount m) (m_currency m) =
    (if m_minor m = MinInt64 then Inl ErrOverflow else Inr m)"
proof (cases "units m < 0")
  case False
  then have "Money_Parse (decimal_text (nat (units m))) (m_currency m) = Inr m"
    using assms by (simp add: Money_Parse_Inr money_ok_def)
  moreover have "\<not> prefix ''-'' (decimal_text (nat (units m)))"
    by (rule amountPattern_no_sign) simp
  moreover have "m_minor m \<noteq> MinInt64" using False by auto
  ultimately show ?thesis using False by (simp add: ParseSigned_def Amount_eq)
next
  case neg: True
  let ?t = "decimal_text (nat (- units m))"
  have units_t: "decimal_units ?t = - units m" using neg by simp
  have P: "ParseSigned (Amount m) (m_currency m) = rbind (Money_Parse ?t (m_currency m)) Negate"
    using neg by (simp add: ParseSigned_def Amount_eq)
  show ?thesis
  proof (cases "m_minor m = MinInt64")
    case True
    then have "Money_Parse ?t (m_currency m) = Inl ErrOverflow"
      using assms by (simp add: Money_Parse_def ParseCurrency_def money_ok_def parseMinor_eq)
    with True P show ?thesis by simp
  next
    case False
    then have "units m \<noteq> min_int64" using sint_inject64 [of "m_minor m" MinInt64] by simp
    then have fits: "fits64 (- units m)"
      using sint64_ge [of "m_minor m"] neg by (simp add: fits64_def)
    let ?p = "m\<lparr>m_minor := - m_minor m\<rparr>"
    have "Money_Parse ?t (m_currency m) = Inr ?p"
      using assms sint_minus64 [OF fits] units_t by (simp add: Money_Parse_Inr money_ok_def)
    moreover have "m_minor ?p \<noteq> MinInt64"
      using sint_minus64 [OF fits] neg sint_inject64 [of "- m_minor m" MinInt64] by auto
    ultimately show ?thesis using False P assms by (simp add: Negate_def Money_eq_iff money_ok_def)
  qed
qed

theorem ParseSigned_Amount_witness:
  "ParseSigned (Amount \<lparr>m_minor = - 50, m_currency = ''BRL'', m_valid = True\<rparr>) ''BRL''
    = Inr \<lparr>m_minor = - 50, m_currency = ''BRL'', m_valid = True\<rparr>"
  using ParseSigned_Amount [of "\<lparr>m_minor = - 50, m_currency = ''BRL'', m_valid = True\<rparr>"]
  by (simp add: money_ok_def currencyPattern_def is_upper_def)

text \<open>The external form of a non-negative amount parses back, and equal texts mean equal
  amounts: hashing the text is hashing the amount.\<close>

lemma FromJSON_ToJSON:
  "money_ok m \<Longrightarrow> 0 \<le> units m \<Longrightarrow> FromJSON (ToJSON m) = Inr m"
  by (simp add: FromJSON_def ToJSON_def Money_Parse_Inr Amount_eq money_ok_def)

lemma decimal_text_inject [simp]: "decimal_text a = decimal_text b \<longleftrightarrow> a = b"
  by (metis decimal_units_text of_nat_eq_iff)

lemma decimal_text_no_sign: "decimal_text a \<noteq> CHR ''-'' # t"
  using amountPattern_no_sign [OF amountPattern_decimal_text, of a] by auto

lemma Amount_inject: "Amount m = Amount p \<longleftrightarrow> m_minor m = m_minor p"
proof
  assume "Amount m = Amount p"
  then have "units m = units p"
    using decimal_text_no_sign by (auto simp: Amount_eq split: if_splits) metis+
  then show "m_minor m = m_minor p" by (simp only: sint_inject64)
qed (simp add: Amount_eq)

subsection \<open>Arithmetic against the integers\<close>

definition FromMinorUnchecked :: "int \<Rightarrow> Currency \<Rightarrow> error + Money" where
  "FromMinorUnchecked i c = Inr \<lparr>m_minor = word_of_int i, m_currency = c, m_valid = True\<rparr>"

lemma Money_Add_eq:
  "Money_Add m p =
    rbind (check_pair m p) (\<lambda>_.
      if fits64 (units m + units p)
      then Inr \<lparr>m_minor = m_minor m + m_minor p, m_currency = m_currency m, m_valid = True\<rparr>
      else Inl ErrOverflow)"
proof -
  have "sint (MaxInt64 - m_minor p) = max_int64 - units p" if "units p > 0"
    using that sint64_le [of "m_minor p"] sint_sub64 [of MaxInt64 "m_minor p"]
    unfolding fits64_def sint_MaxInt64 by linarith
  moreover have "sint (MinInt64 - m_minor p) = min_int64 - units p" if "units p < 0"
    using that sint64_ge [of "m_minor p"] sint_sub64 [of MinInt64 "m_minor p"]
    unfolding fits64_def sint_MinInt64 by linarith
  ultimately have "(units p > 0 \<and> units m > sint (MaxInt64 - m_minor p)) \<or>
      (units p < 0 \<and> units m < sint (MinInt64 - m_minor p)) \<longleftrightarrow> \<not> fits64 (units m + units p)"
    using sint64_ge [of "m_minor m"] sint64_le [of "m_minor m"] unfolding fits64_def by smt
  then show ?thesis unfolding Money_Add_def by simp
qed

lemma Money_Sub_eq:
  "Money_Sub m p =
    rbind (check_pair m p) (\<lambda>_.
      if fits64 (units m - units p)
      then Inr \<lparr>m_minor = m_minor m - m_minor p, m_currency = m_currency m, m_valid = True\<rparr>
      else Inl ErrOverflow)"
proof -
  have "sint (MaxInt64 + m_minor p) = max_int64 + units p" if "units p < 0"
    using that sint64_ge [of "m_minor p"] sint_add64 [of MaxInt64 "m_minor p"]
    unfolding fits64_def sint_MaxInt64 by linarith
  moreover have "sint (MinInt64 + m_minor p) = min_int64 + units p" if "units p > 0"
    using that sint64_le [of "m_minor p"] sint_add64 [of MinInt64 "m_minor p"]
    unfolding fits64_def sint_MinInt64 by linarith
  ultimately have "(units p < 0 \<and> units m > sint (MaxInt64 + m_minor p)) \<or>
      (units p > 0 \<and> units m < sint (MinInt64 + m_minor p)) \<longleftrightarrow> \<not> fits64 (units m - units p)"
    using sint64_ge [of "m_minor m"] sint64_le [of "m_minor m"] unfolding fits64_def by smt
  then show ?thesis unfolding Money_Sub_def by simp
qed

lemma Money_Add_Inr:
  "Money_Add m p = Inr r \<longleftrightarrow>
    m_valid m \<and> m_valid p \<and> m_currency m = m_currency p \<and>
    units r = units m + units p \<and> m_currency r = m_currency m \<and> m_valid r"
proof
  assume "Money_Add m p = Inr r"
  then show "m_valid m \<and> m_valid p \<and> m_currency m = m_currency p \<and>
      units r = units m + units p \<and> m_currency r = m_currency m \<and> m_valid r"
    by (auto simp: Money_Add_eq sint_add64 split: if_splits)
next
  assume r: "m_valid m \<and> m_valid p \<and> m_currency m = m_currency p \<and>
      units r = units m + units p \<and> m_currency r = m_currency m \<and> m_valid r"
  then have f: "fits64 (units m + units p)" by (metis fits64_sint)
  with r have "m_minor r = m_minor m + m_minor p"
    by (simp add: sint_add64 flip: sint_inject64)
  with r f show "Money_Add m p = Inr r" by (simp add: Money_Add_eq Money_eq_iff)
qed

lemma Money_Sub_Inr:
  "Money_Sub m p = Inr r \<longleftrightarrow>
    m_valid m \<and> m_valid p \<and> m_currency m = m_currency p \<and>
    units r = units m - units p \<and> m_currency r = m_currency m \<and> m_valid r"
proof
  assume "Money_Sub m p = Inr r"
  then show "m_valid m \<and> m_valid p \<and> m_currency m = m_currency p \<and>
      units r = units m - units p \<and> m_currency r = m_currency m \<and> m_valid r"
    by (auto simp: Money_Sub_eq sint_sub64 split: if_splits)
next
  assume r: "m_valid m \<and> m_valid p \<and> m_currency m = m_currency p \<and>
      units r = units m - units p \<and> m_currency r = m_currency m \<and> m_valid r"
  then have f: "fits64 (units m - units p)" by (metis fits64_sint)
  with r have "m_minor r = m_minor m - m_minor p"
    by (simp add: sint_sub64 flip: sint_inject64)
  with r f show "Money_Sub m p = Inr r" by (simp add: Money_Sub_eq Money_eq_iff)
qed

lemma Compare_Inr:
  "Compare m p = Inr c \<longleftrightarrow>
    m_valid m \<and> m_valid p \<and> m_currency m = m_currency p \<and> c = sgn (units m - units p)"
  by (auto simp: Compare_def sgn_if)

lemma Equal_iff: "Equal m p \<longleftrightarrow> m_valid m \<and> m_valid p \<and> m = p"
  by (auto simp: Equal_def Money_eq_iff)

text \<open>C32. Addition and subtraction are those of the integers wherever they return: the result is
  \<^const>\<open>ErrUninitialized\<close> for a zero value, a currency error for two currencies,
  \<^const>\<open>ErrOverflow\<close> exactly when the integer result is outside int64, and otherwise the amount
  that the integer result denotes. The wrap-around of int64 is never seen.\<close>

theorem Money_arith_exact:
  "Money_Add m p =
     (if \<not> m_valid m \<or> \<not> m_valid p then Inl ErrUninitialized
      else if m_currency m \<noteq> m_currency p then Inl MoneyErrCurrencyMismatch
      else if fits64 (units m + units p) then FromMinorUnchecked (units m + units p) (m_currency m)
      else Inl ErrOverflow)
   \<and> Money_Sub m p =
     (if \<not> m_valid m \<or> \<not> m_valid p then Inl ErrUninitialized
      else if m_currency m \<noteq> m_currency p then Inl MoneyErrCurrencyMismatch
      else if fits64 (units m - units p) then FromMinorUnchecked (units m - units p) (m_currency m)
      else Inl ErrOverflow)"
  by (simp add: Money_Add_eq Money_Sub_eq check_pair_def FromMinorUnchecked_def word_of_int_eqI64
      sint_add64 sint_sub64)

theorem Money_arith_exact_witness:
  "Money_Add \<lparr>m_minor = 9223372036854775807, m_currency = ''BRL'', m_valid = True\<rparr>
     \<lparr>m_minor = 1, m_currency = ''BRL'', m_valid = True\<rparr> = Inl ErrOverflow
   \<and> Money_Sub \<lparr>m_minor = 5, m_currency = ''BRL'', m_valid = True\<rparr>
     \<lparr>m_minor = 7, m_currency = ''BRL'', m_valid = True\<rparr>
     = Inr \<lparr>m_minor = - 2, m_currency = ''BRL'', m_valid = True\<rparr>"
  by (simp add: Money_arith_exact FromMinorUnchecked_def fits64_def)

end
