(* ===== verification/Wallet.thy ===== *)
theory Wallet
  imports Money
begin

text \<open>
  Package \<^verbatim>\<open>internal/domain/wallet\<close>: the aggregate that owns a balance and the ledger entries
  that its movements produce. \<^verbatim>\<open>Debit\<close> and \<^verbatim>\<open>Credit\<close> mutate the wallet behind the
  pointer and return an entry; here they return both. On an error the Go code leaves the wallet
  as it was, because \<^verbatim>\<open>apply\<close> is its last action.
\<close>

record Wallet =
  w_id :: uuid
  w_playerID :: uuid
  w_currency :: Currency
  w_balance :: Money
  w_version :: int64
  w_createdAt :: time
  w_updatedAt :: time

definition Open :: "uuid \<Rightarrow> uuid \<Rightarrow> Money \<Rightarrow> time \<Rightarrow> error + Wallet" where
  "Open wid playerID initial now =
    (if wid = uuid_Nil \<or> playerID = uuid_Nil then Inl ErrInvalidWallet
     else if \<not> m_valid initial then Inl ErrInvalidWallet
     else if IsNegative initial then Inl ErrInvalidWallet
     else if IsZero now then Inl ErrInvalidWallet
     else Inr \<lparr>w_id = wid, w_playerID = playerID, w_currency = m_currency initial,
               w_balance = initial, w_version = 1, w_createdAt = now, w_updatedAt = now\<rparr>)"

definition Wallet_Rehydrate ::
  "uuid \<Rightarrow> uuid \<Rightarrow> Money \<Rightarrow> int64 \<Rightarrow> time \<Rightarrow> time \<Rightarrow> error + Wallet" where
  "Wallet_Rehydrate wid playerID balance version createdAt updatedAt =
    (if wid = uuid_Nil \<or> playerID = uuid_Nil then Inl ErrInvalidWallet
     else if \<not> m_valid balance \<or> IsNegative balance then Inl ErrInvalidWallet
     else if sint version < 1 then Inl ErrInvalidWallet
     else if IsZero createdAt \<or> IsZero updatedAt then Inl ErrInvalidWallet
     else Inr \<lparr>w_id = wid, w_playerID = playerID, w_currency = m_currency balance,
               w_balance = balance, w_version = version, w_createdAt = createdAt,
               w_updatedAt = updatedAt\<rparr>)"

subsection \<open>Ledger entries\<close>

datatype Direction = Debit | Credit

fun Direction_string :: "Direction \<Rightarrow> string" where
  "Direction_string Debit = ''DEBIT''"
| "Direction_string Credit = ''CREDIT''"

definition ParseDirection :: "string \<Rightarrow> error + Direction" where
  "ParseDirection s =
    (if s = ''DEBIT'' then Inr Debit else if s = ''CREDIT'' then Inr Credit
     else Inl ErrInvalidLedger)"

record LedgerEntry =
  l_id :: uuid
  l_walletID :: uuid
  l_transactionID :: uuid
  l_direction :: Direction
  l_amount :: Money
  l_balanceBefore :: Money
  l_balanceAfter :: Money
  l_createdAt :: time

definition NewLedgerEntry ::
  "uuid \<Rightarrow> uuid \<Rightarrow> uuid \<Rightarrow> string \<Rightarrow> Money \<Rightarrow> Money \<Rightarrow> Money \<Rightarrow> time \<Rightarrow> error + LedgerEntry" where
  "NewLedgerEntry eid walletID transactionID dir amount bef after now =
    (if eid = uuid_Nil \<or> walletID = uuid_Nil \<or> transactionID = uuid_Nil then Inl ErrInvalidLedger
     else rbind (ParseDirection dir) (\<lambda>d.
       if \<not> m_valid amount \<or> \<not> m_valid bef \<or> \<not> m_valid after then Inl ErrInvalidLedger
       else if \<not> SameCurrency amount bef \<or> \<not> SameCurrency amount after then Inl ErrInvalidLedger
       else if \<not> IsPositive amount then Inl ErrInvalidLedger
       else if IsNegative bef \<or> IsNegative after then Inl ErrInvalidLedger
       else
         (case (if d = Credit then Money_Add bef amount else Money_Sub bef amount) of
            Inl _ \<Rightarrow> Inl ErrInvalidLedger
          | Inr expected \<Rightarrow>
              if \<not> Equal expected after then Inl ErrInvalidLedger
              else if IsZero now then Inl ErrInvalidLedger
              else Inr \<lparr>l_id = eid, l_walletID = walletID, l_transactionID = transactionID,
                        l_direction = d, l_amount = amount, l_balanceBefore = bef,
                        l_balanceAfter = after, l_createdAt = now\<rparr>)))"

subsection \<open>Movements\<close>

definition validateMovement :: "Wallet \<Rightarrow> Money \<Rightarrow> error + unit" where
  "validateMovement w amount =
    (if \<not> m_valid amount then Inl ErrUninitialized
     else if m_currency amount \<noteq> w_currency w then Inl WalletErrCurrencyMismatch
     else if \<not> IsPositive amount then Inl ErrNonPositiveAmount
     else Inr ())"

definition Wallet_apply :: "Wallet \<Rightarrow> Money \<Rightarrow> time \<Rightarrow> Wallet" where
  "Wallet_apply w after now =
    w\<lparr>w_balance := after, w_version := w_version w + 1, w_updatedAt := now\<rparr>"

definition Wallet_Debit ::
  "Wallet \<Rightarrow> uuid \<Rightarrow> uuid \<Rightarrow> Money \<Rightarrow> time \<Rightarrow> error + (LedgerEntry \<times> Wallet)" where
  "Wallet_Debit w entryID transactionID amount now =
    rbind (validateMovement w amount) (\<lambda>_.
    rbind (Money_Sub (w_balance w) amount) (\<lambda>after.
      if IsNegative after then Inl ErrInsufficientFunds
      else
        rbind (NewLedgerEntry entryID (w_id w) transactionID (Direction_string Debit) amount
                 (w_balance w) after now) (\<lambda>entry.
          Inr (entry, Wallet_apply w after now))))"

definition Wallet_Credit ::
  "Wallet \<Rightarrow> uuid \<Rightarrow> uuid \<Rightarrow> Money \<Rightarrow> time \<Rightarrow> error + (LedgerEntry \<times> Wallet)" where
  "Wallet_Credit w entryID transactionID amount now =
    rbind (validateMovement w amount) (\<lambda>_.
    rbind (Money_Add (w_balance w) amount) (\<lambda>after.
      rbind (NewLedgerEntry entryID (w_id w) transactionID (Direction_string Credit) amount
               (w_balance w) after now) (\<lambda>entry.
        Inr (entry, Wallet_apply w after now))))"

definition CanDebit :: "Wallet \<Rightarrow> Money \<Rightarrow> error + bool" where
  "CanDebit w amount =
    rbind (validateMovement w amount) (\<lambda>_.
    rbind (Compare (w_balance w) amount) (\<lambda>c. Inr (c \<ge> 0)))"

subsection \<open>Invariants\<close>

text \<open>What every constructor of a wallet establishes, and what a ledger entry says.\<close>

definition wallet_inv :: "Wallet \<Rightarrow> bool" where
  "wallet_inv w \<longleftrightarrow>
    w_id w \<noteq> uuid_Nil \<and> w_playerID w \<noteq> uuid_Nil \<and> m_valid (w_balance w) \<and>
    w_currency w = m_currency (w_balance w) \<and> 0 \<le> units (w_balance w) \<and>
    1 \<le> sint (w_version w) \<and> \<not> IsZero (w_createdAt w) \<and> \<not> IsZero (w_updatedAt w)"

definition signed_amount :: "LedgerEntry \<Rightarrow> int" where
  "signed_amount e = (if l_direction e = Credit then units (l_amount e) else - units (l_amount e))"

definition entry_inv :: "LedgerEntry \<Rightarrow> bool" where
  "entry_inv e \<longleftrightarrow>
    l_id e \<noteq> uuid_Nil \<and> l_walletID e \<noteq> uuid_Nil \<and> l_transactionID e \<noteq> uuid_Nil \<and>
    m_valid (l_amount e) \<and> m_valid (l_balanceBefore e) \<and> m_valid (l_balanceAfter e) \<and>
    m_currency (l_balanceBefore e) = m_currency (l_amount e) \<and>
    m_currency (l_balanceAfter e) = m_currency (l_amount e) \<and>
    0 < units (l_amount e) \<and> 0 \<le> units (l_balanceBefore e) \<and> 0 \<le> units (l_balanceAfter e) \<and>
    units (l_balanceAfter e) = units (l_balanceBefore e) + signed_amount e \<and>
    \<not> IsZero (l_createdAt e)"

lemma ParseDirection_string [simp]: "ParseDirection (Direction_string d) = Inr d"
  by (cases d) (simp_all add: ParseDirection_def)

lemma ParseDirection_Inr: "ParseDirection s = Inr d \<longleftrightarrow> s = Direction_string d"
  by (cases d) (auto simp: ParseDirection_def)

lemma NewLedgerEntry_Inr:
  "NewLedgerEntry i wid tid dir amount before after now = Inr e \<longleftrightarrow>
    dir = Direction_string (l_direction e) \<and> entry_inv e \<and>
    l_id e = i \<and> l_walletID e = wid \<and> l_transactionID e = tid \<and> l_amount e = amount \<and>
    l_balanceBefore e = before \<and> l_balanceAfter e = after \<and> l_createdAt e = now"
  (is "?L = Inr e \<longleftrightarrow> ?R")
proof
  assume "?L = Inr e"
  then show ?R
    by (auto simp: NewLedgerEntry_def ParseDirection_Inr entry_inv_def SameCurrency_def
        money_sign_defs Equal_iff signed_amount_def Money_Add_Inr Money_Sub_Inr
        split: if_splits sum.splits)
next
  assume r: ?R
  define x where "x = (if l_direction e = Credit then Money_Add before amount else Money_Sub before amount)"
  have "x = Inr after"
    using r by (cases e) (auto simp: x_def entry_inv_def signed_amount_def Money_Add_Inr Money_Sub_Inr)
  with r show "?L = Inr e"
    unfolding NewLedgerEntry_def x_def
    by (cases e) (auto simp: entry_inv_def SameCurrency_def money_sign_defs Equal_iff)
qed

text \<open>Rehydration accepts exactly the entries a movement can have written.\<close>

lemma NewLedgerEntry_self:
  "entry_inv e \<Longrightarrow>
    NewLedgerEntry (l_id e) (l_walletID e) (l_transactionID e) (Direction_string (l_direction e))
      (l_amount e) (l_balanceBefore e) (l_balanceAfter e) (l_createdAt e) = Inr e"
  by (simp add: NewLedgerEntry_Inr)

subsection \<open>The contract of a movement\<close>

lemma validateMovement_Inr [simp]:
  "validateMovement w a = Inr u \<longleftrightarrow> m_valid a \<and> m_currency a = w_currency w \<and> 0 < units a"
  by (auto simp: validateMovement_def IsPositive_def)

text \<open>What \<^const>\<open>Wallet_Debit\<close> and \<^const>\<open>Wallet_Credit\<close> promise their callers: a movement
  that goes through yields the ledger entry of exactly that movement, between the old and the
  new balance, and applies the new balance.\<close>

locale movement =
  fixes move :: "Wallet \<Rightarrow> uuid \<Rightarrow> uuid \<Rightarrow> Money \<Rightarrow> time \<Rightarrow> error + (LedgerEntry \<times> Wallet)"
    and dir :: Direction
  assumes move_entry: "move w eid tid a now = Inr (e, w') \<Longrightarrow>
      NewLedgerEntry eid (w_id w) tid (Direction_string dir) a (w_balance w) (l_balanceAfter e) now
        = Inr e"
    and move_wallet: "move w eid tid a now = Inr (e, w') \<Longrightarrow>
      w' = Wallet_apply w (l_balanceAfter e) now"
    and move_valid: "move w eid tid a now = Inr (e, w') \<Longrightarrow> validateMovement w a = Inr ()"
begin

lemma entry:
  assumes "move w eid tid a now = Inr (e, w')"
  shows "entry_inv e" "l_id e = eid" "l_walletID e = w_id w" "l_transactionID e = tid"
    "l_direction e = dir" "l_amount e = a" "l_balanceBefore e = w_balance w"
    "l_createdAt e = now" "now \<noteq> 0"
proof -
  note n = move_entry [OF assms, unfolded NewLedgerEntry_Inr]
  show "l_direction e = dir" using n by (cases dir; cases "l_direction e") auto
  show "entry_inv e" "l_id e = eid" "l_walletID e = w_id w" "l_transactionID e = tid"
    "l_amount e = a" "l_balanceBefore e = w_balance w" "l_createdAt e = now"
    using n by auto
  then show "now \<noteq> 0" by (auto simp: entry_inv_def)
qed

lemma wallet:
  assumes "move w eid tid a now = Inr (e, w')"
  shows "w_balance w' = l_balanceAfter e" "w_version w' = w_version w + 1"
    "w_id w' = w_id w" "w_playerID w' = w_playerID w" "w_currency w' = w_currency w"
    "w_createdAt w' = w_createdAt w" "w_updatedAt w' = now"
  using move_wallet [OF assms] by (simp_all add: Wallet_apply_def)

lemma balance:
  assumes "move w eid tid a now = Inr (e, w')"
  shows "units (w_balance w') = units (w_balance w) + signed_amount e"
    and "units (w_balance w') = units (w_balance w) + (if dir = Credit then units a else - units a)"
    and "0 \<le> units (w_balance w')"
  using entry [OF assms] wallet [OF assms] by (auto simp: entry_inv_def signed_amount_def)

lemma version:
  assumes "move w eid tid a now = Inr (e, w')" and "sint (w_version w) < max_int64"
  shows "sint (w_version w') = sint (w_version w) + 1"
  using wallet(2) [OF assms(1)] sint_add64 [of "w_version w" 1] assms(2) sint64_ge [of "w_version w"]
  by (simp add: fits64_def)

lemma keeps_inv:
  assumes "move w eid tid a now = Inr (e, w')" and "wallet_inv w"
    and "sint (w_version w) < max_int64"
  shows "wallet_inv w'"
  using entry [OF assms(1)] wallet [OF assms(1)] version [OF assms(1,3)] balance(3) [OF assms(1)]
    move_valid [OF assms(1)] assms(2)
  by (auto simp: wallet_inv_def entry_inv_def)

text \<open>Without a bound on the version everything but the version is kept.\<close>

lemma keeps_core:
  assumes "move w eid tid a now = Inr (e, w')" and "wallet_inv w"
  shows "wallet_inv (w'\<lparr>w_version := 1\<rparr>)"
  using entry [OF assms(1)] wallet [OF assms(1)] balance(3) [OF assms(1)]
    move_valid [OF assms(1)] assms(2)
  by (auto simp: wallet_inv_def entry_inv_def)

end

interpretation debit: movement Wallet_Debit Debit
  by unfold_locales
    (auto simp: Wallet_Debit_def NewLedgerEntry_Inr split: if_splits)

interpretation credit: movement Wallet_Credit Credit
  by unfold_locales
    (auto simp: Wallet_Credit_def NewLedgerEntry_Inr)

subsection \<open>Behaviour on every branch\<close>

definition entry_of ::
  "Wallet \<Rightarrow> Direction \<Rightarrow> uuid \<Rightarrow> uuid \<Rightarrow> Money \<Rightarrow> Money \<Rightarrow> time \<Rightarrow> LedgerEntry" where
  "entry_of w d eid tid a after now =
    \<lparr>l_id = eid, l_walletID = w_id w, l_transactionID = tid, l_direction = d, l_amount = a,
     l_balanceBefore = w_balance w, l_balanceAfter = after, l_createdAt = now\<rparr>"

lemma NewLedgerEntry_move:
  assumes "wallet_inv w" and "m_valid a" and "m_currency a = w_currency w" and "0 < units a"
    and "m_valid after" and "m_currency after = w_currency w" and "0 \<le> units after"
    and "units after = units (w_balance w) + (if d = Credit then units a else - units a)"
  shows "NewLedgerEntry eid (w_id w) tid (Direction_string d) a (w_balance w) after now =
    (if eid = uuid_Nil \<or> tid = uuid_Nil \<or> IsZero now then Inl ErrInvalidLedger
     else Inr (entry_of w d eid tid a after now))"
proof -
  define x where "x = (if d = Credit then Money_Add (w_balance w) a else Money_Sub (w_balance w) a)"
  have x: "x = Inr after"
    using assms by (cases d) (simp_all add: x_def wallet_inv_def Money_Add_Inr Money_Sub_Inr)
  show ?thesis
    using assms unfolding NewLedgerEntry_def ParseDirection_string rbind.simps x_def [symmetric] x
    by (auto simp: wallet_inv_def SameCurrency_def money_sign_defs Equal_def entry_of_def)
qed

lemma Wallet_Debit_eq:
  assumes "wallet_inv w"
  shows "Wallet_Debit w eid tid a now =
    (if \<not> m_valid a then Inl ErrUninitialized
     else if m_currency a \<noteq> w_currency w then Inl WalletErrCurrencyMismatch
     else if units a \<le> 0 then Inl ErrNonPositiveAmount
     else if units (w_balance w) < units a then Inl ErrInsufficientFunds
     else if eid = uuid_Nil \<or> tid = uuid_Nil \<or> IsZero now then Inl ErrInvalidLedger
     else
       (let after = (w_balance w)\<lparr>m_minor := m_minor (w_balance w) - m_minor a\<rparr>
        in Inr (entry_of w Debit eid tid a after now, Wallet_apply w after now)))"
proof (cases "m_valid a \<and> m_currency a = w_currency w \<and> 0 < units a")
  case False
  then show ?thesis by (auto simp: Wallet_Debit_def validateMovement_def IsPositive_def)
next
  case True
  let ?after = "(w_balance w)\<lparr>m_minor := m_minor (w_balance w) - m_minor a\<rparr>"
  have fits: "fits64 (units (w_balance w) - units a)"
    using True assms sint64_le [of "m_minor a"] sint64_le [of "m_minor (w_balance w)"]
    unfolding fits64_def wallet_inv_def by linarith
  have u: "units ?after = units (w_balance w) - units a"
    using sint_sub64 [OF fits] by simp
  have sub: "Money_Sub (w_balance w) a = Inr ?after"
    using True assms u by (simp add: Money_Sub_Inr wallet_inv_def)
  show ?thesis
  proof (cases "units (w_balance w) < units a")
    case lt: True
    then show ?thesis using True sub u by (simp add: Wallet_Debit_def rbind_Inl_iff IsNegative_def validateMovement_def IsPositive_def)
  next
    case False
    then have "NewLedgerEntry eid (w_id w) tid (Direction_string Debit) a (w_balance w) ?after now =
      (if eid = uuid_Nil \<or> tid = uuid_Nil \<or> IsZero now then Inl ErrInvalidLedger
       else Inr (entry_of w Debit eid tid a ?after now))"
      using True assms u by (intro NewLedgerEntry_move) (auto simp: wallet_inv_def)
    with True False sub u show ?thesis
      by (simp add: Wallet_Debit_def validateMovement_def IsPositive_def IsNegative_def Let_def)
  qed
qed

lemma Wallet_Credit_eq:
  assumes "wallet_inv w"
  shows "Wallet_Credit w eid tid a now =
    (if \<not> m_valid a then Inl ErrUninitialized
     else if m_currency a \<noteq> w_currency w then Inl WalletErrCurrencyMismatch
     else if units a \<le> 0 then Inl ErrNonPositiveAmount
     else if max_int64 < units (w_balance w) + units a then Inl ErrOverflow
     else if eid = uuid_Nil \<or> tid = uuid_Nil \<or> IsZero now then Inl ErrInvalidLedger
     else
       (let after = (w_balance w)\<lparr>m_minor := m_minor (w_balance w) + m_minor a\<rparr>
        in Inr (entry_of w Credit eid tid a after now, Wallet_apply w after now)))"
proof (cases "m_valid a \<and> m_currency a = w_currency w \<and> 0 < units a")
  case False
  then show ?thesis by (auto simp: Wallet_Credit_def validateMovement_def IsPositive_def)
next
  case True
  let ?after = "(w_balance w)\<lparr>m_minor := m_minor (w_balance w) + m_minor a\<rparr>"
  have fits: "fits64 (units (w_balance w) + units a) \<longleftrightarrow> units (w_balance w) + units a \<le> max_int64"
    using True assms unfolding fits64_def wallet_inv_def by auto
  show ?thesis
  proof (cases "max_int64 < units (w_balance w) + units a")
    case gt: True
    then have "Money_Add (w_balance w) a = Inl ErrOverflow"
      using True assms fits by (simp add: Money_Add_eq wallet_inv_def check_pair_def)
    with gt True show ?thesis by (simp add: Wallet_Credit_def validateMovement_def IsPositive_def)
  next
    case False
    have u: "units ?after = units (w_balance w) + units a"
      using False fits by (simp add: sint_add64)
    have add: "Money_Add (w_balance w) a = Inr ?after"
      using True assms u by (simp add: Money_Add_Inr wallet_inv_def)
    have "NewLedgerEntry eid (w_id w) tid (Direction_string Credit) a (w_balance w) ?after now =
      (if eid = uuid_Nil \<or> tid = uuid_Nil \<or> IsZero now then Inl ErrInvalidLedger
       else Inr (entry_of w Credit eid tid a ?after now))"
      using True assms u by (intro NewLedgerEntry_move) (auto simp: wallet_inv_def)
    with True False add show ?thesis
      by (simp add: Wallet_Credit_def validateMovement_def IsPositive_def Let_def)
  qed
qed

text \<open>The new wallet, field by field.\<close>

lemma moved_wallet:
  "Wallet_apply w after now =
    \<lparr>w_id = w_id w, w_playerID = w_playerID w, w_currency = w_currency w, w_balance = after,
     w_version = w_version w + 1, w_createdAt = w_createdAt w, w_updatedAt = now\<rparr>"
  by (cases w) (simp add: Wallet_apply_def)

lemma moved_balance:
  "wallet_inv w \<Longrightarrow> (w_balance w)\<lparr>m_minor := x\<rparr> = \<lparr>m_minor = x, m_currency = w_currency w, m_valid = True\<rparr>"
  by (cases "w_balance w") (simp add: wallet_inv_def)

text \<open>C33. A debit is exact on every branch. On a wallet in its invariant, \<^verbatim>\<open>Debit\<close> rejects an
  uninitialized amount, an amount of another currency, an amount that is not positive, then a
  debit above the balance, then a missing identity or timestamp, in that order, and otherwise
  takes exactly the amount from the balance, increments the version and returns the entry of
  that movement. The subtraction cannot overflow, so no other error exists.\<close>

theorem Wallet_Debit_exact:
  assumes "wallet_inv w"
  shows "Wallet_Debit w eid tid a now =
    (if \<not> m_valid a then Inl ErrUninitialized
     else if m_currency a \<noteq> w_currency w then Inl WalletErrCurrencyMismatch
     else if units a \<le> 0 then Inl ErrNonPositiveAmount
     else if units (w_balance w) < units a then Inl ErrInsufficientFunds
     else if eid = uuid_Nil \<or> tid = uuid_Nil \<or> IsZero now then Inl ErrInvalidLedger
     else
       (let after = \<lparr>m_minor = m_minor (w_balance w) - m_minor a, m_currency = w_currency w,
                      m_valid = True\<rparr>
        in Inr
          (\<lparr>l_id = eid, l_walletID = w_id w, l_transactionID = tid, l_direction = Debit, l_amount = a,
             l_balanceBefore = w_balance w, l_balanceAfter = after, l_createdAt = now\<rparr>,
           \<lparr>w_id = w_id w, w_playerID = w_playerID w, w_currency = w_currency w, w_balance = after,
             w_version = w_version w + 1, w_createdAt = w_createdAt w, w_updatedAt = now\<rparr>)))"
  unfolding Wallet_Debit_eq [OF assms] Let_def moved_balance [OF assms] entry_of_def moved_wallet ..

lemma sample_wallet_inv:
  "wallet_inv \<lparr>w_id = 1, w_playerID = 2, w_currency = ''BRL'',
     w_balance = \<lparr>m_minor = 10000, m_currency = ''BRL'', m_valid = True\<rparr>, w_version = 1,
     w_createdAt = 1, w_updatedAt = 1\<rparr>"
  by (simp add: wallet_inv_def)

theorem Wallet_Debit_exact_witness:
  "let w = \<lparr>w_id = 1, w_playerID = 2, w_currency = ''BRL'',
     w_balance = \<lparr>m_minor = 10000, m_currency = ''BRL'', m_valid = True\<rparr>, w_version = 1,
     w_createdAt = 1, w_updatedAt = 1\<rparr>
   in Wallet_Debit w 7 8 \<lparr>m_minor = 10001, m_currency = ''BRL'', m_valid = True\<rparr> 9 = Inl ErrInsufficientFunds \<and>
      Wallet_Debit w 7 8 \<lparr>m_minor = 3000, m_currency = ''BRL'', m_valid = True\<rparr> 9 = Inr
        (\<lparr>l_id = 7, l_walletID = 1, l_transactionID = 8, l_direction = Debit, l_amount = \<lparr>m_minor = 3000, m_currency = ''BRL'', m_valid = True\<rparr>,
           l_balanceBefore = w_balance w, l_balanceAfter = \<lparr>m_minor = 7000, m_currency = ''BRL'', m_valid = True\<rparr>, l_createdAt = 9\<rparr>,
         w\<lparr>w_balance := \<lparr>m_minor = 7000, m_currency = ''BRL'', m_valid = True\<rparr>, w_version := 2, w_updatedAt := 9\<rparr>)"
  unfolding Let_def by (simp add: Wallet_Debit_exact [OF sample_wallet_inv] Let_def)

text \<open>C40. A credit is exact on every branch: the validation errors of a debit, then
  \<^const>\<open>ErrOverflow\<close> exactly when the new balance would exceed int64, then a missing identity or
  timestamp, and otherwise the balance grows by exactly the amount, with the version incremented
  and the entry of that movement returned.\<close>

theorem Wallet_Credit_exact:
  assumes "wallet_inv w"
  shows "Wallet_Credit w eid tid a now =
    (if \<not> m_valid a then Inl ErrUninitialized
     else if m_currency a \<noteq> w_currency w then Inl WalletErrCurrencyMismatch
     else if units a \<le> 0 then Inl ErrNonPositiveAmount
     else if max_int64 < units (w_balance w) + units a then Inl ErrOverflow
     else if eid = uuid_Nil \<or> tid = uuid_Nil \<or> IsZero now then Inl ErrInvalidLedger
     else
       (let after = \<lparr>m_minor = m_minor (w_balance w) + m_minor a, m_currency = w_currency w,
                      m_valid = True\<rparr>
        in Inr
          (\<lparr>l_id = eid, l_walletID = w_id w, l_transactionID = tid, l_direction = Credit, l_amount = a,
             l_balanceBefore = w_balance w, l_balanceAfter = after, l_createdAt = now\<rparr>,
           \<lparr>w_id = w_id w, w_playerID = w_playerID w, w_currency = w_currency w, w_balance = after,
             w_version = w_version w + 1, w_createdAt = w_createdAt w, w_updatedAt = now\<rparr>)))"
  unfolding Wallet_Credit_eq [OF assms] Let_def moved_balance [OF assms] entry_of_def moved_wallet ..

theorem Wallet_Credit_exact_witness:
  "let w = \<lparr>w_id = 1, w_playerID = 2, w_currency = ''BRL'',
     w_balance = \<lparr>m_minor = 10000, m_currency = ''BRL'', m_valid = True\<rparr>, w_version = 1,
     w_createdAt = 1, w_updatedAt = 1\<rparr>
   in Wallet_Credit w 7 8 \<lparr>m_minor = 9223372036854775807, m_currency = ''BRL'', m_valid = True\<rparr> 9 = Inl ErrOverflow \<and>
      Wallet_Credit w 7 8 \<lparr>m_minor = 3000, m_currency = ''BRL'', m_valid = True\<rparr> 9 = Inr
        (\<lparr>l_id = 7, l_walletID = 1, l_transactionID = 8, l_direction = Credit, l_amount = \<lparr>m_minor = 3000, m_currency = ''BRL'', m_valid = True\<rparr>,
           l_balanceBefore = w_balance w, l_balanceAfter = \<lparr>m_minor = 13000, m_currency = ''BRL'', m_valid = True\<rparr>, l_createdAt = 9\<rparr>,
         w\<lparr>w_balance := \<lparr>m_minor = 13000, m_currency = ''BRL'', m_valid = True\<rparr>, w_version := 2, w_updatedAt := 9\<rparr>)"
  unfolding Let_def by (simp add: Wallet_Credit_exact [OF sample_wallet_inv] Let_def)

lemma CanDebit_exact:
  "wallet_inv w \<Longrightarrow> CanDebit w a = Inr b \<longleftrightarrow>
    m_valid a \<and> m_currency a = w_currency w \<and> 0 < units a \<and>
    b = (units a \<le> units (w_balance w))"
  by (auto simp: CanDebit_def Compare_Inr wallet_inv_def sgn_if)

text \<open>Constructors establish the invariant; rehydrating a wallet in its invariant gives it back.\<close>

lemma Open_Inr:
  "Open i p m now = Inr w \<longleftrightarrow>
    i \<noteq> uuid_Nil \<and> p \<noteq> uuid_Nil \<and> m_valid m \<and> 0 \<le> units m \<and> now \<noteq> 0 \<and>
    w = \<lparr>w_id = i, w_playerID = p, w_currency = m_currency m, w_balance = m, w_version = 1,
         w_createdAt = now, w_updatedAt = now\<rparr>"
  by (auto simp: Open_def IsNegative_def)

lemma Open_inv: "Open i p m now = Inr w \<Longrightarrow> wallet_inv w"
  by (auto simp: Open_Inr wallet_inv_def)

lemma Wallet_Rehydrate_Inr:
  "Wallet_Rehydrate i p m v c u = Inr w \<longleftrightarrow>
    wallet_inv w \<and> w = \<lparr>w_id = i, w_playerID = p, w_currency = m_currency m, w_balance = m,
      w_version = v, w_createdAt = c, w_updatedAt = u\<rparr>"
  by (auto simp: Wallet_Rehydrate_def wallet_inv_def IsNegative_def)

lemma Wallet_Rehydrate_self:
  "wallet_inv w \<Longrightarrow> Wallet_Rehydrate (w_id w) (w_playerID w) (w_balance w) (w_version w)
     (w_createdAt w) (w_updatedAt w) = Inr w"
  by (cases w) (auto simp: Wallet_Rehydrate_Inr wallet_inv_def)

lemma CanDebit_debits:
  assumes "wallet_inv w" and "eid \<noteq> uuid_Nil" and "tid \<noteq> uuid_Nil" and "now \<noteq> 0"
  shows "CanDebit w a = Inr True \<longleftrightarrow> (\<exists>e w'. Wallet_Debit w eid tid a now = Inr (e, w'))"
  using assms by (auto simp: CanDebit_exact Wallet_Debit_eq Let_def)

end
