(* ===== verification/Wagering.thy ===== *)
theory Wagering
  imports Money
begin

text \<open>
  Package \<^verbatim>\<open>internal/domain/wagering\<close>: provider operations and the state machine of a
  transaction. The Go types Kind, Status, Origin and FailureCode are strings: here they are
  datatypes, with the conversions to and from strings written out where the code converts, and
  a value that has not been parsed yet (the kind of a request, the fields of a
  \<^verbatim>\<open>Snapshot\<close>) is still a string. The transitions mutate the transaction behind the
  pointer; here each returns the new transaction or the error, and on an error the Go code has
  changed nothing.
\<close>

datatype Kind = KindOpening | KindBet | KindWin | KindLoss | KindRefund | KindRollback

fun Kind_string :: "Kind \<Rightarrow> string" where
  "Kind_string KindOpening = ''OPENING''"
| "Kind_string KindBet = ''BET''"
| "Kind_string KindWin = ''WIN''"
| "Kind_string KindLoss = ''LOSS''"
| "Kind_string KindRefund = ''REFUND''"
| "Kind_string KindRollback = ''ROLLBACK''"

definition ParseKind :: "string \<Rightarrow> error + Kind" where
  "ParseKind s =
    (if s = ''OPENING'' then Inr KindOpening
     else if s = ''BET'' then Inr KindBet
     else if s = ''WIN'' then Inr KindWin
     else if s = ''LOSS'' then Inr KindLoss
     else if s = ''REFUND'' then Inr KindRefund
     else if s = ''ROLLBACK'' then Inr KindRollback
     else Inl ErrValidation)"

definition IsReversal :: "Kind \<Rightarrow> bool" where
  "IsReversal k \<longleftrightarrow> k = KindRefund \<or> k = KindRollback"

datatype Status =
  StatusPending | StatusPendingReference | StatusProcessed | StatusRejected | StatusFailed

fun Status_string :: "Status \<Rightarrow> string" where
  "Status_string StatusPending = ''PENDING''"
| "Status_string StatusPendingReference = ''PENDING_REFERENCE''"
| "Status_string StatusProcessed = ''PROCESSED''"
| "Status_string StatusRejected = ''REJECTED''"
| "Status_string StatusFailed = ''FAILED''"

definition ParseStatus :: "string \<Rightarrow> error + Status" where
  "ParseStatus s =
    (if s = ''PENDING'' then Inr StatusPending
     else if s = ''PENDING_REFERENCE'' then Inr StatusPendingReference
     else if s = ''PROCESSED'' then Inr StatusProcessed
     else if s = ''REJECTED'' then Inr StatusRejected
     else if s = ''FAILED'' then Inr StatusFailed
     else Inl ErrValidation)"

definition IsTerminal :: "Status \<Rightarrow> bool" where
  "IsTerminal s \<longleftrightarrow> s = StatusProcessed \<or> s = StatusRejected \<or> s = StatusFailed"

datatype Origin = OriginInternal | OriginExternal

fun Origin_string :: "Origin \<Rightarrow> string" where
  "Origin_string OriginInternal = ''INTERNAL''"
| "Origin_string OriginExternal = ''EXTERNAL''"

text \<open>\<^verbatim>\<open>FailureNone\<close> is the empty code, \<^verbatim>\<open>FailureOther\<close> a text that is none of the
  declared codes.\<close>

datatype FailureCode =
    FailureNone
  | FailureInsufficientFunds
  | FailureReversalInsufficientFunds
  | FailureReferenceNotFound
  | FailureReferenceNotProcessed
  | FailureReferenceKindMismatch
  | FailureReferenceMismatch
  | FailureReferenceAmountMismatch
  | FailureReferenceAlreadyReversed
  | FailureWalletPlayerMismatch
  | FailureCurrencyMismatch
  | FailureInfrastructure
  | FailureOther string

fun FailureCode_string :: "FailureCode \<Rightarrow> string" where
  "FailureCode_string FailureNone = ''''"
| "FailureCode_string FailureInsufficientFunds = ''INSUFFICIENT_FUNDS''"
| "FailureCode_string FailureReversalInsufficientFunds = ''REVERSAL_INSUFFICIENT_FUNDS''"
| "FailureCode_string FailureReferenceNotFound = ''REFERENCE_NOT_FOUND''"
| "FailureCode_string FailureReferenceNotProcessed = ''REFERENCE_NOT_PROCESSED''"
| "FailureCode_string FailureReferenceKindMismatch = ''REFERENCE_KIND_MISMATCH''"
| "FailureCode_string FailureReferenceMismatch = ''REFERENCE_MISMATCH''"
| "FailureCode_string FailureReferenceAmountMismatch = ''REFERENCE_AMOUNT_MISMATCH''"
| "FailureCode_string FailureReferenceAlreadyReversed = ''REFERENCE_ALREADY_REVERSED''"
| "FailureCode_string FailureWalletPlayerMismatch = ''WALLET_PLAYER_MISMATCH''"
| "FailureCode_string FailureCurrencyMismatch = ''CURRENCY_MISMATCH''"
| "FailureCode_string FailureInfrastructure = ''INFRASTRUCTURE_FAILURE''"
| "FailureCode_string (FailureOther s) = s"

definition FailureCode_of :: "string \<Rightarrow> FailureCode" where
  "FailureCode_of s =
    (case find (\<lambda>c. FailureCode_string c = s)
       [FailureNone, FailureInsufficientFunds, FailureReversalInsufficientFunds,
        FailureReferenceNotFound, FailureReferenceNotProcessed, FailureReferenceKindMismatch,
        FailureReferenceMismatch, FailureReferenceAmountMismatch,
        FailureReferenceAlreadyReversed, FailureWalletPlayerMismatch, FailureCurrencyMismatch,
        FailureInfrastructure] of
       Some c \<Rightarrow> c
     | None \<Rightarrow> FailureOther s)"

subsection \<open>Requests\<close>

record ExternalRequest =
  er_ProviderID :: string
  er_ExternalTransactionID :: string
  er_PlayerID :: uuid
  er_WalletID :: uuid
  er_RoundID :: string
  er_GameID :: string
  er_Kind :: Kind
  er_Money :: Money
  er_Reference :: string

definition maxIdentifierLen :: nat where "maxIdentifierLen = 256"

definition validIdentifier :: "string \<Rightarrow> error + unit" where
  "validIdentifier v =
    (if TrimSpace v = [] then Inl ErrValidation
     else if length v > maxIdentifierLen \<or> TrimSpace v \<noteq> v then Inl ErrValidation
     else Inr ())"

fun validIdentifiers :: "string list \<Rightarrow> error + unit" where
  "validIdentifiers [] = Inr ()"
| "validIdentifiers (v # vs) = rbind (validIdentifier v) (\<lambda>_. validIdentifiers vs)"

definition NewExternalRequest ::
  "string \<Rightarrow> string \<Rightarrow> uuid \<Rightarrow> uuid \<Rightarrow> string \<Rightarrow> string \<Rightarrow> string \<Rightarrow> Money \<Rightarrow> string
    \<Rightarrow> error + ExternalRequest" where
  "NewExternalRequest providerID externalTransactionID playerID walletID roundID gameID
      kind m reference =
    rbind (validIdentifiers [providerID, externalTransactionID, roundID, gameID]) (\<lambda>_.
    if playerID = uuid_Nil then Inl ErrValidation
    else if walletID = uuid_Nil then Inl ErrValidation
    else rbind (ParseKind kind) (\<lambda>k.
    if k = KindOpening then Inl ErrValidation
    else if \<not> m_valid m then Inl ErrValidation
    else if IsNegative m then Inl ErrValidation
    else if k = KindLoss \<and> \<not> IsZeroM m then Inl ErrValidation
    else if k \<noteq> KindLoss \<and> \<not> IsPositive m then Inl ErrValidation
    else if IsReversal k \<and> reference = '''' then Inl ErrValidation
    else if (k = KindBet \<or> k = KindLoss) \<and> reference \<noteq> '''' then Inl ErrValidation
    else rbind
      (if reference \<noteq> '''' then
         rbind (validIdentifier reference) (\<lambda>_.
           if reference = externalTransactionID then Inl ErrValidation else Inr ())
       else Inr ()) (\<lambda>_.
    Inr \<lparr>er_ProviderID = providerID, er_ExternalTransactionID = externalTransactionID,
         er_PlayerID = playerID, er_WalletID = walletID, er_RoundID = roundID,
         er_GameID = gameID, er_Kind = k, er_Money = m, er_Reference = reference\<rparr>)))"

subsection \<open>Transactions\<close>

record Transaction =
  t_id :: uuid
  t_origin :: Origin
  t_providerID :: string
  t_externalTransactionID :: string
  t_idempotencyKey :: string
  t_payloadHash :: string
  t_walletID :: uuid
  t_playerID :: uuid
  t_roundID :: string
  t_gameID :: string
  t_kind :: Kind
  t_money :: Money
  t_referenceExternalID :: string
  t_referenceID :: "uuid option"
  t_status :: Status
  t_failureCode :: FailureCode
  t_resultBalance :: "Money option"
  t_referenceAttempts :: int64
  t_nextReferenceRetryAt :: "time option"
  t_correlationID :: string
  t_createdAt :: time
  t_updatedAt :: time
  t_processedAt :: "time option"

definition NewExternal ::
  "uuid \<Rightarrow> ExternalRequest \<Rightarrow> string \<Rightarrow> string \<Rightarrow> string \<Rightarrow> time \<Rightarrow> error + Transaction" where
  "NewExternal tid req idempotencyKey payloadHash correlationID now =
    (if tid = uuid_Nil then Inl ErrValidation
     else rbind (validIdentifier idempotencyKey) (\<lambda>_.
     if payloadHash = '''' then Inl ErrValidation
     else if IsZero now then Inl ErrValidation
     else rbind (NewExternalRequest (er_ProviderID req) (er_ExternalTransactionID req)
       (er_PlayerID req) (er_WalletID req) (er_RoundID req) (er_GameID req)
       (Kind_string (er_Kind req)) (er_Money req) (er_Reference req)) (\<lambda>_.
     Inr \<lparr>t_id = tid, t_origin = OriginExternal, t_providerID = er_ProviderID req,
       t_externalTransactionID = er_ExternalTransactionID req,
       t_idempotencyKey = idempotencyKey, t_payloadHash = payloadHash,
       t_walletID = er_WalletID req, t_playerID = er_PlayerID req, t_roundID = er_RoundID req,
       t_gameID = er_GameID req, t_kind = er_Kind req, t_money = er_Money req,
       t_referenceExternalID = er_Reference req, t_referenceID = None,
       t_status = StatusPending, t_failureCode = FailureNone, t_resultBalance = None,
       t_referenceAttempts = 0, t_nextReferenceRetryAt = None, t_correlationID = correlationID,
       t_createdAt = now, t_updatedAt = now, t_processedAt = None\<rparr>)))"

definition NewOpening ::
  "uuid \<Rightarrow> uuid \<Rightarrow> uuid \<Rightarrow> Money \<Rightarrow> string \<Rightarrow> time \<Rightarrow> error + Transaction" where
  "NewOpening tid walletID playerID initial correlationID now =
    (if tid = uuid_Nil \<or> walletID = uuid_Nil \<or> playerID = uuid_Nil then Inl ErrValidation
     else if \<not> m_valid initial \<or> \<not> IsPositive initial then Inl ErrValidation
     else if IsZero now then Inl ErrValidation
     else Inr \<lparr>t_id = tid, t_origin = OriginInternal, t_providerID = '''',
       t_externalTransactionID = '''', t_idempotencyKey = '''', t_payloadHash = '''',
       t_walletID = walletID, t_playerID = playerID, t_roundID = '''', t_gameID = '''',
       t_kind = KindOpening, t_money = initial, t_referenceExternalID = '''',
       t_referenceID = None, t_status = StatusPending, t_failureCode = FailureNone,
       t_resultBalance = None, t_referenceAttempts = 0, t_nextReferenceRetryAt = None,
       t_correlationID = correlationID, t_createdAt = now, t_updatedAt = now,
       t_processedAt = None\<rparr>)"

subsection \<open>Persistence\<close>

text \<open>The persisted shape: Kind, Status, Origin and FailureCode are the strings of the row.\<close>

record Snapshot =
  s_ID :: uuid
  s_Origin :: string
  s_ProviderID :: string
  s_ExternalTransactionID :: string
  s_IdempotencyKey :: string
  s_PayloadHash :: string
  s_WalletID :: uuid
  s_PlayerID :: uuid
  s_RoundID :: string
  s_GameID :: string
  s_Kind :: string
  s_Money :: Money
  s_ReferenceExternalID :: string
  s_ReferenceID :: "uuid option"
  s_Status :: string
  s_FailureCode :: string
  s_ResultBalance :: "Money option"
  s_ReferenceAttempts :: int64
  s_NextReferenceRetryAt :: "time option"
  s_CorrelationID :: string
  s_CreatedAt :: time
  s_UpdatedAt :: time
  s_ProcessedAt :: "time option"

definition Rehydrate :: "Snapshot \<Rightarrow> error + Transaction" where
  "Rehydrate s =
    (if s_ID s = uuid_Nil \<or> s_WalletID s = uuid_Nil \<or> s_PlayerID s = uuid_Nil
     then Inl ErrValidation
     else rbind (ParseKind (s_Kind s)) (\<lambda>kind.
     rbind (ParseStatus (s_Status s)) (\<lambda>status.
     if \<not> m_valid (s_Money s) then Inl ErrValidation
     else if s_Origin s \<noteq> ''INTERNAL'' \<and> s_Origin s \<noteq> ''EXTERNAL'' then Inl ErrValidation
     else if (s_Origin s = ''INTERNAL'') \<noteq> (kind = KindOpening) then Inl ErrValidation
     else if IsZero (s_CreatedAt s) \<or> IsZero (s_UpdatedAt s) then Inl ErrValidation
     else Inr \<lparr>t_id = s_ID s,
       t_origin = (if s_Origin s = ''INTERNAL'' then OriginInternal else OriginExternal),
       t_providerID = s_ProviderID s, t_externalTransactionID = s_ExternalTransactionID s,
       t_idempotencyKey = s_IdempotencyKey s, t_payloadHash = s_PayloadHash s,
       t_walletID = s_WalletID s, t_playerID = s_PlayerID s, t_roundID = s_RoundID s,
       t_gameID = s_GameID s, t_kind = kind, t_money = s_Money s,
       t_referenceExternalID = s_ReferenceExternalID s, t_referenceID = s_ReferenceID s,
       t_status = status, t_failureCode = FailureCode_of (s_FailureCode s),
       t_resultBalance = s_ResultBalance s, t_referenceAttempts = s_ReferenceAttempts s,
       t_nextReferenceRetryAt = s_NextReferenceRetryAt s, t_correlationID = s_CorrelationID s,
       t_createdAt = s_CreatedAt s, t_updatedAt = s_UpdatedAt s,
       t_processedAt = s_ProcessedAt s\<rparr>)))"

definition Snapshot_of :: "Transaction \<Rightarrow> Snapshot" where
  "Snapshot_of t =
    \<lparr>s_ID = t_id t, s_Origin = Origin_string (t_origin t), s_ProviderID = t_providerID t,
     s_ExternalTransactionID = t_externalTransactionID t,
     s_IdempotencyKey = t_idempotencyKey t, s_PayloadHash = t_payloadHash t,
     s_WalletID = t_walletID t, s_PlayerID = t_playerID t, s_RoundID = t_roundID t,
     s_GameID = t_gameID t, s_Kind = Kind_string (t_kind t), s_Money = t_money t,
     s_ReferenceExternalID = t_referenceExternalID t, s_ReferenceID = t_referenceID t,
     s_Status = Status_string (t_status t), s_FailureCode = FailureCode_string (t_failureCode t),
     s_ResultBalance = t_resultBalance t, s_ReferenceAttempts = t_referenceAttempts t,
     s_NextReferenceRetryAt = t_nextReferenceRetryAt t, s_CorrelationID = t_correlationID t,
     s_CreatedAt = t_createdAt t, s_UpdatedAt = t_updatedAt t, s_ProcessedAt = t_processedAt t\<rparr>"

subsection \<open>Transitions\<close>

definition guard :: "Transaction \<Rightarrow> error + unit" where
  "guard t = (if IsTerminal (t_status t) then Inl ErrTerminal else Inr ())"

definition MarkProcessed :: "Transaction \<Rightarrow> Money \<Rightarrow> time \<Rightarrow> error + Transaction" where
  "MarkProcessed t balance now =
    rbind (guard t) (\<lambda>_.
    if \<not> m_valid balance \<or> m_currency balance \<noteq> m_currency (t_money t)
    then Inl ErrInvalidTransition
    else Inr (t\<lparr>t_status := StatusProcessed, t_failureCode := FailureNone,
                t_resultBalance := Some balance, t_nextReferenceRetryAt := None,
                t_processedAt := Some now, t_updatedAt := now\<rparr>))"

definition MarkRejected ::
  "Transaction \<Rightarrow> FailureCode \<Rightarrow> Money \<Rightarrow> time \<Rightarrow> error + Transaction" where
  "MarkRejected t code balance now =
    rbind (guard t) (\<lambda>_.
    if code = FailureNone \<or> code = FailureInfrastructure then Inl ErrInvalidTransition
    else Inr (t\<lparr>t_status := StatusRejected, t_failureCode := code,
                t_resultBalance := (if m_valid balance then Some balance else t_resultBalance t),
                t_nextReferenceRetryAt := None, t_processedAt := Some now,
                t_updatedAt := now\<rparr>))"

definition MarkFailed :: "Transaction \<Rightarrow> FailureCode \<Rightarrow> time \<Rightarrow> error + Transaction" where
  "MarkFailed t code now =
    rbind (guard t) (\<lambda>_.
      Inr (t\<lparr>t_status := StatusFailed,
             t_failureCode := (if code = FailureNone then FailureInfrastructure else code),
             t_nextReferenceRetryAt := None, t_processedAt := Some now, t_updatedAt := now\<rparr>))"

definition AwaitReference :: "Transaction \<Rightarrow> time \<Rightarrow> time \<Rightarrow> error + Transaction" where
  "AwaitReference t nextRetry now =
    rbind (guard t) (\<lambda>_.
    if \<not> IsReversal (t_kind t) \<and> t_kind t \<noteq> KindWin then Inl ErrInvalidTransition
    else if t_referenceExternalID t = '''' then Inl ErrInvalidTransition
    else Inr (t\<lparr>t_status := StatusPendingReference,
                t_referenceAttempts := t_referenceAttempts t + 1,
                t_nextReferenceRetryAt := Some nextRetry, t_updatedAt := now\<rparr>))"

definition ResolveReference :: "Transaction \<Rightarrow> uuid \<Rightarrow> error + Transaction" where
  "ResolveReference t ref =
    (if IsTerminal (t_status t) then Inl ErrTerminal
     else if ref = uuid_Nil then Inl ErrInvalidTransition
     else Inr (t\<lparr>t_referenceID := Some ref\<rparr>))"

subsection \<open>Strings and their values\<close>

lemma ParseKind_string [simp]: "ParseKind (Kind_string k) = Inr k"
  by (cases k) (simp_all add: ParseKind_def)

lemma ParseKind_Inr: "ParseKind s = Inr k \<longleftrightarrow> s = Kind_string k"
  by (cases k) (auto simp: ParseKind_def)

lemma ParseStatus_string [simp]: "ParseStatus (Status_string s) = Inr s"
  by (cases s) (simp_all add: ParseStatus_def)

lemma ParseStatus_Inr: "ParseStatus s = Inr k \<longleftrightarrow> s = Status_string k"
  by (cases k) (auto simp: ParseStatus_def)

lemma Origin_string_inject [simp]: "Origin_string a = Origin_string b \<longleftrightarrow> a = b"
  by (cases a; cases b) simp_all

lemma Kind_string_inject [simp]: "Kind_string a = Kind_string b \<longleftrightarrow> a = b"
  by (metis ParseKind_string sum.inject(2))

lemma Status_string_inject [simp]: "Status_string a = Status_string b \<longleftrightarrow> a = b"
  by (metis ParseStatus_string sum.inject(2))

text \<open>A failure code that a row can hold and give back: every declared code is one.\<close>

definition canonical_code :: "FailureCode \<Rightarrow> bool" where
  "canonical_code c \<longleftrightarrow> FailureCode_of (FailureCode_string c) = c"

lemma canonical_codes [simp]:
  "canonical_code FailureNone" "canonical_code FailureInsufficientFunds"
  "canonical_code FailureReversalInsufficientFunds" "canonical_code FailureReferenceNotFound"
  "canonical_code FailureReferenceNotProcessed" "canonical_code FailureReferenceKindMismatch"
  "canonical_code FailureReferenceMismatch" "canonical_code FailureReferenceAmountMismatch"
  "canonical_code FailureReferenceAlreadyReversed" "canonical_code FailureWalletPlayerMismatch"
  "canonical_code FailureCurrencyMismatch" "canonical_code FailureInfrastructure"
  by (simp_all add: canonical_code_def FailureCode_of_def)

subsection \<open>Which requests are accepted\<close>

lemma validIdentifier_Inr [simp]:
  "validIdentifier v = Inr u \<longleftrightarrow> v \<noteq> [] \<and> TrimSpace v = v \<and> length v \<le> maxIdentifierLen"
  by (auto simp: validIdentifier_def)

lemma validIdentifiers_Inr [simp]:
  "validIdentifiers vs = Inr u \<longleftrightarrow>
    list_all (\<lambda>v. v \<noteq> [] \<and> TrimSpace v = v \<and> length v \<le> maxIdentifierLen) vs"
  by (induction vs) auto

text \<open>The zero-value policy and the reference policy of each kind.\<close>

definition amount_policy :: "Kind \<Rightarrow> Money \<Rightarrow> bool" where
  "amount_policy k m \<longleftrightarrow> m_valid m \<and> (if k = KindLoss then units m = 0 else 0 < units m)"

definition reference_policy :: "Kind \<Rightarrow> string \<Rightarrow> string \<Rightarrow> bool" where
  "reference_policy k ext ref \<longleftrightarrow>
    (IsReversal k \<longrightarrow> ref \<noteq> '''') \<and>
    (k = KindBet \<or> k = KindLoss \<longrightarrow> ref = '''') \<and>
    (ref \<noteq> '''' \<longrightarrow> TrimSpace ref = ref \<and> length ref \<le> maxIdentifierLen \<and> ref \<noteq> ext)"

lemma external_kind_string [simp]:
  "Kind_string k \<in> {''BET'', ''WIN'', ''LOSS'', ''REFUND'', ''ROLLBACK''} \<longleftrightarrow> k \<noteq> KindOpening"
  by (cases k) simp_all

lemma NewExternalRequest_eq:
  "NewExternalRequest p x pl w r g k m ref =
    (if list_all (\<lambda>v. v \<noteq> [] \<and> TrimSpace v = v \<and> length v \<le> maxIdentifierLen) [p, x, r, g]
        \<and> pl \<noteq> uuid_Nil \<and> w \<noteq> uuid_Nil
        \<and> k \<in> {''BET'', ''WIN'', ''LOSS'', ''REFUND'', ''ROLLBACK''}
        \<and> (\<forall>kind. ParseKind k = Inr kind \<longrightarrow> amount_policy kind m \<and> reference_policy kind x ref)
     then map_sum id (\<lambda>kind. \<lparr>er_ProviderID = p, er_ExternalTransactionID = x, er_PlayerID = pl,
            er_WalletID = w, er_RoundID = r, er_GameID = g, er_Kind = kind, er_Money = m,
            er_Reference = ref\<rparr>) (ParseKind k)
     else Inl ErrValidation)"
proof (cases "validIdentifiers [p, x, r, g]")
  case (Inl e)
  have err: "validIdentifiers vs = Inl e \<Longrightarrow> e = ErrValidation" for vs
    by (induction vs) (auto simp: rbind_Inl_iff validIdentifier_def split: if_splits)
  have e: "e = ErrValidation" using Inl by (rule err)
  have n: "\<not> list_all (\<lambda>v. v \<noteq> [] \<and> TrimSpace v = v \<and> length v \<le> maxIdentifierLen) [p, x, r, g]"
    using Inl validIdentifiers_Inr [of "[p, x, r, g]" "()"] by auto
  show ?thesis
    unfolding NewExternalRequest_def Inl rbind.simps e using n by (simp only: if_False simp_thms)
next
  case (Inr u)
  then have ids: "list_all (\<lambda>v. v \<noteq> [] \<and> TrimSpace v = v \<and> length v \<le> maxIdentifierLen) [p, x, r, g]"
    by (simp only: validIdentifiers_Inr)
  have vi: "validIdentifier ref =
    (if ref \<noteq> [] \<and> TrimSpace ref = ref \<and> length ref \<le> maxIdentifierLen then Inr () else Inl ErrValidation)"
    by (auto simp: validIdentifier_def)
  show ?thesis
  proof (cases "ParseKind k")
    case (Inl e)
    then have "e = ErrValidation" and "k \<notin> {''BET'', ''WIN'', ''LOSS'', ''REFUND'', ''ROLLBACK''}"
      by (auto simp: ParseKind_def split: if_splits)
    then show ?thesis unfolding NewExternalRequest_def Inr Inl by simp
  next
    case (Inr kind)
    then have k: "k = Kind_string kind" by (simp add: ParseKind_Inr)
    have q: "(\<forall>k'. Inr kind = Inr k' \<longrightarrow> amount_policy k' m \<and> reference_policy k' x ref)
        \<longleftrightarrow> amount_policy kind m \<and> reference_policy kind x ref" by auto
    show ?thesis
      unfolding NewExternalRequest_def \<open>validIdentifiers [p, x, r, g] = Inr u\<close> rbind.simps vi
        ids [THEN eqTrueI] k
      unfolding ParseKind_string rbind.simps external_kind_string map_sum.simps id_apply q
      by (cases "ref = ''''"; cases "kind = KindLoss")
        (auto simp: IsReversal_def money_sign_defs amount_policy_def reference_policy_def)
  qed
qed

text \<open>C34. A request is accepted exactly when its four identifiers are present, trimmed and at most
  256 bytes, player and wallet are set, the kind is one of the five of a provider, the amount is zero
  for a LOSS and positive for every other kind, and the reference is present for a REFUND or a
  ROLLBACK, absent for a BET or a LOSS, and if present trimmed, at most 256 bytes and not the
  operation itself; every rejection is \<^const>\<open>ErrValidation\<close>, and an accepted request carries its
  arguments.\<close>

theorem NewExternalRequest_exact:
  "NewExternalRequest p x pl w r g k m ref =
    (case map_of [(''BET'', KindBet), (''WIN'', KindWin), (''LOSS'', KindLoss), (''REFUND'', KindRefund),
                  (''ROLLBACK'', KindRollback)] k of
       None \<Rightarrow> Inl ErrValidation
     | Some kind \<Rightarrow>
         if list_all (\<lambda>v. v \<noteq> '''' \<and> TrimSpace v = v \<and> length v \<le> 256) [p, x, r, g]
           \<and> pl \<noteq> uuid_Nil \<and> w \<noteq> uuid_Nil
           \<and> m_valid m \<and> (if k = ''LOSS'' then units m = 0 else 0 < units m)
           \<and> (if ref = '''' then k \<notin> {''REFUND'', ''ROLLBACK''}
              else k \<notin> {''BET'', ''LOSS''} \<and> TrimSpace ref = ref \<and> length ref \<le> 256 \<and> ref \<noteq> x)
         then Inr \<lparr>er_ProviderID = p, er_ExternalTransactionID = x, er_PlayerID = pl, er_WalletID = w,
                er_RoundID = r, er_GameID = g, er_Kind = kind, er_Money = m, er_Reference = ref\<rparr>
         else Inl ErrValidation)"
proof (cases "k \<in> {''BET'', ''WIN'', ''LOSS'', ''REFUND'', ''ROLLBACK''}")
  case False
  then show ?thesis unfolding NewExternalRequest_eq by simp
next
  case True
  have q: "reference_policy kind x ref \<longleftrightarrow>
      (if ref = '''' then kind \<notin> {KindRefund, KindRollback}
       else kind \<notin> {KindBet, KindLoss} \<and> TrimSpace ref = ref \<and> length ref \<le> 256 \<and> ref \<noteq> x)" for kind
    by (auto simp: reference_policy_def IsReversal_def maxIdentifierLen_def)
  show ?thesis
    using True unfolding NewExternalRequest_eq maxIdentifierLen_def
    by (elim insertE emptyE) (simp_all add: ParseKind_def amount_policy_def q)
qed

theorem NewExternalRequest_exact_witness:
  "NewExternalRequest ''provider-a'' ''tx-1'' 11 12 ''round-1'' ''game-1'' ''LOSS''
     \<lparr>m_minor = 100, m_currency = ''BRL'', m_valid = True\<rparr> '''' = Inl ErrValidation \<and>
   NewExternalRequest ''provider-a'' ''tx-1'' 11 12 ''round-1'' ''game-1'' ''ROLLBACK''
     \<lparr>m_minor = 100, m_currency = ''BRL'', m_valid = True\<rparr> '''' = Inl ErrValidation"
  unfolding NewExternalRequest_exact by simp

lemma NewExternalRequest_Inr:
  "NewExternalRequest p x pl w r g k m ref = Inr req \<longleftrightarrow>
    list_all (\<lambda>v. v \<noteq> [] \<and> TrimSpace v = v \<and> length v \<le> maxIdentifierLen) [p, x, r, g]
    \<and> pl \<noteq> uuid_Nil \<and> w \<noteq> uuid_Nil \<and> k = Kind_string (er_Kind req) \<and> er_Kind req \<noteq> KindOpening
    \<and> amount_policy (er_Kind req) m \<and> reference_policy (er_Kind req) x ref
    \<and> req = \<lparr>er_ProviderID = p, er_ExternalTransactionID = x, er_PlayerID = pl, er_WalletID = w,
         er_RoundID = r, er_GameID = g, er_Kind = er_Kind req, er_Money = m, er_Reference = ref\<rparr>"
  (is "_ \<longleftrightarrow> ?A \<and> ?B")
proof (cases "ParseKind k")
  case (Inl e)
  then have "\<nexists>c. k = Kind_string c" by (metis ParseKind_string sum.distinct(1))
  then show ?thesis unfolding NewExternalRequest_eq Inl by auto
next
  case (Inr kind)
  then have k: "k = Kind_string kind" by (simp add: ParseKind_Inr)
  show ?thesis
    unfolding NewExternalRequest_eq Inr k external_kind_string by (cases req) auto
qed

text \<open>Checking a request that was accepted accepts it again: the second validation inside
  \<^const>\<open>NewExternal\<close> never rejects what \<^const>\<open>NewExternalRequest\<close> built.\<close>

definition request_ok :: "ExternalRequest \<Rightarrow> bool" where
  "request_ok q \<longleftrightarrow>
    NewExternalRequest (er_ProviderID q) (er_ExternalTransactionID q) (er_PlayerID q)
      (er_WalletID q) (er_RoundID q) (er_GameID q) (Kind_string (er_Kind q)) (er_Money q)
      (er_Reference q) = Inr q"

lemma NewExternalRequest_ok:
  "NewExternalRequest p x pl w r g k m ref = Inr q \<Longrightarrow> request_ok q"
  unfolding request_ok_def NewExternalRequest_Inr by (cases q) auto

lemma request_ok_iff:
  "request_ok q \<longleftrightarrow>
    list_all (\<lambda>v. v \<noteq> [] \<and> TrimSpace v = v \<and> length v \<le> maxIdentifierLen)
      [er_ProviderID q, er_ExternalTransactionID q, er_RoundID q, er_GameID q]
    \<and> er_PlayerID q \<noteq> uuid_Nil \<and> er_WalletID q \<noteq> uuid_Nil \<and> er_Kind q \<noteq> KindOpening
    \<and> amount_policy (er_Kind q) (er_Money q)
    \<and> reference_policy (er_Kind q) (er_ExternalTransactionID q) (er_Reference q)"
  unfolding request_ok_def NewExternalRequest_Inr by (cases q) auto

lemma NewExternal_Inr:
  "NewExternal tid q key hash corr now = Inr t \<longleftrightarrow>
    tid \<noteq> uuid_Nil \<and> validIdentifier key = Inr () \<and> hash \<noteq> '''' \<and> now \<noteq> 0 \<and> request_ok q \<and>
    t = \<lparr>t_id = tid, t_origin = OriginExternal, t_providerID = er_ProviderID q,
       t_externalTransactionID = er_ExternalTransactionID q, t_idempotencyKey = key,
       t_payloadHash = hash, t_walletID = er_WalletID q, t_playerID = er_PlayerID q,
       t_roundID = er_RoundID q, t_gameID = er_GameID q, t_kind = er_Kind q,
       t_money = er_Money q, t_referenceExternalID = er_Reference q, t_referenceID = None,
       t_status = StatusPending, t_failureCode = FailureNone, t_resultBalance = None,
       t_referenceAttempts = 0, t_nextReferenceRetryAt = None, t_correlationID = corr,
       t_createdAt = now, t_updatedAt = now, t_processedAt = None\<rparr>"
proof -
  have "NewExternalRequest (er_ProviderID q) (er_ExternalTransactionID q) (er_PlayerID q)
      (er_WalletID q) (er_RoundID q) (er_GameID q) (Kind_string (er_Kind q)) (er_Money q)
      (er_Reference q) = Inr r \<longleftrightarrow> request_ok q \<and> r = q" for r
    unfolding request_ok_def NewExternalRequest_Inr by (cases q; cases r) auto
  then show ?thesis by (auto simp: NewExternal_def)
qed

lemma NewOpening_Inr:
  "NewOpening tid w p m corr now = Inr t \<longleftrightarrow>
    tid \<noteq> uuid_Nil \<and> w \<noteq> uuid_Nil \<and> p \<noteq> uuid_Nil \<and> m_valid m \<and> 0 < units m \<and> now \<noteq> 0 \<and>
    t = \<lparr>t_id = tid, t_origin = OriginInternal, t_providerID = '''',
       t_externalTransactionID = '''', t_idempotencyKey = '''', t_payloadHash = '''',
       t_walletID = w, t_playerID = p, t_roundID = '''', t_gameID = '''',
       t_kind = KindOpening, t_money = m, t_referenceExternalID = '''',
       t_referenceID = None, t_status = StatusPending, t_failureCode = FailureNone,
       t_resultBalance = None, t_referenceAttempts = 0, t_nextReferenceRetryAt = None,
       t_correlationID = corr, t_createdAt = now, t_updatedAt = now, t_processedAt = None\<rparr>"
  by (auto simp: NewOpening_def IsPositive_def)


subsection \<open>The order of statuses\<close>

text \<open>A status precedes the statuses it can still lead to; the terminal ones are maximal.\<close>

instantiation Status :: order
begin

definition less_eq_Status :: "Status \<Rightarrow> Status \<Rightarrow> bool" where
  "less_eq_Status s t \<longleftrightarrow>
    s = t \<or> s = StatusPending \<or> (s = StatusPendingReference \<and> IsTerminal t)"

definition less_Status :: "Status \<Rightarrow> Status \<Rightarrow> bool" where
  "less_Status s t \<longleftrightarrow> s \<le> t \<and> \<not> t \<le> (s :: Status)"

instance
  by standard (auto simp: less_eq_Status_def less_Status_def IsTerminal_def)

end

lemma terminal_maximal: "IsTerminal s \<Longrightarrow> s \<le> t \<longleftrightarrow> t = s"
  by (auto simp: less_eq_Status_def IsTerminal_def)

lemma IsTerminal_simps [simp]:
  "IsTerminal StatusProcessed" "IsTerminal StatusRejected" "IsTerminal StatusFailed"
  "\<not> IsTerminal StatusPending" "\<not> IsTerminal StatusPendingReference"
  by (simp_all add: IsTerminal_def)

subsection \<open>What a transition does\<close>

lemma guard_Inr [simp]: "guard t = Inr u \<longleftrightarrow> \<not> IsTerminal (t_status t)"
  by (simp add: guard_def)

lemma MarkProcessed_Inr:
  "MarkProcessed t b now = Inr t' \<longleftrightarrow>
    \<not> IsTerminal (t_status t) \<and> m_valid b \<and> m_currency b = m_currency (t_money t) \<and>
    t' = t\<lparr>t_status := StatusProcessed, t_failureCode := FailureNone,
           t_resultBalance := Some b, t_nextReferenceRetryAt := None,
           t_processedAt := Some now, t_updatedAt := now\<rparr>"
  by (auto simp: MarkProcessed_def)

lemma MarkRejected_Inr:
  "MarkRejected t c b now = Inr t' \<longleftrightarrow>
    \<not> IsTerminal (t_status t) \<and> c \<noteq> FailureNone \<and> c \<noteq> FailureInfrastructure \<and>
    t' = t\<lparr>t_status := StatusRejected, t_failureCode := c,
           t_resultBalance := (if m_valid b then Some b else t_resultBalance t),
           t_nextReferenceRetryAt := None, t_processedAt := Some now, t_updatedAt := now\<rparr>"
  by (auto simp: MarkRejected_def)

lemma MarkFailed_Inr:
  "MarkFailed t c now = Inr t' \<longleftrightarrow>
    \<not> IsTerminal (t_status t) \<and>
    t' = t\<lparr>t_status := StatusFailed,
           t_failureCode := (if c = FailureNone then FailureInfrastructure else c),
           t_nextReferenceRetryAt := None, t_processedAt := Some now, t_updatedAt := now\<rparr>"
  by (auto simp: MarkFailed_def)

lemma AwaitReference_Inr:
  "AwaitReference t nr now = Inr t' \<longleftrightarrow>
    \<not> IsTerminal (t_status t) \<and> (IsReversal (t_kind t) \<or> t_kind t = KindWin) \<and>
    t_referenceExternalID t \<noteq> '''' \<and>
    t' = t\<lparr>t_status := StatusPendingReference,
           t_referenceAttempts := t_referenceAttempts t + 1,
           t_nextReferenceRetryAt := Some nr, t_updatedAt := now\<rparr>"
  by (auto simp: AwaitReference_def)

lemma ResolveReference_Inr:
  "ResolveReference t r = Inr t' \<longleftrightarrow>
    \<not> IsTerminal (t_status t) \<and> r \<noteq> uuid_Nil \<and> t' = t\<lparr>t_referenceID := Some r\<rparr>"
  by (auto simp: ResolveReference_def)

lemmas transition_Inr =
  MarkProcessed_Inr MarkRejected_Inr MarkFailed_Inr AwaitReference_Inr ResolveReference_Inr

text \<open>The fields that no transition writes.\<close>

definition same_identity :: "Transaction \<Rightarrow> Transaction \<Rightarrow> bool" where
  "same_identity t t' \<longleftrightarrow>
    t_id t' = t_id t \<and> t_origin t' = t_origin t \<and> t_providerID t' = t_providerID t \<and>
    t_externalTransactionID t' = t_externalTransactionID t \<and>
    t_idempotencyKey t' = t_idempotencyKey t \<and> t_payloadHash t' = t_payloadHash t \<and>
    t_walletID t' = t_walletID t \<and> t_playerID t' = t_playerID t \<and> t_roundID t' = t_roundID t \<and>
    t_gameID t' = t_gameID t \<and> t_kind t' = t_kind t \<and> t_money t' = t_money t \<and>
    t_referenceExternalID t' = t_referenceExternalID t \<and>
    t_correlationID t' = t_correlationID t \<and> t_createdAt t' = t_createdAt t"

lemma same_identity_refl [simp]: "same_identity t t"
  by (simp add: same_identity_def)

lemma same_identity_trans: "same_identity a b \<Longrightarrow> same_identity b c \<Longrightarrow> same_identity a c"
  by (simp add: same_identity_def)

inductive tx_step :: "Transaction \<Rightarrow> Transaction \<Rightarrow> bool" where
  processed: "MarkProcessed t b now = Inr t' \<Longrightarrow> tx_step t t'"
| rejected: "MarkRejected t c b now = Inr t' \<Longrightarrow> tx_step t t'"
| failed: "MarkFailed t c now = Inr t' \<Longrightarrow> tx_step t t'"
| awaits: "AwaitReference t nr now = Inr t' \<Longrightarrow> tx_step t t'"
| resolved: "ResolveReference t r = Inr t' \<Longrightarrow> tx_step t t'"

inductive_simps tx_step_iff: "tx_step t t'"

text \<open>C35. The state machine only moves forward: a transition exists only from a status that is not
  terminal, leads to a status it precedes (PENDING before PENDING_REFERENCE before the terminal
  ones) and leaves the identity of the operation (ids, keys, kind, money, reference, creation)
  untouched; in a terminal status every transition method returns \<^const>\<open>ErrTerminal\<close>.\<close>

theorem transitions_forward:
  "(tx_step t t' \<longrightarrow> \<not> IsTerminal (t_status t) \<and> t_status t \<le> t_status t' \<and> same_identity t t') \<and>
   (IsTerminal (t_status t) \<longrightarrow>
      MarkProcessed t b now = Inl ErrTerminal \<and> MarkRejected t c b now = Inl ErrTerminal \<and>
      MarkFailed t c now = Inl ErrTerminal \<and> AwaitReference t nr now = Inl ErrTerminal \<and>
      ResolveReference t r = Inl ErrTerminal)"
proof (intro conjI impI)
  assume s: "tx_step t t'"
  then show "\<not> IsTerminal (t_status t)" by cases (auto simp: transition_Inr)
  from s show "t_status t \<le> t_status t'"
    by cases (auto simp: transition_Inr less_eq_Status_def, (cases "t_status t"; simp)+)
  from s show "same_identity t t'" by cases (auto simp: transition_Inr same_identity_def)
qed (simp_all add: MarkProcessed_def MarkRejected_def MarkFailed_def AwaitReference_def
    ResolveReference_def guard_def)

text \<open>A sample request and its pending transaction, for the witnesses.\<close>

definition sample_request :: ExternalRequest where
  "sample_request = \<lparr>er_ProviderID = ''provider-a'', er_ExternalTransactionID = ''tx-1'',
     er_PlayerID = 11, er_WalletID = 12, er_RoundID = ''round-1'', er_GameID = ''game-1'',
     er_Kind = KindBet, er_Money = \<lparr>m_minor = 2500, m_currency = ''BRL'', m_valid = True\<rparr>,
     er_Reference = ''''\<rparr>"

definition sample_tx :: Transaction where
  "sample_tx = \<lparr>t_id = 21, t_origin = OriginExternal, t_providerID = ''provider-a'',
     t_externalTransactionID = ''tx-1'', t_idempotencyKey = ''key-1'', t_payloadHash = ''h'',
     t_walletID = 12, t_playerID = 11, t_roundID = ''round-1'', t_gameID = ''game-1'',
     t_kind = KindBet, t_money = \<lparr>m_minor = 2500, m_currency = ''BRL'', m_valid = True\<rparr>,
     t_referenceExternalID = '''', t_referenceID = None, t_status = StatusPending,
     t_failureCode = FailureNone, t_resultBalance = None, t_referenceAttempts = 0,
     t_nextReferenceRetryAt = None, t_correlationID = ''corr'', t_createdAt = 5,
     t_updatedAt = 5, t_processedAt = None\<rparr>"

lemma sample_request_ok: "request_ok sample_request"
  unfolding request_ok_iff sample_request_def
  by (simp add: amount_policy_def reference_policy_def IsReversal_def maxIdentifierLen_def) code_simp

lemma sample_tx_new: "NewExternal 21 sample_request ''key-1'' ''h'' ''corr'' 5 = Inr sample_tx"
proof -
  have "validIdentifier ''key-1'' = Inr ()" by code_simp
  then show ?thesis
    using sample_request_ok by (simp add: NewExternal_Inr sample_request_def sample_tx_def)
qed

theorem transitions_forward_witness:
  "\<exists>t'. tx_step sample_tx t' \<and> t_status sample_tx \<le> t_status t'
     \<and> MarkFailed t' FailureNone 8 = Inl ErrTerminal"
proof -
  define t' where "t' = sample_tx\<lparr>t_status := StatusFailed, t_failureCode := FailureInfrastructure,
    t_processedAt := Some 6, t_updatedAt := 6\<rparr>"
  have "MarkFailed sample_tx FailureNone 6 = Inr t'"
    by (simp add: MarkFailed_Inr sample_tx_def t'_def)
  then have s: "tx_step sample_tx t'" by (rule failed)
  have m: "IsTerminal (t_status t')" by (simp add: t'_def)
  from s m transitions_forward [of sample_tx t'] transitions_forward [of t']
  show ?thesis by blast
qed

subsection \<open>The invariant of a transaction\<close>

definition status_shape :: "Transaction \<Rightarrow> bool" where
  "status_shape t \<longleftrightarrow>
    (case t_status t of
       StatusProcessed \<Rightarrow> t_failureCode t = FailureNone \<and> t_processedAt t \<noteq> None \<and>
         t_nextReferenceRetryAt t = None \<and>
         (\<exists>b. t_resultBalance t = Some b \<and> m_valid b \<and> m_currency b = m_currency (t_money t))
     | StatusRejected \<Rightarrow> t_failureCode t \<notin> {FailureNone, FailureInfrastructure} \<and>
         t_processedAt t \<noteq> None \<and> t_nextReferenceRetryAt t = None
     | StatusFailed \<Rightarrow> t_failureCode t \<noteq> FailureNone \<and> t_processedAt t \<noteq> None \<and>
         t_nextReferenceRetryAt t = None
     | StatusPendingReference \<Rightarrow> t_failureCode t = FailureNone \<and> t_processedAt t = None \<and>
         t_nextReferenceRetryAt t \<noteq> None \<and> t_referenceExternalID t \<noteq> '''' \<and>
         (IsReversal (t_kind t) \<or> t_kind t = KindWin)
     | StatusPending \<Rightarrow> t_failureCode t = FailureNone \<and> t_processedAt t = None)"

definition metadata_shape :: "Transaction \<Rightarrow> bool" where
  "metadata_shape t \<longleftrightarrow>
    (t_origin t = OriginInternal \<longleftrightarrow> t_kind t = KindOpening) \<and>
    (if t_origin t = OriginExternal
     then t_providerID t \<noteq> '''' \<and> t_externalTransactionID t \<noteq> '''' \<and>
       t_idempotencyKey t \<noteq> '''' \<and> t_payloadHash t \<noteq> '''' \<and> t_roundID t \<noteq> '''' \<and> t_gameID t \<noteq> ''''
     else t_providerID t = '''' \<and> t_externalTransactionID t = '''' \<and>
       t_idempotencyKey t = '''' \<and> t_payloadHash t = '''' \<and> t_roundID t = '''' \<and> t_gameID t = '''' \<and>
       t_referenceExternalID t = '''')"

definition tx_inv :: "Transaction \<Rightarrow> bool" where
  "tx_inv t \<longleftrightarrow>
    t_id t \<noteq> uuid_Nil \<and> t_walletID t \<noteq> uuid_Nil \<and> t_playerID t \<noteq> uuid_Nil \<and>
    amount_policy (t_kind t) (t_money t) \<and> (IsReversal (t_kind t) \<longrightarrow> t_referenceExternalID t \<noteq> '''') \<and>
    t_createdAt t \<noteq> 0 \<and> t_updatedAt t \<noteq> 0 \<and> metadata_shape t \<and> status_shape t"

text \<open>All of it but the time of the last change: the transition methods take the clock as it comes,
  and a zero clock leaves a transaction that \<^const>\<open>Rehydrate\<close> would refuse.\<close>

definition tx_shape :: "Transaction \<Rightarrow> bool" where
  "tx_shape t \<longleftrightarrow>
    t_id t \<noteq> uuid_Nil \<and> t_walletID t \<noteq> uuid_Nil \<and> t_playerID t \<noteq> uuid_Nil \<and>
    amount_policy (t_kind t) (t_money t) \<and> (IsReversal (t_kind t) \<longrightarrow> t_referenceExternalID t \<noteq> '''') \<and>
    t_createdAt t \<noteq> 0 \<and> metadata_shape t \<and> status_shape t"

lemma tx_inv_shape: "tx_inv t \<longleftrightarrow> tx_shape t \<and> t_updatedAt t \<noteq> 0"
  by (auto simp: tx_inv_def tx_shape_def)

lemma NewExternal_inv: "NewExternal tid q key hash corr now = Inr t \<Longrightarrow> tx_inv t"
  by (auto simp: NewExternal_Inr request_ok_iff tx_inv_def metadata_shape_def status_shape_def
      reference_policy_def)

lemma NewOpening_inv: "NewOpening tid w p m corr now = Inr t \<Longrightarrow> tx_inv t"
  by (auto simp: NewOpening_Inr tx_inv_def metadata_shape_def status_shape_def amount_policy_def
      IsReversal_def)

lemma tx_step_shape:
  assumes "tx_step t t'" and "tx_shape t"
  shows "tx_shape t'"
  using assms
  by cases (auto simp: transition_Inr tx_shape_def metadata_shape_def status_shape_def
      split: Status.splits if_splits)

lemma tx_step_inv: "tx_step t t' \<Longrightarrow> tx_inv t \<Longrightarrow> t_updatedAt t' \<noteq> 0 \<Longrightarrow> tx_inv t'"
  using tx_step_shape by (simp add: tx_inv_shape)

text \<open>The transactions that the constructors and the transition methods can build.\<close>

inductive tx_built :: "Transaction \<Rightarrow> bool" where
  new_external: "NewExternal tid q key hash corr now = Inr t \<Longrightarrow> tx_built t"
| new_opening: "NewOpening tid w p m corr now = Inr t \<Longrightarrow> tx_built t"
| step: "tx_built t \<Longrightarrow> tx_step t t' \<Longrightarrow> tx_built t'"

text \<open>C36. Every transaction that the package can build has the shape of its status: a PROCESSED one
  has a result balance in its own currency and no failure code, a REJECTED one a business failure
  code, a FAILED one a failure code, a parked one a next retry and a reference to wait for;
  only the terminal ones have a completion time; OPENING is internal and carries no provider
  metadata, every other kind is external and carries all of it; LOSS is zero and every other
  amount positive; the creation time is set. The invariant that a stored transaction needs holds
  exactly when the clock of the last change was set too, which no transition checks.\<close>

theorem tx_built_inv:
  assumes "tx_built t"
  shows "tx_shape t \<and> (tx_inv t \<longleftrightarrow> t_updatedAt t \<noteq> 0)"
proof -
  have "tx_shape t"
    using assms
  proof (induction rule: tx_built.induct)
    case (step t t')
    then show ?case by (blast intro: tx_step_shape)
  qed (use NewExternal_inv NewOpening_inv tx_inv_shape in blast)+
  then show ?thesis by (simp add: tx_inv_shape)
qed

theorem tx_built_inv_witness:
  "tx_shape sample_tx \<and> tx_inv sample_tx \<and>
   (\<exists>t'. MarkFailed sample_tx FailureNone 0 = Inr t' \<and> tx_shape t' \<and> \<not> tx_inv t')"
proof -
  have b: "tx_built sample_tx" by (rule tx_built.new_external [OF sample_tx_new])
  obtain t' where f: "MarkFailed sample_tx FailureNone 0 = Inr t'" "t_updatedAt t' = 0"
    by (simp add: MarkFailed_Inr sample_tx_def)
  have "tx_built t'" using tx_built.step [OF b tx_step.failed [OF f(1)]] .
  from tx_built_inv [OF b] tx_built_inv [OF this] f show ?thesis by (auto simp: sample_tx_def)
qed

lemma Rehydrate_Snapshot_ok:
  assumes "tx_inv t \<and> canonical_code (t_failureCode t)"
  shows "Rehydrate (Snapshot_of t) = Inr t"
proof -
  note t = assms
  from t have o: "Origin_string (t_origin t) = ''INTERNAL'' \<longleftrightarrow> t_kind t = KindOpening"
    "Origin_string (t_origin t) \<noteq> ''INTERNAL'' \<Longrightarrow> Origin_string (t_origin t) = ''EXTERNAL''"
    "t_kind t = KindOpening \<longleftrightarrow> t_origin t = OriginInternal"
    "t_kind t \<noteq> KindOpening \<Longrightarrow> t_origin t = OriginExternal"
    by (cases "t_origin t"; auto simp: tx_inv_def metadata_shape_def)+
  show "Rehydrate (Snapshot_of t) = Inr t"
    using t o by (cases t) (auto simp: Rehydrate_def Snapshot_of_def tx_inv_def amount_policy_def
        canonical_code_def)
qed

text \<open>C37. Persistence loses nothing: rehydrating the snapshot of a transaction that satisfies the
  invariant and whose failure code is a declared one gives back that transaction, and a snapshot
  is rehydrated only if its identity, kind, status, origin and timestamps are those of a
  transaction.\<close>

theorem Rehydrate_Snapshot:
  "(tx_inv t \<and> canonical_code (t_failureCode t) \<longrightarrow> Rehydrate (Snapshot_of t) = Inr t) \<and>
   (Rehydrate s = Inr t \<longrightarrow>
      t_id t \<noteq> uuid_Nil \<and> t_walletID t \<noteq> uuid_Nil \<and> t_playerID t \<noteq> uuid_Nil \<and>
      m_valid (t_money t) \<and> t_createdAt t \<noteq> 0 \<and> t_updatedAt t \<noteq> 0 \<and>
      (t_origin t = OriginInternal \<longleftrightarrow> t_kind t = KindOpening) \<and>
      s_Kind s = Kind_string (t_kind t) \<and> s_Status s = Status_string (t_status t) \<and>
      s_Origin s = Origin_string (t_origin t))"
proof (intro conjI impI)
  assume "tx_inv t \<and> canonical_code (t_failureCode t)"
  then show "Rehydrate (Snapshot_of t) = Inr t" by (rule Rehydrate_Snapshot_ok)
qed (auto simp: Rehydrate_def ParseKind_Inr ParseStatus_Inr split: if_splits)

theorem Rehydrate_Snapshot_witness: "Rehydrate (Snapshot_of sample_tx) = Inr sample_tx"
proof -
  have "tx_inv sample_tx" using sample_tx_new by (rule NewExternal_inv)
  moreover have "canonical_code (t_failureCode sample_tx)" by (simp add: sample_tx_def)
  ultimately show ?thesis using Rehydrate_Snapshot [of sample_tx] by blast
qed

end
