(* ===== verification/Events.thy ===== *)
theory Events
  imports Wallet Wagering
begin

text \<open>
  Package \<^verbatim>\<open>internal/domain/events\<close>: the integration events stored in the outbox. The payload
  is kept as a typed value, the struct that the code hands to \<^verbatim>\<open>json.Marshal\<close>; marshalling
  fails only for an instant whose year RFC 3339 cannot write, which \<^verbatim>\<open>json_time_ok\<close> decides.
  \<^verbatim>\<open>idgen\<close> holds what the identifier library returns during one call: the result of
  \<^verbatim>\<open>uuid.NewV7\<close> and of \<^verbatim>\<open>uuid.NewString\<close>; \<^verbatim>\<open>us\<close> is \<^verbatim>\<open>uuid.UUID.String\<close>.
\<close>

abbreviation TypeWagerTransactionProcessed :: string where
  "TypeWagerTransactionProcessed \<equiv> ''WagerTransactionProcessed''"
abbreviation TypeWagerTransactionRejected :: string where
  "TypeWagerTransactionRejected \<equiv> ''WagerTransactionRejected''"
abbreviation TypeWalletBalanceChanged :: string where
  "TypeWalletBalanceChanged \<equiv> ''WalletBalanceChanged''"
abbreviation TypeWagerTransactionPendingReference :: string where
  "TypeWagerTransactionPendingReference \<equiv> ''WagerTransactionPendingReference''"

record WagerTransactionProcessedData =
  pd_TransactionID :: uuid
  pd_Origin :: string
  pd_ProviderID :: string
  pd_ExternalTransactionID :: string
  pd_WalletID :: uuid
  pd_PlayerID :: uuid
  pd_RoundID :: string
  pd_GameID :: string
  pd_Kind :: string
  pd_Money :: MoneyJSON
  pd_Balance :: MoneyJSON
  pd_ReferenceTransactionID :: "uuid option"
  pd_ProcessedAt :: time

record WagerTransactionRejectedData =
  rd_TransactionID :: uuid
  rd_ProviderID :: string
  rd_ExternalTransactionID :: string
  rd_WalletID :: uuid
  rd_PlayerID :: uuid
  rd_RoundID :: string
  rd_GameID :: string
  rd_Kind :: string
  rd_Money :: MoneyJSON
  rd_FailureCode :: string
  rd_RejectedAt :: time

record WalletBalanceChangedData =
  bd_WalletID :: uuid
  bd_TransactionID :: uuid
  bd_Direction :: string
  bd_Money :: MoneyJSON
  bd_BalanceBefore :: MoneyJSON
  bd_BalanceAfter :: MoneyJSON
  bd_WalletVersion :: int64

record WagerTransactionPendingReferenceData =
  qd_TransactionID :: uuid
  qd_ProviderID :: string
  qd_ExternalTransactionID :: string
  qd_ReferenceExternalTransactionID :: string
  qd_WalletID :: uuid
  qd_Kind :: string
  qd_Money :: MoneyJSON
  qd_Attempt :: int64
  qd_NextRetryAt :: time

datatype EventData =
    ProcessedData WagerTransactionProcessedData
  | RejectedData WagerTransactionRejectedData
  | BalanceChangedData WalletBalanceChangedData
  | PendingReferenceData WagerTransactionPendingReferenceData

record Envelope =
  ev_EventID :: uuid
  ev_EventType :: string
  ev_AggregateType :: string
  ev_AggregateID :: uuid
  ev_CorrelationID :: string
  ev_CausationID :: string
  ev_OccurredAt :: time
  ev_Version :: int
  ev_Data :: EventData

record idgen =
  g_eventID :: "error + uuid"
  g_string :: string

text \<open>Years 0 to 9999: from January 1 of year 0 (366 days before the origin) to the end of year
  9999 (3652059 days after it).\<close>

definition json_time_ok :: "time \<Rightarrow> bool" where
  "json_time_ok t \<longleftrightarrow> - 366 * 86400000000000 \<le> t \<and> t < 3652059 * 86400000000000"

fun json_data_ok :: "EventData \<Rightarrow> bool" where
  "json_data_ok (ProcessedData d) = json_time_ok (pd_ProcessedAt d)"
| "json_data_ok (RejectedData d) = json_time_ok (rd_RejectedAt d)"
| "json_data_ok (BalanceChangedData d) = True"
| "json_data_ok (PendingReferenceData d) = json_time_ok (qd_NextRetryAt d)"

text \<open>\<^verbatim>\<open>time.Time.Truncate(time.Millisecond)\<close>.\<close>

definition truncate_ms :: "time \<Rightarrow> time" where
  "truncate_ms t = t - t mod 1000000"

definition newEvent ::
  "idgen \<Rightarrow> string \<Rightarrow> int \<Rightarrow> string \<Rightarrow> uuid \<Rightarrow> string \<Rightarrow> string \<Rightarrow> time \<Rightarrow> EventData
    \<Rightarrow> error + Envelope" where
  "newEvent g eventType version aggregateType aggregateID correlationID causationID occurredAt
      data =
    (if aggregateID = uuid_Nil then Inl ErrInvalidEvent
     else if IsZero occurredAt then Inl ErrInvalidEvent
     else
       let correlationID = (if correlationID = '''' then g_string g else correlationID)
       in if \<not> json_data_ok data then Inl ErrInvalidEvent
          else rbind (g_eventID g) (\<lambda>eid.
            Inr \<lparr>ev_EventID = eid, ev_EventType = eventType, ev_AggregateType = aggregateType,
                 ev_AggregateID = aggregateID, ev_CorrelationID = correlationID,
                 ev_CausationID = causationID, ev_OccurredAt = truncate_ms occurredAt,
                 ev_Version = version, ev_Data = data\<rparr>))"

text \<open>\<^verbatim>\<open>Event.Marshal\<close>: the envelope adds only the time of occurrence.\<close>

definition Marshal :: "Envelope \<Rightarrow> error + Envelope" where
  "Marshal ev =
    (if json_time_ok (ev_OccurredAt ev) \<and> json_data_ok (ev_Data ev) then Inr ev
     else Inl ErrInvalidEvent)"

definition NewWagerTransactionProcessed ::
  "(uuid \<Rightarrow> string) \<Rightarrow> idgen \<Rightarrow> Transaction \<Rightarrow> error + Envelope" where
  "NewWagerTransactionProcessed us g tx =
    (case (t_resultBalance tx, t_processedAt tx) of
       (Some balance, Some processedAt) \<Rightarrow>
         if t_status tx \<noteq> StatusProcessed then Inl ErrInvalidEvent
         else
           newEvent g TypeWagerTransactionProcessed 1 ''WagerTransaction'' (t_id tx)
             (t_correlationID tx) (us (t_id tx)) processedAt
             (ProcessedData
               \<lparr>pd_TransactionID = t_id tx, pd_Origin = Origin_string (t_origin tx),
                pd_ProviderID = t_providerID tx,
                pd_ExternalTransactionID = t_externalTransactionID tx,
                pd_WalletID = t_walletID tx, pd_PlayerID = t_playerID tx,
                pd_RoundID = t_roundID tx, pd_GameID = t_gameID tx,
                pd_Kind = Kind_string (t_kind tx), pd_Money = ToJSON (t_money tx),
                pd_Balance = ToJSON balance, pd_ReferenceTransactionID = t_referenceID tx,
                pd_ProcessedAt = processedAt\<rparr>)
     | _ \<Rightarrow> Inl ErrInvalidEvent)"

definition NewWagerTransactionRejected ::
  "(uuid \<Rightarrow> string) \<Rightarrow> idgen \<Rightarrow> Transaction \<Rightarrow> error + Envelope" where
  "NewWagerTransactionRejected us g tx =
    (case t_processedAt tx of
       Some processedAt \<Rightarrow>
         if t_status tx \<noteq> StatusRejected then Inl ErrInvalidEvent
         else
           newEvent g TypeWagerTransactionRejected 1 ''WagerTransaction'' (t_id tx)
             (t_correlationID tx) (us (t_id tx)) processedAt
             (RejectedData
               \<lparr>rd_TransactionID = t_id tx, rd_ProviderID = t_providerID tx,
                rd_ExternalTransactionID = t_externalTransactionID tx,
                rd_WalletID = t_walletID tx, rd_PlayerID = t_playerID tx,
                rd_RoundID = t_roundID tx, rd_GameID = t_gameID tx,
                rd_Kind = Kind_string (t_kind tx), rd_Money = ToJSON (t_money tx),
                rd_FailureCode = FailureCode_string (t_failureCode tx),
                rd_RejectedAt = processedAt\<rparr>)
     | None \<Rightarrow> Inl ErrInvalidEvent)"

definition NewWalletBalanceChanged ::
  "(uuid \<Rightarrow> string) \<Rightarrow> idgen \<Rightarrow> LedgerEntry \<Rightarrow> int64 \<Rightarrow> string \<Rightarrow> error + Envelope" where
  "NewWalletBalanceChanged us g entry walletVersion correlationID =
    (if sint walletVersion < 1 then Inl ErrInvalidEvent
     else
       newEvent g TypeWalletBalanceChanged 1 ''Wallet'' (l_walletID entry) correlationID
         (us (l_transactionID entry)) (l_createdAt entry)
         (BalanceChangedData
           \<lparr>bd_WalletID = l_walletID entry, bd_TransactionID = l_transactionID entry,
            bd_Direction = Direction_string (l_direction entry), bd_Money = ToJSON (l_amount entry),
            bd_BalanceBefore = ToJSON (l_balanceBefore entry),
            bd_BalanceAfter = ToJSON (l_balanceAfter entry), bd_WalletVersion = walletVersion\<rparr>))"

definition NewWagerTransactionPendingReference ::
  "(uuid \<Rightarrow> string) \<Rightarrow> idgen \<Rightarrow> Transaction \<Rightarrow> error + Envelope" where
  "NewWagerTransactionPendingReference us g tx =
    (case t_nextReferenceRetryAt tx of
       Some nextRetry \<Rightarrow>
         if t_status tx \<noteq> StatusPendingReference then Inl ErrInvalidEvent
         else
           newEvent g TypeWagerTransactionPendingReference 1 ''WagerTransaction'' (t_id tx)
             (t_correlationID tx) (us (t_id tx)) (t_updatedAt tx)
             (PendingReferenceData
               \<lparr>qd_TransactionID = t_id tx, qd_ProviderID = t_providerID tx,
                qd_ExternalTransactionID = t_externalTransactionID tx,
                qd_ReferenceExternalTransactionID = t_referenceExternalID tx,
                qd_WalletID = t_walletID tx, qd_Kind = Kind_string (t_kind tx),
                qd_Money = ToJSON (t_money tx), qd_Attempt = t_referenceAttempts tx,
                qd_NextRetryAt = nextRetry\<rparr>)
     | None \<Rightarrow> Inl ErrInvalidEvent)"

subsection \<open>What an emitted event says\<close>

lemma newEvent_Inr:
  "newEvent g et v at aid corr caus occ d = Inr ev \<longleftrightarrow>
    aid \<noteq> uuid_Nil \<and> occ \<noteq> 0 \<and> json_data_ok d \<and> g_eventID g = Inr (ev_EventID ev) \<and>
    ev_EventType ev = et \<and> ev_AggregateType ev = at \<and> ev_AggregateID ev = aid \<and>
    ev_CorrelationID ev = (if corr = '''' then g_string g else corr) \<and> ev_CausationID ev = caus \<and>
    ev_OccurredAt ev = truncate_ms occ \<and> ev_Version ev = v \<and> ev_Data ev = d"
  by (cases ev) (auto simp: newEvent_def Let_def)


lemma processed_event:
  "NewWagerTransactionProcessed us g tx = Inr ev \<Longrightarrow>
    ev_EventType ev = TypeWagerTransactionProcessed \<and> ev_AggregateID ev = t_id tx \<and>
    ev_Version ev = 1 \<and> t_status tx = StatusProcessed \<and> g_eventID g = Inr (ev_EventID ev) \<and>
    (\<exists>d. ev_Data ev = ProcessedData d \<and> pd_TransactionID d = t_id tx \<and>
      pd_Money d = ToJSON (t_money tx) \<and> map_option ToJSON (t_resultBalance tx) = Some (pd_Balance d))"
  by (auto simp: NewWagerTransactionProcessed_def newEvent_Inr split: option.splits if_splits)

lemma rejected_event:
  "NewWagerTransactionRejected us g tx = Inr ev \<Longrightarrow>
    ev_EventType ev = TypeWagerTransactionRejected \<and> ev_AggregateID ev = t_id tx \<and>
    ev_Version ev = 1 \<and> t_status tx = StatusRejected \<and> g_eventID g = Inr (ev_EventID ev) \<and>
    (\<exists>d. ev_Data ev = RejectedData d \<and> rd_TransactionID d = t_id tx \<and>
      rd_FailureCode d = FailureCode_string (t_failureCode tx))"
  by (auto simp: NewWagerTransactionRejected_def newEvent_Inr split: option.splits if_splits)

lemma balance_event:
  "NewWalletBalanceChanged us g e v corr = Inr ev \<Longrightarrow>
    ev_EventType ev = TypeWalletBalanceChanged \<and> ev_AggregateID ev = l_walletID e \<and>
    ev_Version ev = 1 \<and> g_eventID g = Inr (ev_EventID ev) \<and>
    (\<exists>d. ev_Data ev = BalanceChangedData d \<and> bd_TransactionID d = l_transactionID e \<and>
      bd_BalanceAfter d = ToJSON (l_balanceAfter e) \<and> bd_WalletVersion d = v)"
  by (auto simp: NewWalletBalanceChanged_def newEvent_Inr split: if_splits)

lemma pending_event:
  "NewWagerTransactionPendingReference us g tx = Inr ev \<Longrightarrow>
    ev_EventType ev = TypeWagerTransactionPendingReference \<and> ev_AggregateID ev = t_id tx \<and>
    ev_Version ev = 1 \<and> t_status tx = StatusPendingReference \<and> g_eventID g = Inr (ev_EventID ev)"
  by (auto simp: NewWagerTransactionPendingReference_def newEvent_Inr
      split: option.splits if_splits)

end
