(* ===== verification/Hash.thy ===== *)
theory Hash
  imports Wagering
begin

text \<open>
  \<^verbatim>\<open>internal/app/hash.go\<close>: the canonical JSON of a request's business fields and its hash.
  \<^verbatim>\<open>json_string\<close> is the string encoding of \<^verbatim>\<open>encoding/json\<close> (HTML characters escaped, bytes
  that are not UTF-8 replaced by the escape of U+FFFD); the marshaller sorts map keys, so the
  object is written with its keys in order. The identifiers' text \<^verbatim>\<open>us\<close>
  (\<^verbatim>\<open>uuid.UUID.String\<close>) and the digest \<^verbatim>\<open>sha\<close> (SHA-256 in hexadecimal) are parameters.
\<close>

definition hex_digit :: "nat \<Rightarrow> char" where
  "hex_digit n = (if n < 10 then digit_char n else char_of (87 + n))"

definition in_range :: "nat \<Rightarrow> nat \<Rightarrow> char \<Rightarrow> bool" where
  "in_range lo hi c \<longleftrightarrow> lo \<le> (of_char c :: nat) \<and> of_char c \<le> hi"

text \<open>\<^verbatim>\<open>utf8.DecodeRune\<close>: the length of the character at the front, 0 when the bytes there
  are not one.\<close>

definition cont_byte :: "char \<Rightarrow> bool" where "cont_byte c \<longleftrightarrow> in_range 128 191 c"

fun rune_len :: "string \<Rightarrow> nat" where
  "rune_len [] = 0"
| "rune_len (a # s) =
    (if in_range 0 127 a then 1
     else if in_range 194 223 a then
       (case s of b # _ \<Rightarrow> if cont_byte b then 2 else 0 | _ \<Rightarrow> 0)
     else if in_range 224 239 a then
       (case s of b # c # _ \<Rightarrow>
          if (if of_char a = (224::nat) then in_range 160 191 b
              else if of_char a = (237::nat) then in_range 128 159 b else cont_byte b)
             \<and> cont_byte c then 3 else 0
        | _ \<Rightarrow> 0)
     else if in_range 240 244 a then
       (case s of b # c # d # _ \<Rightarrow>
          if (if of_char a = (240::nat) then in_range 144 191 b
              else if of_char a = (244::nat) then in_range 128 143 b else cont_byte b)
             \<and> cont_byte c \<and> cont_byte d then 4 else 0
        | _ \<Rightarrow> 0)
     else 0)"

text \<open>The escape of one ASCII character.\<close>

definition json_ascii :: "char \<Rightarrow> string" where
  "json_ascii c =
    (if c = CHR 0x5C \<or> c = CHR 0x22 then [CHR 0x5C, c]
     else if c = CHR 0x08 then CHR 0x5C # ''b''
     else if c = CHR 0x0C then CHR 0x5C # ''f''
     else if c = CHR 0x0A then CHR 0x5C # ''n''
     else if c = CHR 0x0D then CHR 0x5C # ''r''
     else if c = CHR 0x09 then CHR 0x5C # ''t''
     else if in_range 0 31 c \<or> c = CHR ''<'' \<or> c = CHR ''>'' \<or> c = CHR ''&''
       then CHR 0x5C # ''u00'' @ [hex_digit (of_char c div 16), hex_digit (of_char c mod 16)]
     else [c])"

function json_chars :: "string \<Rightarrow> string" where
  "json_chars [] = []"
| "json_chars (a # s) =
    (let n = rune_len (a # s) in
     if n = 0 then CHR 0x5C # ''ufffd'' @ json_chars s
     else if n = 1 then json_ascii a @ json_chars s
     else if take n (a # s) = [CHR 0xE2, CHR 0x80, CHR 0xA8]
       then CHR 0x5C # ''u2028'' @ json_chars (drop n (a # s))
     else if take n (a # s) = [CHR 0xE2, CHR 0x80, CHR 0xA9]
       then CHR 0x5C # ''u2029'' @ json_chars (drop n (a # s))
     else take n (a # s) @ json_chars (drop n (a # s)))"
  by pat_completeness auto
termination
  by (relation "measure length") auto

definition json_string :: "string \<Rightarrow> string" where
  "json_string s = CHR 0x22 # json_chars s @ [CHR 0x22]"

definition json_member :: "string \<Rightarrow> string \<Rightarrow> string" where
  "json_member key v = json_string key @ '':'' @ v"

fun json_join :: "string list \<Rightarrow> string" where
  "json_join [] = ''''"
| "json_join [m] = m"
| "json_join (m # ms) = m @ '','' @ json_join ms"

definition json_object :: "string list \<Rightarrow> string" where
  "json_object members = ''{'' @ json_join members @ ''}''"

definition canonical_json :: "(uuid \<Rightarrow> string) \<Rightarrow> ExternalRequest \<Rightarrow> string" where
  "canonical_json us r =
    json_object
     ([json_member ''externalTransactionId'' (json_string (er_ExternalTransactionID r)),
       json_member ''gameId'' (json_string (er_GameID r)),
       json_member ''kind'' (json_string (Kind_string (er_Kind r))),
       json_member ''money''
         (json_object
           [json_member ''amount'' (json_string (Amount (er_Money r))),
            json_member ''currency'' (json_string (m_currency (er_Money r)))]),
       json_member ''playerId'' (json_string (us (er_PlayerID r))),
       json_member ''providerId'' (json_string (er_ProviderID r))] @
      (if er_Reference r \<noteq> ''''
       then [json_member ''referenceExternalTransactionId'' (json_string (er_Reference r))]
       else []) @
      [json_member ''roundId'' (json_string (er_RoundID r)),
       json_member ''walletId'' (json_string (us (er_WalletID r)))])"

definition PayloadHash ::
  "(uuid \<Rightarrow> string) \<Rightarrow> (string \<Rightarrow> string) \<Rightarrow> ExternalRequest \<Rightarrow> string" where
  "PayloadHash us sha r = sha (canonical_json us r)"

end
