(* ===== verification/Ports.thy ===== *)
theory Ports
  imports Events Hash
begin

text \<open>
  \<^verbatim>\<open>internal/app/ports.go\<close>: what the use cases ask of a database. A \<^verbatim>\<open>Store\<close> is a record
  of the repository methods bound to one SQL transaction, each an operation on the state
  \<^typ>\<open>'s\<close> of that transaction; \<^verbatim>\<open>UnitOfWork.Do\<close> is \<^verbatim>\<open>uow_Do\<close>. The contract the use
  cases rely on is stated over a \<^verbatim>\<open>View\<close>, the abstract content of a database: the locales at
  the end collect what each repository promises, and the PostgreSQL model discharges them.
\<close>

subsection \<open>The repository methods\<close>

record LedgerRecord =
  lr_Seq :: int64
  lr_Entry :: LedgerEntry

record LedgerTotals =
  lt_Credits :: int64
  lt_Debits :: int64
  lt_Count :: int64

record OutboxRecord =
  or_EventID :: uuid
  or_AggregateID :: uuid
  or_EventType :: string
  or_Payload :: Envelope
  or_Attempts :: int64
  or_OccurredAt :: time

record InboxResult =
  ir_Inserted :: bool
  ir_ExistingHash :: string

record 's Store =
  Wallets_Create :: "Wallet \<Rightarrow> ('s, unit) op"
  Wallets_Get :: "uuid \<Rightarrow> ('s, Wallet) op"
  Wallets_GetForUpdate :: "uuid \<Rightarrow> ('s, Wallet) op"
  Wallets_Update :: "Wallet \<Rightarrow> int64 \<Rightarrow> ('s, unit) op"
  Transactions_Insert :: "Transaction \<Rightarrow> ('s, unit) op"
  Transactions_Update :: "Transaction \<Rightarrow> ('s, unit) op"
  Transactions_Get :: "uuid \<Rightarrow> ('s, Transaction) op"
  Transactions_FindByIdempotencyKey :: "string \<Rightarrow> string \<Rightarrow> ('s, Transaction) op"
  Transactions_FindByExternalID :: "string \<Rightarrow> string \<Rightarrow> ('s, Transaction) op"
  Transactions_HasProcessedReversal :: "uuid \<Rightarrow> ('s, bool) op"
  Transactions_ClaimDuePendingReference :: "time \<Rightarrow> ('s, Transaction) op"
  Ledger_Append :: "LedgerEntry \<Rightarrow> ('s, unit) op"
  Ledger_List :: "uuid \<Rightarrow> int64 \<Rightarrow> int64 \<Rightarrow> ('s, LedgerRecord list) op"
  Ledger_Totals :: "uuid \<Rightarrow> ('s, LedgerTotals) op"
  Outbox_Add :: "Envelope \<Rightarrow> ('s, unit) op"
  Outbox_Claim :: "string \<Rightarrow> time \<Rightarrow> int64 \<Rightarrow> int64 \<Rightarrow> ('s, OutboxRecord list) op"
  Outbox_MarkPublished :: "uuid \<Rightarrow> time \<Rightarrow> ('s, unit) op"
  Outbox_MarkPublishedBatch :: "uuid list \<Rightarrow> time \<Rightarrow> ('s, unit) op"
  Outbox_Reschedule :: "uuid \<Rightarrow> time \<Rightarrow> string \<Rightarrow> ('s, unit) op"
  Outbox_Lag :: "time \<Rightarrow> ('s, int64 \<times> int64) op"
  Inbox_Record :: "string \<Rightarrow> string \<Rightarrow> string \<Rightarrow> time \<Rightarrow> ('s, InboxResult) op"

subsection \<open>The unit of work\<close>

text \<open>What can go wrong around the callback: opening the SQL transaction, and committing it. A
  commit that reports an error may still have become durable, when only its acknowledgement was
  lost.\<close>

record Faults =
  f_begin :: "error option"
  f_commit :: "(error \<times> bool) option"

abbreviation no_faults :: Faults where
  "no_faults \<equiv> \<lparr>f_begin = None, f_commit = None\<rparr>"

text \<open>\<^verbatim>\<open>UnitOfWork.run\<close>: the effects of the callback survive a commit and nothing survives its
  error (or its panic, which is rolled back and raised again). A rollback is taken to succeed: the
  error of a failed one, which the code joins to the callback's, is not modelled.\<close>

definition uow_Do :: "Faults \<Rightarrow> ('s, 'a) op \<Rightarrow> ('s, 'a) op" where
  "uow_Do f fn = (\<lambda>s.
    case f_begin f of
      Some e \<Rightarrow> (Inl e, s)
    | None \<Rightarrow>
        (case fn s of
           (Inl e, _) \<Rightarrow> (Inl e, s)
         | (Inr a, s') \<Rightarrow>
             (case f_commit f of
                None \<Rightarrow> (Inr a, s')
              | Some (e, durable) \<Rightarrow> (Inl e, if durable then s' else s))))"

lemma uow_Do_Inr:
  "uow_Do f fn s = (Inr a, s') \<longleftrightarrow>
    f_begin f = None \<and> f_commit f = None \<and> fn s = (Inr a, s')"
  by (auto simp: uow_Do_def split: option.splits prod.splits sum.splits)

text \<open>A call that reports an error has changed nothing, except when the commit itself was
  durable and only its acknowledgement was lost.\<close>

lemma uow_Do_Inl:
  "uow_Do f fn s = (Inl e, s') \<Longrightarrow>
    s' = s \<or> (\<exists>a. fn s = (Inr a, s') \<and> f_begin f = None \<and> f_commit f = Some (e, True))"
  by (auto simp: uow_Do_def split: option.splits prod.splits sum.splits if_splits)

subsection \<open>The abstract content of a database\<close>

record View =
  v_wallets :: "uuid \<Rightarrow> Wallet option"
  v_txs :: "Transaction list"
  v_ledger :: "LedgerRecord list"
  v_outbox :: "Envelope list"
  v_inbox :: "string \<times> string \<Rightarrow> string option"

definition by_key :: "View \<Rightarrow> string \<Rightarrow> string \<Rightarrow> Transaction option" where
  "by_key v p k =
    find (\<lambda>t. t_origin t = OriginExternal \<and> t_providerID t = p \<and> t_idempotencyKey t = k) (v_txs v)"

definition by_ext :: "View \<Rightarrow> string \<Rightarrow> string \<Rightarrow> Transaction option" where
  "by_ext v p x =
    find (\<lambda>t. t_origin t = OriginExternal \<and> t_providerID t = p \<and> t_externalTransactionID t = x)
      (v_txs v)"

definition by_id :: "View \<Rightarrow> uuid \<Rightarrow> Transaction option" where
  "by_id v i = find (\<lambda>t. t_id t = i) (v_txs v)"

definition reverses :: "uuid \<Rightarrow> Transaction \<Rightarrow> bool" where
  "reverses r t \<longleftrightarrow> t_referenceID t = Some r \<and> t_status t = StatusProcessed \<and> IsReversal (t_kind t)"

definition due :: "time \<Rightarrow> Transaction \<Rightarrow> bool" where
  "due now t \<longleftrightarrow>
    t_status t = StatusPendingReference \<and> (\<exists>r. t_nextReferenceRetryAt t = Some r \<and> r \<le> now)"

text \<open>The entries of one wallet, in the order of their sequence numbers.\<close>

definition entries :: "View \<Rightarrow> uuid \<Rightarrow> LedgerEntry list" where
  "entries v i = filter (\<lambda>e. l_walletID e = i) (map lr_Entry (v_ledger v))"

text \<open>The integrity that the schema keeps, whoever writes.\<close>

definition unique_on :: "('a \<Rightarrow> bool) \<Rightarrow> ('a \<Rightarrow> 'b) \<Rightarrow> 'a list \<Rightarrow> bool" where
  "unique_on P f xs \<longleftrightarrow> distinct (map f (filter P xs))"

definition view_ok :: "View \<Rightarrow> bool" where
  "view_ok v \<longleftrightarrow>
    (\<forall>i w. v_wallets v i = Some w \<longrightarrow> wallet_inv w \<and> w_id w = i \<and> currencyPattern (w_currency w)) \<and>
    (\<forall>t \<in> set (v_txs v). tx_inv t) \<and>
    unique_on (\<lambda>_. True) t_id (v_txs v) \<and>
    unique_on (\<lambda>t. t_origin t = OriginExternal) (\<lambda>t. (t_providerID t, t_idempotencyKey t)) (v_txs v) \<and>
    unique_on (\<lambda>t. t_origin t = OriginExternal) (\<lambda>t. (t_providerID t, t_externalTransactionID t))
      (v_txs v) \<and>
    unique_on (\<lambda>t. t_kind t = KindOpening) t_walletID (v_txs v) \<and>
    unique_on (\<lambda>t. t_status t = StatusProcessed \<and> IsReversal (t_kind t) \<and> t_referenceID t \<noteq> None)
      t_referenceID (v_txs v) \<and>
    (\<forall>r \<in> set (v_ledger v). entry_inv (lr_Entry r)) \<and>
    unique_on (\<lambda>_. True) (\<lambda>e. (l_walletID e, l_transactionID e)) (map lr_Entry (v_ledger v)) \<and>
    sorted_wrt (\<lambda>a b. sint (lr_Seq a) < sint (lr_Seq b)) (v_ledger v) \<and>
    (\<forall>r \<in> set (v_ledger v). 0 < sint (lr_Seq r)) \<and>
    unique_on (\<lambda>_. True) ev_EventID (v_outbox v)"

lemma unique_onD:
  assumes "unique_on P f xs" and "a \<in> set xs" and "b \<in> set xs" and "P a" and "P b" and "f a = f b"
  shows "a = b"
proof -
  have "inj_on f (set (filter P xs))" using assms(1) by (simp add: unique_on_def distinct_map)
  then show ?thesis using assms by (auto dest: inj_onD)
qed

lemma find_Some_iff_unique:
  assumes "unique_on Q f xs" and "\<And>x. P x \<longleftrightarrow> Q x \<and> f x = k"
  shows "find P xs = Some t \<longleftrightarrow> t \<in> set xs \<and> P t"
proof
  assume "find P xs = Some t"
  then show "t \<in> set xs \<and> P t" by (auto simp: find_Some_iff)
next
  assume t: "t \<in> set xs \<and> P t"
  then obtain u where u: "find P xs = Some u" by (cases "find P xs") (auto simp: find_None_iff)
  then have "u \<in> set xs \<and> P u" by (auto simp: find_Some_iff)
  with t have "u = t" using unique_onD [OF assms(1), of u t] by (simp add: assms(2))
  with u show "find P xs = Some t" by simp
qed

lemma by_key_Some:
  "view_ok v \<Longrightarrow> by_key v p k = Some t \<longleftrightarrow> t \<in> set (v_txs v) \<and> t_origin t = OriginExternal \<and>
    t_providerID t = p \<and> t_idempotencyKey t = k"
  unfolding by_key_def view_ok_def
  by (subst find_Some_iff_unique [where Q = "\<lambda>t. t_origin t = OriginExternal"
        and f = "\<lambda>t. (t_providerID t, t_idempotencyKey t)" and k = "(p, k)"]) auto

lemma by_ext_Some:
  "view_ok v \<Longrightarrow> by_ext v p x = Some t \<longleftrightarrow> t \<in> set (v_txs v) \<and> t_origin t = OriginExternal \<and>
    t_providerID t = p \<and> t_externalTransactionID t = x"
  unfolding by_ext_def view_ok_def
  by (subst find_Some_iff_unique [where Q = "\<lambda>t. t_origin t = OriginExternal"
        and f = "\<lambda>t. (t_providerID t, t_externalTransactionID t)" and k = "(p, x)"]) auto

lemma by_id_Some: "view_ok v \<Longrightarrow> by_id v i = Some t \<longleftrightarrow> t \<in> set (v_txs v) \<and> t_id t = i"
  unfolding by_id_def view_ok_def
  by (subst find_Some_iff_unique [where Q = "\<lambda>t. True" and f = t_id and k = i]) auto

lemma by_key_None:
  "by_key v p k = None \<longleftrightarrow> (\<forall>t \<in> set (v_txs v). \<not> (t_origin t = OriginExternal \<and>
    t_providerID t = p \<and> t_idempotencyKey t = k))"
  by (auto simp: by_key_def find_None_iff)

lemma by_ext_None:
  "by_ext v p x = None \<longleftrightarrow> (\<forall>t \<in> set (v_txs v). \<not> (t_origin t = OriginExternal \<and>
    t_providerID t = p \<and> t_externalTransactionID t = x))"
  by (auto simp: by_ext_def find_None_iff)

subsection \<open>What a read and a write promise\<close>

text \<open>A read gives a value that describes the content and changes nothing; the one error that its
  caller inspects (not found) is reported only when the content has no such value. Any other
  error aborts the unit of work and promises nothing.\<close>

definition reads ::
  "('s \<Rightarrow> bool) \<Rightarrow> ('s \<Rightarrow> View) \<Rightarrow> ('s, 'a) op \<Rightarrow> (View \<Rightarrow> 'a \<Rightarrow> bool) \<Rightarrow> error \<Rightarrow> (View \<Rightarrow> bool) \<Rightarrow> bool"
  where
  "reads I view m Q e N \<longleftrightarrow>
    (\<forall>s r s'. I s \<and> m s = (r, s') \<longrightarrow>
      (\<forall>a. r = Inr a \<longrightarrow> Q (view s) a \<and> I s' \<and> view s' = view s) \<and>
      (r = Inl e \<longrightarrow> N (view s) \<and> I s' \<and> view s' = view s))"

definition writes ::
  "('s \<Rightarrow> bool) \<Rightarrow> ('s \<Rightarrow> View) \<Rightarrow> ('s, 'a) op \<Rightarrow> (View \<Rightarrow> bool) \<Rightarrow> (View \<Rightarrow> 'a \<Rightarrow> View \<Rightarrow> bool) \<Rightarrow> bool"
  where
  "writes I view m P U \<longleftrightarrow>
    (\<forall>s a s'. I s \<and> P (view s) \<and> m s = (Inr a, s') \<longrightarrow> I s' \<and> U (view s) a (view s'))"

lemma readsD:
  assumes "reads I view m Q e N" and "I s" and "m s = (Inr a, s')"
  shows "Q (view s) a" and "I s'" and "view s' = view s"
  using assms unfolding reads_def by blast+

lemma reads_notD:
  assumes "reads I view m Q e N" and "I s" and "m s = (Inl e, s')"
  shows "N (view s)" and "I s'" and "view s' = view s"
  using assms unfolding reads_def by blast+

lemma writesD:
  assumes "writes I view m P U" and "I s" and "P (view s)" and "m s = (Inr a, s')"
  shows "U (view s) a (view s')" and "I s'"
  using assms unfolding writes_def by blast+

subsection \<open>The contract of the repositories\<close>

text \<open>A stored value is the given one up to the precision of the column types: instants lose what
  the columns cannot hold, everything else is kept. An instant is storable when the column does
  not turn it into the zero time.\<close>

definition clock_ok :: "time \<Rightarrow> bool" where "clock_ok now \<longleftrightarrow> 1000 \<le> now"

definition kept_wallet :: "Wallet \<Rightarrow> Wallet \<Rightarrow> bool" where
  "kept_wallet w u \<longleftrightarrow>
    w_id u = w_id w \<and> w_playerID u = w_playerID w \<and> w_currency u = w_currency w \<and>
    w_balance u = w_balance w \<and> w_version u = w_version w"

definition kept_tx :: "Transaction \<Rightarrow> Transaction \<Rightarrow> bool" where
  "kept_tx t u \<longleftrightarrow>
    t_id u = t_id t \<and> t_origin u = t_origin t \<and> t_providerID u = t_providerID t \<and>
    t_externalTransactionID u = t_externalTransactionID t \<and>
    t_idempotencyKey u = t_idempotencyKey t \<and> t_payloadHash u = t_payloadHash t \<and>
    t_walletID u = t_walletID t \<and> t_playerID u = t_playerID t \<and> t_roundID u = t_roundID t \<and>
    t_gameID u = t_gameID t \<and> t_kind u = t_kind t \<and> t_money u = t_money t \<and>
    t_referenceExternalID u = t_referenceExternalID t \<and> t_referenceID u = t_referenceID t \<and>
    t_status u = t_status t \<and> t_failureCode u = t_failureCode t \<and>
    map_option m_minor (t_resultBalance u) = map_option m_minor (t_resultBalance t) \<and>
    (\<forall>b. t_resultBalance t = Some b \<and> m_currency b = m_currency (t_money t) \<longrightarrow>
      t_resultBalance u = Some b) \<and>
    t_referenceAttempts u = t_referenceAttempts t \<and> t_correlationID u = t_correlationID t \<and>
    (t_processedAt u = None \<longleftrightarrow> t_processedAt t = None)"

definition kept_entry :: "LedgerEntry \<Rightarrow> LedgerEntry \<Rightarrow> bool" where
  "kept_entry e f \<longleftrightarrow>
    l_id f = l_id e \<and> l_walletID f = l_walletID e \<and> l_transactionID f = l_transactionID e \<and>
    l_direction f = l_direction e \<and> l_amount f = l_amount e \<and>
    l_balanceBefore f = l_balanceBefore e \<and> l_balanceAfter f = l_balanceAfter e"

text \<open>The transactions that the use cases hand to the store.\<close>

definition storable_tx :: "Transaction \<Rightarrow> bool" where
  "storable_tx t \<longleftrightarrow> tx_inv t \<and> canonical_code (t_failureCode t) \<and>
    clock_ok (t_createdAt t) \<and> clock_ok (t_updatedAt t) \<and>
    (\<forall>b. t_resultBalance t = Some b \<longrightarrow> m_valid b)"

locale wallet_repository =
  fixes st :: "'s Store" and I :: "'s \<Rightarrow> bool" and view :: "'s \<Rightarrow> View"
    and stored_w :: "Wallet \<Rightarrow> Wallet"
  assumes w_create: "writes I view (Wallets_Create st w)
      (\<lambda>v. wallet_inv w \<and> clock_ok (w_createdAt w) \<and> clock_ok (w_updatedAt w))
      (\<lambda>v _ v'. v' = v\<lparr>v_wallets := (v_wallets v)(w_id w \<mapsto> stored_w w)\<rparr> \<and>
        v_wallets v (w_id w) = None \<and>
        (\<forall>i u. v_wallets v i = Some u \<longrightarrow> (w_playerID u, w_currency u) \<noteq> (w_playerID w, w_currency w)))"
    and w_get: "reads I view (Wallets_Get st i) (\<lambda>v w. v_wallets v i = Some w)
      ErrWalletNotFound (\<lambda>v. v_wallets v i = None)"
    and w_lock: "reads I view (Wallets_GetForUpdate st i) (\<lambda>v w. v_wallets v i = Some w)
      ErrWalletNotFound (\<lambda>v. v_wallets v i = None)"
    and w_update: "writes I view (Wallets_Update st w ver)
      (\<lambda>v. wallet_inv (w\<lparr>w_version := 1\<rparr>) \<and> clock_ok (w_updatedAt w) \<and>
        (\<forall>u. v_wallets v (w_id w) = Some u \<longrightarrow>
          w_playerID u = w_playerID w \<and> w_currency u = w_currency w \<and> w_createdAt u = w_createdAt w))
      (\<lambda>v _ v'. v' = v\<lparr>v_wallets := (v_wallets v)(w_id w \<mapsto> stored_w w)\<rparr> \<and>
        (\<exists>u. v_wallets v (w_id w) = Some u \<and> w_version u = ver))"
    and w_kept: "kept_wallet w (stored_w w)"

locale transaction_repository =
  fixes st :: "'s Store" and I :: "'s \<Rightarrow> bool" and view :: "'s \<Rightarrow> View"
    and stored_t :: "Transaction \<Rightarrow> Transaction" and free :: "Transaction \<Rightarrow> bool"
  assumes t_insert: "writes I view (Transactions_Insert st t) (\<lambda>v. storable_tx t)
      (\<lambda>v _ v'. v' = v\<lparr>v_txs := v_txs v @ [stored_t t]\<rparr>)"
    and t_update: "writes I view (Transactions_Update st t)
      (\<lambda>v. storable_tx t \<and> (\<forall>u \<in> set (v_txs v). t_id u = t_id t \<longrightarrow> same_identity u t))
      (\<lambda>v _ v'. v' = v\<lparr>v_txs := map (\<lambda>u. if t_id u = t_id t then stored_t t else u) (v_txs v)\<rparr> \<and>
        (\<exists>u \<in> set (v_txs v). t_id u = t_id t \<and> \<not> IsTerminal (t_status u)))"
    and t_get: "reads I view (Transactions_Get st i) (\<lambda>v t. by_id v i = Some t)
      ErrTransactionNotFound (\<lambda>v. by_id v i = None)"
    and t_by_key: "reads I view (Transactions_FindByIdempotencyKey st p k)
      (\<lambda>v t. by_key v p k = Some t) ErrTransactionNotFound (\<lambda>v. by_key v p k = None)"
    and t_by_ext: "reads I view (Transactions_FindByExternalID st p x)
      (\<lambda>v t. by_ext v p x = Some t) ErrTransactionNotFound (\<lambda>v. by_ext v p x = None)"
    and t_reversal: "reads I view (Transactions_HasProcessedReversal st r)
      (\<lambda>v b. b = (\<exists>t \<in> set (v_txs v). reverses r t)) ErrTransactionNotFound (\<lambda>v. True)"
    and t_claim: "reads I view (Transactions_ClaimDuePendingReference st now)
      (\<lambda>v t. t \<in> set (v_txs v) \<and> due now t \<and> free t \<and>
        (\<forall>u \<in> set (v_txs v). due now u \<and> free u \<longrightarrow>
          the (t_nextReferenceRetryAt t) \<le> the (t_nextReferenceRetryAt u)))
      ErrTransactionNotFound (\<lambda>v. \<forall>t \<in> set (v_txs v). \<not> (due now t \<and> free t))"
    and t_kept: "kept_tx t (stored_t t)"
    and t_again: "I s \<Longrightarrow> t \<in> set (v_txs (view s)) \<Longrightarrow>
      canonical_code (t_failureCode t) \<and> clock_ok (t_createdAt t) \<and> clock_ok (t_updatedAt t) \<and>
      (\<forall>b. t_resultBalance t = Some b \<longrightarrow> m_valid b)"

locale ledger_repository =
  fixes st :: "'s Store" and I :: "'s \<Rightarrow> bool" and view :: "'s \<Rightarrow> View"
    and stored_e :: "LedgerEntry \<Rightarrow> LedgerEntry"
  assumes l_append: "writes I view (Ledger_Append st e)
      (\<lambda>v. entry_inv e \<and> clock_ok (l_createdAt e) \<and> currencyPattern (m_currency (l_amount e)))
      (\<lambda>v _ v'. \<exists>q. v' = v\<lparr>v_ledger := v_ledger v @ [\<lparr>lr_Seq = q, lr_Entry = stored_e e\<rparr>]\<rparr>)"
    and l_list: "reads I view (Ledger_List st i after limit)
      (\<lambda>v rs. rs = take (nat (sint limit))
        (filter (\<lambda>r. l_walletID (lr_Entry r) = i \<and> sint after < sint (lr_Seq r)) (v_ledger v)))
      ErrWalletNotFound (\<lambda>v. True)"
    and l_totals: "reads I view (Ledger_Totals st i)
      (\<lambda>v t. sint (lt_Credits t) - sint (lt_Debits t) = sum_list (map signed_amount (entries v i)) \<and>
        0 \<le> sint (lt_Credits t) \<and> 0 \<le> sint (lt_Debits t) \<and>
        lt_Count t = word_of_int (int (length (entries v i))))
      ErrWalletNotFound (\<lambda>v. True)"
    and l_kept: "kept_entry e (stored_e e)"

locale event_repository =
  fixes st :: "'s Store" and I :: "'s \<Rightarrow> bool" and view :: "'s \<Rightarrow> View"
  assumes o_add: "writes I view (Outbox_Add st ev) (\<lambda>v. True)
      (\<lambda>v _ v'. v' = v\<lparr>v_outbox := v_outbox v @ [ev]\<rparr>)"
    and i_record: "writes I view (Inbox_Record st c m h now) (\<lambda>v. True)
      (\<lambda>v r v'. if ir_Inserted r
        then v_inbox v (c, m) = None \<and> v' = v\<lparr>v_inbox := (v_inbox v)((c, m) \<mapsto> h)\<rparr>
        else v_inbox v (c, m) = Some (ir_ExistingHash r) \<and> v' = v)"

text \<open>The whole database.\<close>

locale database =
  wallet_repository st I view stored_w + transaction_repository st I view stored_t free +
  ledger_repository st I view stored_e + event_repository st I view
  for st :: "'s Store" and I :: "'s \<Rightarrow> bool" and view :: "'s \<Rightarrow> View"
    and stored_w :: "Wallet \<Rightarrow> Wallet" and stored_t :: "Transaction \<Rightarrow> Transaction"
    and stored_e :: "LedgerEntry \<Rightarrow> LedgerEntry" and free :: "Transaction \<Rightarrow> bool" +
  assumes ok: "I s \<Longrightarrow> view_ok (view s)"

end
