(* ===== verification/Postgres.thy ===== *)
theory Postgres
  imports Ports
begin

text \<open>
  Package \<^verbatim>\<open>internal/adapters/postgres\<close> and the schema of
  \<^verbatim>\<open>migrations/000001_init.up.sql\<close>. A database is a record of tables, each a list of rows in
  the order of insertion; \<^verbatim>\<open>NULL\<close> is \<^const>\<open>None\<close>. The \<^verbatim>\<open>sql_\<close> functions are the
  statements that the repositories send, with the constraints and triggers of the schema that
  they meet, in the order PostgreSQL evaluates them: encoding of the parameters, CHECK
  constraints by name, unique indexes in the order of their creation, foreign keys. Each
  violation is the \<^verbatim>\<open>PgError\<close> with its SQLSTATE and the name of the constraint. The
  \<^verbatim>\<open>Repo_\<close> functions are the Go methods around them.

  Instants are stored in microseconds. A value drawn from the ledger sequence by a statement that
  fails is not burned here: only the order of the values is used.
\<close>

definition pg_time :: "time \<Rightarrow> time" where "pg_time t = t - t mod 1000"

text \<open>A text parameter must be UTF-8 without the zero character.\<close>

function pg_text_ok :: "string \<Rightarrow> bool" where
  "pg_text_ok [] = True"
| "pg_text_ok (a # s) =
    (let n = rune_len (a # s) in
     if n = 0 \<or> a = CHR 0x00 then False else pg_text_ok (drop n (a # s)))"
  by pat_completeness auto
termination
  by (relation "measure length") auto

declare pg_text_ok.simps [simp del]

definition text_error :: error where "text_error = ErrPg ''22021'' ''''"

definition texts_ok :: "string list \<Rightarrow> bool" where "texts_ok ss = list_all pg_text_ok ss"

text \<open>The name of the first CHECK that does not hold.\<close>

definition violated :: "(string \<times> bool) list \<Rightarrow> string option" where
  "violated cs = map_option fst (find (\<lambda>(n, holds). \<not> holds) cs)"

definition nullStr :: "string \<Rightarrow> string option" where
  "nullStr s = (if s = '''' then None else Some s)"

definition derefStr :: "string option \<Rightarrow> string" where
  "derefStr p = (case p of None \<Rightarrow> '''' | Some s \<Rightarrow> s)"

definition isUniqueViolation :: "error \<Rightarrow> string \<Rightarrow> bool" where
  "isUniqueViolation e constraint =
    (case e of
       ErrPg code name \<Rightarrow> code = ''23505'' \<and> (constraint = '''' \<or> name = constraint)
     | _ \<Rightarrow> False)"

subsection \<open>The tables\<close>

record wallet_row =
  wr_id :: uuid
  wr_player_id :: uuid
  wr_currency :: string
  wr_balance_minor :: int64
  wr_version :: int64
  wr_created_at :: time
  wr_updated_at :: time

record tx_row =
  tr_id :: uuid
  tr_origin :: string
  tr_provider_id :: "string option"
  tr_external_transaction_id :: "string option"
  tr_idempotency_key :: "string option"
  tr_payload_hash :: "string option"
  tr_wallet_id :: uuid
  tr_player_id :: uuid
  tr_round_id :: "string option"
  tr_game_id :: "string option"
  tr_kind :: string
  tr_amount_minor :: int64
  tr_currency :: string
  tr_reference_external :: "string option"
  tr_reference_id :: "uuid option"
  tr_status :: string
  tr_failure_code :: "string option"
  tr_result_balance_minor :: "int64 option"
  tr_reference_attempts :: int64
  tr_next_retry_at :: "time option"
  tr_correlation_id :: "string option"
  tr_created_at :: time
  tr_updated_at :: time
  tr_processed_at :: "time option"

record ledger_row =
  gr_seq :: int64
  gr_id :: uuid
  gr_wallet_id :: uuid
  gr_transaction_id :: uuid
  gr_direction :: string
  gr_amount_minor :: int64
  gr_before_minor :: int64
  gr_after_minor :: int64
  gr_currency :: string
  gr_created_at :: time

record outbox_row =
  xr_event_id :: uuid
  xr_aggregate_type :: string
  xr_aggregate_id :: uuid
  xr_event_type :: string
  xr_payload :: Envelope
  xr_occurred_at :: time
  xr_created_at :: time
  xr_attempts :: int64
  xr_next_attempt_at :: time
  xr_locked_by :: "string option"
  xr_locked_until :: "time option"
  xr_published_at :: "time option"
  xr_last_error :: "string option"

record inbox_row =
  nr_consumer :: string
  nr_message_id :: string
  nr_payload_hash :: string
  nr_received_at :: time
  nr_completed_at :: time

text \<open>\<^verbatim>\<open>db_seq\<close> is the last value of the ledger sequence, \<^verbatim>\<open>db_now\<close> what \<^verbatim>\<open>now()\<close>
  returns in the current SQL transaction.\<close>

record db =
  db_wallets :: "wallet_row list"
  db_txs :: "tx_row list"
  db_ledger :: "ledger_row list"
  db_seq :: int64
  db_outbox :: "outbox_row list"
  db_inbox :: "inbox_row list"
  db_now :: time

definition empty_db :: "time \<Rightarrow> db" where
  "empty_db now =
    \<lparr>db_wallets = [], db_txs = [], db_ledger = [], db_seq = 0, db_outbox = [], db_inbox = [],
     db_now = now\<rparr>"

subsection \<open>Wallets\<close>

definition wallet_checks :: "wallet_row \<Rightarrow> (string \<times> bool) list" where
  "wallet_checks r =
    [(''wallets_balance_minor_check'', 0 \<le> sint (wr_balance_minor r)),
     (''wallets_currency_check'', currencyPattern (wr_currency r)),
     (''wallets_version_check'', 1 \<le> sint (wr_version r))]"

definition sql_insert_wallet :: "wallet_row \<Rightarrow> (db, unit) op" where
  "sql_insert_wallet r d =
    (case violated (wallet_checks r) of
       Some c \<Rightarrow> (Inl (ErrPg ''23514'' c), d)
     | None \<Rightarrow>
         if \<exists>u \<in> set (db_wallets d). wr_id u = wr_id r
         then (Inl (ErrPg ''23505'' ''wallets_pkey''), d)
         else if \<exists>u \<in> set (db_wallets d).
             wr_player_id u = wr_player_id r \<and> wr_currency u = wr_currency r
         then (Inl (ErrPg ''23505'' ''wallets_player_currency_unique''), d)
         else (Inr (), d\<lparr>db_wallets := db_wallets d @ [r]\<rparr>))"

text \<open>\<^verbatim>\<open>UPDATE wallets ... WHERE id = $1 AND version = $5\<close>: the number of rows it changed.\<close>

definition sql_update_wallet ::
  "uuid \<Rightarrow> int64 \<Rightarrow> int64 \<Rightarrow> time \<Rightarrow> int64 \<Rightarrow> (db, nat) op" where
  "sql_update_wallet i balance version updated expected d =
    (let hit = (\<lambda>u. wr_id u = i \<and> wr_version u = expected);
         upd = (\<lambda>u. u\<lparr>wr_balance_minor := balance, wr_version := version,
                      wr_updated_at := pg_time updated\<rparr>)
     in
     case find (\<lambda>u. hit u \<and> violated (wallet_checks (upd u)) \<noteq> None) (db_wallets d) of
       Some u \<Rightarrow> (Inl (ErrPg ''23514'' (the (violated (wallet_checks (upd u))))), d)
     | None \<Rightarrow>
         (Inr (length (filter hit (db_wallets d))),
          d\<lparr>db_wallets := map (\<lambda>u. if hit u then upd u else u) (db_wallets d)\<rparr>))"

definition walletRepo_Create :: "Wallet \<Rightarrow> (db, unit) op" where
  "walletRepo_Create w d =
    (case sql_insert_wallet
        \<lparr>wr_id = w_id w, wr_player_id = w_playerID w, wr_currency = w_currency w,
         wr_balance_minor = m_minor (w_balance w), wr_version = w_version w,
         wr_created_at = pg_time (w_createdAt w), wr_updated_at = pg_time (w_updatedAt w)\<rparr> d of
       (Inl e, d') \<Rightarrow>
         (Inl (if isUniqueViolation e ''wallets_player_currency_unique'' then ErrWalletExists else e), d')
     | (Inr _, d') \<Rightarrow> (Inr (), d'))"

definition walletRepo_scan :: "wallet_row \<Rightarrow> error + Wallet" where
  "walletRepo_scan r =
    rbind (FromMinor (wr_balance_minor r) (wr_currency r)) (\<lambda>m.
      Wallet_Rehydrate (wr_id r) (wr_player_id r) m (wr_version r) (wr_created_at r) (wr_updated_at r))"

definition walletRepo_Get :: "uuid \<Rightarrow> (db, Wallet) op" where
  "walletRepo_Get i d =
    (case find (\<lambda>r. wr_id r = i) (db_wallets d) of
       None \<Rightarrow> (Inl ErrWalletNotFound, d)
     | Some r \<Rightarrow> (walletRepo_scan r, d))"

text \<open>\<^verbatim>\<open>FOR UPDATE\<close> adds the row lock; what it reads is the same.\<close>

definition walletRepo_GetForUpdate :: "uuid \<Rightarrow> (db, Wallet) op" where
  "walletRepo_GetForUpdate i d =
    (case find (\<lambda>r. wr_id r = i) (db_wallets d) of
       None \<Rightarrow> (Inl ErrWalletNotFound, d)
     | Some r \<Rightarrow> (walletRepo_scan r, d))"

definition walletRepo_Update :: "Wallet \<Rightarrow> int64 \<Rightarrow> (db, unit) op" where
  "walletRepo_Update w expectedVersion d =
    (case sql_update_wallet (w_id w) (m_minor (w_balance w)) (w_version w) (w_updatedAt w)
        expectedVersion d of
       (Inl e, d') \<Rightarrow> (Inl e, d')
     | (Inr n, d') \<Rightarrow> (if n \<noteq> 1 then Inl ErrConcurrentModification else Inr (), d'))"

subsection \<open>Transactions\<close>

definition tx_checks :: "tx_row \<Rightarrow> (string \<times> bool) list" where
  "tx_checks r =
    [(''wager_transactions_amount_minor_check'', 0 \<le> sint (tr_amount_minor r)),
     (''wager_transactions_amount_policy'',
       (tr_kind r = ''LOSS'' \<and> tr_amount_minor r = 0) \<or>
       (tr_kind r \<noteq> ''LOSS'' \<and> 0 < sint (tr_amount_minor r))),
     (''wager_transactions_currency_check'', currencyPattern (tr_currency r)),
     (''wager_transactions_external_metadata'',
       (tr_origin r = ''EXTERNAL'' \<and> tr_provider_id r \<noteq> None \<and>
        tr_external_transaction_id r \<noteq> None \<and> tr_idempotency_key r \<noteq> None \<and>
        tr_payload_hash r \<noteq> None \<and> tr_round_id r \<noteq> None \<and> tr_game_id r \<noteq> None) \<or>
       (tr_origin r = ''INTERNAL'' \<and> tr_provider_id r = None \<and>
        tr_external_transaction_id r = None \<and> tr_idempotency_key r = None \<and>
        tr_payload_hash r = None \<and> tr_round_id r = None \<and> tr_game_id r = None \<and>
        tr_reference_external r = None \<and> tr_reference_id r = None)),
     (''wager_transactions_kind_check'',
       tr_kind r \<in> {''OPENING'', ''BET'', ''WIN'', ''LOSS'', ''REFUND'', ''ROLLBACK''}),
     (''wager_transactions_origin_check'', tr_origin r \<in> {''INTERNAL'', ''EXTERNAL''}),
     (''wager_transactions_origin_kind'',
       (tr_origin r = ''INTERNAL'' \<and> tr_kind r = ''OPENING'') \<or>
       (tr_origin r = ''EXTERNAL'' \<and> tr_kind r \<noteq> ''OPENING'')),
     (''wager_transactions_reference_attempts_check'', 0 \<le> sint (tr_reference_attempts r)),
     (''wager_transactions_result_balance_minor_check'',
       (case tr_result_balance_minor r of None \<Rightarrow> True | Some b \<Rightarrow> 0 \<le> sint b)),
     (''wager_transactions_reversal_reference'',
       tr_kind r \<notin> {''REFUND'', ''ROLLBACK''} \<or> tr_reference_external r \<noteq> None),
     (''wager_transactions_status_check'',
       tr_status r \<in> {''PENDING'', ''PENDING_REFERENCE'', ''PROCESSED'', ''REJECTED'', ''FAILED''}),
     (''wager_transactions_terminal_shape'',
       (tr_status r = ''PROCESSED'' \<and> tr_result_balance_minor r \<noteq> None \<and>
        tr_failure_code r = None \<and> tr_processed_at r \<noteq> None) \<or>
       (tr_status r = ''REJECTED'' \<and> tr_failure_code r \<noteq> None \<and> tr_processed_at r \<noteq> None) \<or>
       (tr_status r = ''FAILED'' \<and> tr_failure_code r \<noteq> None \<and> tr_processed_at r \<noteq> None) \<or>
       (tr_status r = ''PENDING_REFERENCE'' \<and> tr_next_retry_at r \<noteq> None \<and>
        0 < sint (tr_reference_attempts r)) \<or>
       tr_status r = ''PENDING'')]"

text \<open>A row is a successful reversal: the condition of the partial index.\<close>

definition reversal_row :: "tx_row \<Rightarrow> bool" where
  "reversal_row r \<longleftrightarrow> tr_status r = ''PROCESSED'' \<and> tr_kind r \<in> {''REFUND'', ''ROLLBACK''}"

text \<open>The unique index that a row would violate against the others.\<close>

definition tx_conflict :: "tx_row \<Rightarrow> tx_row list \<Rightarrow> string option" where
  "tx_conflict r others =
    (if \<exists>u \<in> set others. tr_id u = tr_id r then Some ''wager_transactions_pkey''
     else if tr_origin r = ''EXTERNAL'' \<and> (\<exists>u \<in> set others. tr_origin u = ''EXTERNAL'' \<and>
         tr_provider_id u = tr_provider_id r \<and> tr_idempotency_key u = tr_idempotency_key r)
       then Some ''wager_transactions_provider_key_unique''
     else if tr_origin r = ''EXTERNAL'' \<and> (\<exists>u \<in> set others. tr_origin u = ''EXTERNAL'' \<and>
         tr_provider_id u = tr_provider_id r \<and>
         tr_external_transaction_id u = tr_external_transaction_id r)
       then Some ''wager_transactions_provider_external_unique''
     else if tr_kind r = ''OPENING'' \<and> (\<exists>u \<in> set others. tr_kind u = ''OPENING'' \<and>
         tr_wallet_id u = tr_wallet_id r)
       then Some ''wager_transactions_opening_unique''
     else if reversal_row r \<and> tr_reference_id r \<noteq> None \<and>
         (\<exists>u \<in> set others. reversal_row u \<and> tr_reference_id u = tr_reference_id r)
       then Some ''wager_transactions_single_reversal''
     else None)"

definition tx_foreign :: "tx_row \<Rightarrow> wallet_row list \<Rightarrow> tx_row list \<Rightarrow> string option" where
  "tx_foreign r ws txs =
    (if \<not> (\<exists>u \<in> set ws. wr_id u = tr_wallet_id r) then Some ''wager_transactions_wallet_id_fkey''
     else if (case tr_reference_id r of None \<Rightarrow> False | Some i \<Rightarrow> \<not> (\<exists>u \<in> set txs. tr_id u = i))
       then Some ''wager_transactions_reference_transaction_id_fkey''
     else None)"

text \<open>A Go int that the INTEGER column cannot hold is refused by the driver.\<close>

definition fits_int4 :: "int64 \<Rightarrow> bool" where
  "fits_int4 n \<longleftrightarrow> - 2147483648 \<le> sint n \<and> sint n \<le> 2147483647"

definition row_texts :: "tx_row \<Rightarrow> string list" where
  "row_texts r = map derefStr
    [tr_provider_id r, tr_external_transaction_id r, tr_idempotency_key r, tr_payload_hash r,
     tr_round_id r, tr_game_id r, tr_reference_external r, tr_failure_code r, tr_correlation_id r]"

definition sql_insert_tx :: "tx_row \<Rightarrow> (db, unit) op" where
  "sql_insert_tx r d =
    (if \<not> fits_int4 (tr_reference_attempts r) then (Inl ErrDriver, d)
     else if \<not> texts_ok (row_texts r) then (Inl text_error, d)
     else
       (case violated (tx_checks r) of
          Some c \<Rightarrow> (Inl (ErrPg ''23514'' c), d)
        | None \<Rightarrow>
            (case tx_conflict r (db_txs d) of
               Some c \<Rightarrow> (Inl (ErrPg ''23505'' c), d)
             | None \<Rightarrow>
                 (case tx_foreign r (db_wallets d) (db_txs d @ [r]) of
                    Some c \<Rightarrow> (Inl (ErrPg ''23503'' c), d)
                  | None \<Rightarrow> (Inr (), d\<lparr>db_txs := db_txs d @ [r]\<rparr>)))))"

text \<open>The trigger \<^verbatim>\<open>wager_transactions_guard\<close>: a terminal row is frozen. The identity columns
  it also protects are not among those that the statement writes.\<close>

definition guard_trigger :: "tx_row \<Rightarrow> bool" where
  "guard_trigger old \<longleftrightarrow> tr_status old \<notin> {''PROCESSED'', ''REJECTED'', ''FAILED''}"

text \<open>\<^verbatim>\<open>UPDATE wager_transactions ... WHERE id = $1\<close>: the number of rows it changed.\<close>

definition sql_update_tx :: "uuid \<Rightarrow> (tx_row \<Rightarrow> tx_row) \<Rightarrow> (db, nat) op" where
  "sql_update_tx i upd d =
    (case find (\<lambda>u. tr_id u = i) (db_txs d) of
       None \<Rightarrow> (Inr 0, d)
     | Some old \<Rightarrow>
         let new = upd old; others = filter (\<lambda>u. tr_id u \<noteq> i) (db_txs d) in
         if \<not> fits_int4 (tr_reference_attempts new) then (Inl ErrDriver, d)
         else if \<not> texts_ok (row_texts new) then (Inl text_error, d)
         else if \<not> guard_trigger old then (Inl (ErrPg ''23001'' ''''), d)
         else
           (case violated (tx_checks new) of
              Some c \<Rightarrow> (Inl (ErrPg ''23514'' c), d)
            | None \<Rightarrow>
                (case tx_conflict new others of
                   Some c \<Rightarrow> (Inl (ErrPg ''23505'' c), d)
                 | None \<Rightarrow>
                     (case tx_foreign new (db_wallets d) (db_txs d) of
                        Some c \<Rightarrow> (Inl (ErrPg ''23503'' c), d)
                      | None \<Rightarrow>
                          (Inr 1, d\<lparr>db_txs := map (\<lambda>u. if tr_id u = i then new else u) (db_txs d)\<rparr>)))))"

definition row_of_snapshot :: "Snapshot \<Rightarrow> tx_row" where
  "row_of_snapshot s =
    \<lparr>tr_id = s_ID s, tr_origin = s_Origin s, tr_provider_id = nullStr (s_ProviderID s),
     tr_external_transaction_id = nullStr (s_ExternalTransactionID s),
     tr_idempotency_key = nullStr (s_IdempotencyKey s), tr_payload_hash = nullStr (s_PayloadHash s),
     tr_wallet_id = s_WalletID s, tr_player_id = s_PlayerID s, tr_round_id = nullStr (s_RoundID s),
     tr_game_id = nullStr (s_GameID s), tr_kind = s_Kind s, tr_amount_minor = m_minor (s_Money s),
     tr_currency = m_currency (s_Money s),
     tr_reference_external = nullStr (s_ReferenceExternalID s), tr_reference_id = s_ReferenceID s,
     tr_status = s_Status s, tr_failure_code = nullStr (s_FailureCode s),
     tr_result_balance_minor = map_option m_minor (s_ResultBalance s),
     tr_reference_attempts = s_ReferenceAttempts s,
     tr_next_retry_at = map_option pg_time (s_NextReferenceRetryAt s),
     tr_correlation_id = nullStr (s_CorrelationID s), tr_created_at = pg_time (s_CreatedAt s),
     tr_updated_at = pg_time (s_UpdatedAt s), tr_processed_at = map_option pg_time (s_ProcessedAt s)\<rparr>"

definition transactionRepo_Insert :: "Transaction \<Rightarrow> (db, unit) op" where
  "transactionRepo_Insert t d =
    (case sql_insert_tx (row_of_snapshot (Snapshot_of t)) d of
       (Inl e, d') \<Rightarrow> (Inl (if isUniqueViolation e '''' then ErrDuplicateTransaction else e), d')
     | (Inr _, d') \<Rightarrow> (Inr (), d'))"

definition update_row :: "Snapshot \<Rightarrow> tx_row \<Rightarrow> tx_row" where
  "update_row s old = old
    \<lparr>tr_reference_id := s_ReferenceID s, tr_status := s_Status s,
     tr_failure_code := nullStr (s_FailureCode s),
     tr_result_balance_minor := map_option m_minor (s_ResultBalance s),
     tr_reference_attempts := s_ReferenceAttempts s,
     tr_next_retry_at := map_option pg_time (s_NextReferenceRetryAt s),
     tr_updated_at := pg_time (s_UpdatedAt s),
     tr_processed_at := map_option pg_time (s_ProcessedAt s)\<rparr>"

definition transactionRepo_Update :: "Transaction \<Rightarrow> (db, unit) op" where
  "transactionRepo_Update t d =
    (case sql_update_tx (t_id t) (update_row (Snapshot_of t)) d of
       (Inl e, d') \<Rightarrow> (Inl (if isUniqueViolation e '''' then ErrDuplicateTransaction else e), d')
     | (Inr n, d') \<Rightarrow> (if n \<noteq> 1 then Inl ErrTransactionNotFound else Inr (), d'))"

text \<open>\<^verbatim>\<open>scan\<close>: the result balance is read in the currency of the transaction.\<close>

definition transactionRepo_scan :: "tx_row \<Rightarrow> error + Transaction" where
  "transactionRepo_scan r =
    rbind (FromMinor (tr_amount_minor r) (tr_currency r)) (\<lambda>m.
    rbind (case tr_result_balance_minor r of
             None \<Rightarrow> Inr None
           | Some b \<Rightarrow> rbind (FromMinor b (tr_currency r)) (\<lambda>rb. Inr (Some rb))) (\<lambda>result.
    Rehydrate
      \<lparr>s_ID = tr_id r, s_Origin = tr_origin r, s_ProviderID = derefStr (tr_provider_id r),
       s_ExternalTransactionID = derefStr (tr_external_transaction_id r),
       s_IdempotencyKey = derefStr (tr_idempotency_key r),
       s_PayloadHash = derefStr (tr_payload_hash r), s_WalletID = tr_wallet_id r,
       s_PlayerID = tr_player_id r, s_RoundID = derefStr (tr_round_id r),
       s_GameID = derefStr (tr_game_id r), s_Kind = tr_kind r, s_Money = m,
       s_ReferenceExternalID = derefStr (tr_reference_external r),
       s_ReferenceID = tr_reference_id r, s_Status = tr_status r,
       s_FailureCode = derefStr (tr_failure_code r), s_ResultBalance = result,
       s_ReferenceAttempts = tr_reference_attempts r, s_NextReferenceRetryAt = tr_next_retry_at r,
       s_CorrelationID = derefStr (tr_correlation_id r), s_CreatedAt = tr_created_at r,
       s_UpdatedAt = tr_updated_at r, s_ProcessedAt = tr_processed_at r\<rparr>))"

text \<open>A query for one row: not found, or the row scanned.\<close>

definition query_tx :: "string list \<Rightarrow> (tx_row \<Rightarrow> bool) \<Rightarrow> (db, Transaction) op" where
  "query_tx params cond d =
    (if \<not> texts_ok params then (Inl text_error, d)
     else
       (case find cond (db_txs d) of
          None \<Rightarrow> (Inl ErrTransactionNotFound, d)
        | Some r \<Rightarrow> (transactionRepo_scan r, d)))"

definition transactionRepo_Get :: "uuid \<Rightarrow> (db, Transaction) op" where
  "transactionRepo_Get i = query_tx [] (\<lambda>r. tr_id r = i)"

definition transactionRepo_FindByIdempotencyKey :: "string \<Rightarrow> string \<Rightarrow> (db, Transaction) op" where
  "transactionRepo_FindByIdempotencyKey p k =
    query_tx [p, k] (\<lambda>r. tr_origin r = ''EXTERNAL'' \<and> tr_provider_id r = Some p \<and>
      tr_idempotency_key r = Some k)"

definition transactionRepo_FindByExternalID :: "string \<Rightarrow> string \<Rightarrow> (db, Transaction) op" where
  "transactionRepo_FindByExternalID p x =
    query_tx [p, x] (\<lambda>r. tr_origin r = ''EXTERNAL'' \<and> tr_provider_id r = Some p \<and>
      tr_external_transaction_id r = Some x)"

definition transactionRepo_HasProcessedReversal :: "uuid \<Rightarrow> (db, bool) op" where
  "transactionRepo_HasProcessedReversal i d =
    (Inr (\<exists>r \<in> set (db_txs d). tr_reference_id r = Some i \<and> reversal_row r), d)"

definition due_row :: "time \<Rightarrow> tx_row \<Rightarrow> bool" where
  "due_row now r \<longleftrightarrow> tr_status r = ''PENDING_REFERENCE'' \<and>
    (case tr_next_retry_at r of None \<Rightarrow> False | Some n \<Rightarrow> n \<le> now)"

text \<open>\<^verbatim>\<open>ORDER BY next_reference_retry_at LIMIT 1\<close>.\<close>

fun earliest :: "tx_row list \<Rightarrow> tx_row option" where
  "earliest [] = None"
| "earliest (r # rs) =
    (case earliest rs of
       None \<Rightarrow> Some r
     | Some q \<Rightarrow> if the (tr_next_retry_at q) < the (tr_next_retry_at r) then Some q else Some r)"

text \<open>\<^verbatim>\<open>FOR UPDATE SKIP LOCKED\<close>: the rows that other transactions have locked are the first
  argument.\<close>

definition claim_due_skipping :: "uuid list \<Rightarrow> time \<Rightarrow> (db, Transaction) op" where
  "claim_due_skipping locked now d =
    (case earliest (filter (\<lambda>r. due_row (pg_time now) r \<and> tr_id r \<notin> set locked) (db_txs d)) of
       None \<Rightarrow> (Inl ErrTransactionNotFound, d)
     | Some r \<Rightarrow> (transactionRepo_scan r, d))"

definition transactionRepo_ClaimDuePendingReference :: "time \<Rightarrow> (db, Transaction) op" where
  "transactionRepo_ClaimDuePendingReference = claim_due_skipping []"

end
