(* ===== verification/PostgresLog.thy ===== *)
theory PostgresLog
  imports Postgres
begin

text \<open>
  The append-only side of the database: the ledger, the outbox and the inbox, the \<^verbatim>\<open>Store\<close>
  that groups all repositories (\<^verbatim>\<open>uow.go\<close>), and the classification of errors of
  \<^verbatim>\<open>pool.go\<close>.
\<close>

subsection \<open>Ledger\<close>

text \<open>The arithmetic CHECK, on integers: where the sum leaves BIGINT PostgreSQL reports the overflow
  instead of the violation.\<close>

definition ledger_checks :: "ledger_row \<Rightarrow> (string \<times> bool) list" where
  "ledger_checks r =
    [(''wallet_ledger_entries_amount_minor_check'', 0 < sint (gr_amount_minor r)),
     (''wallet_ledger_entries_arithmetic'',
       (gr_direction r = ''CREDIT'' \<and>
        sint (gr_after_minor r) = sint (gr_before_minor r) + sint (gr_amount_minor r)) \<or>
       (gr_direction r = ''DEBIT'' \<and>
        sint (gr_after_minor r) = sint (gr_before_minor r) - sint (gr_amount_minor r))),
     (''wallet_ledger_entries_balance_after_minor_check'', 0 \<le> sint (gr_after_minor r)),
     (''wallet_ledger_entries_balance_before_minor_check'', 0 \<le> sint (gr_before_minor r)),
     (''wallet_ledger_entries_direction_check'', gr_direction r \<in> {''DEBIT'', ''CREDIT''})]"

definition ledger_conflict :: "ledger_row \<Rightarrow> ledger_row list \<Rightarrow> string option" where
  "ledger_conflict r others =
    (if \<exists>u \<in> set others. gr_seq u = gr_seq r then Some ''wallet_ledger_entries_pkey''
     else if \<exists>u \<in> set others. gr_id u = gr_id r then Some ''wallet_ledger_entries_id_key''
     else if \<exists>u \<in> set others. gr_wallet_id u = gr_wallet_id r \<and>
         gr_transaction_id u = gr_transaction_id r
       then Some ''wallet_ledger_entries_wallet_tx_unique''
     else None)"

definition ledger_foreign :: "ledger_row \<Rightarrow> wallet_row list \<Rightarrow> tx_row list \<Rightarrow> string option" where
  "ledger_foreign r ws txs =
    (if \<not> (\<exists>u \<in> set ws. wr_id u = gr_wallet_id r) then Some ''wallet_ledger_entries_wallet_id_fkey''
     else if \<not> (\<exists>u \<in> set txs. tr_id u = gr_transaction_id r)
       then Some ''wallet_ledger_entries_transaction_id_fkey''
     else None)"

text \<open>The row's \<^verbatim>\<open>seq\<close> is filled from the sequence, which ends at the last BIGINT.\<close>

definition sql_insert_ledger :: "ledger_row \<Rightarrow> (db, unit) op" where
  "sql_insert_ledger r0 d =
    (if db_seq d = MaxInt64 then (Inl (ErrPg ''2200H'' ''''), d)
     else
       let r = r0\<lparr>gr_seq := db_seq d + 1\<rparr> in
       (case violated (ledger_checks r) of
          Some c \<Rightarrow> (Inl (ErrPg ''23514'' c), d)
        | None \<Rightarrow>
            (case ledger_conflict r (db_ledger d) of
               Some c \<Rightarrow> (Inl (ErrPg ''23505'' c), d)
             | None \<Rightarrow>
                 (case ledger_foreign r (db_wallets d) (db_txs d) of
                    Some c \<Rightarrow> (Inl (ErrPg ''23503'' c), d)
                  | None \<Rightarrow> (Inr (), d\<lparr>db_ledger := db_ledger d @ [r], db_seq := gr_seq r\<rparr>)))))"

definition ledgerRepo_Append :: "LedgerEntry \<Rightarrow> (db, unit) op" where
  "ledgerRepo_Append e d =
    (case sql_insert_ledger
        \<lparr>gr_seq = 0, gr_id = l_id e, gr_wallet_id = l_walletID e,
         gr_transaction_id = l_transactionID e, gr_direction = Direction_string (l_direction e),
         gr_amount_minor = m_minor (l_amount e), gr_before_minor = m_minor (l_balanceBefore e),
         gr_after_minor = m_minor (l_balanceAfter e), gr_currency = m_currency (l_amount e),
         gr_created_at = pg_time (l_createdAt e)\<rparr> d of
       (Inl err, d') \<Rightarrow> (Inl (if isUniqueViolation err '''' then ErrDuplicateTransaction else err), d')
     | (Inr _, d') \<Rightarrow> (Inr (), d'))"

definition ledgerRepo_scan :: "ledger_row \<Rightarrow> error + LedgerRecord" where
  "ledgerRepo_scan r =
    rbind (MustFromMinor (gr_amount_minor r) (gr_currency r)) (\<lambda>amount.
    rbind (MustFromMinor (gr_before_minor r) (gr_currency r)) (\<lambda>bef.
    rbind (MustFromMinor (gr_after_minor r) (gr_currency r)) (\<lambda>after.
    rbind (NewLedgerEntry (gr_id r) (gr_wallet_id r) (gr_transaction_id r) (gr_direction r)
             amount bef after (gr_created_at r)) (\<lambda>entry.
    Inr \<lparr>lr_Seq = gr_seq r, lr_Entry = entry\<rparr>))))"

text \<open>The loop over the rows stops at the first that cannot be read.\<close>

fun scan_all :: "('r \<Rightarrow> error + 'a) \<Rightarrow> 'r list \<Rightarrow> error + 'a list" where
  "scan_all f [] = Inr []"
| "scan_all f (r # rs) = rbind (f r) (\<lambda>a. rbind (scan_all f rs) (\<lambda>as. Inr (a # as)))"

definition ledgerRepo_List :: "uuid \<Rightarrow> int64 \<Rightarrow> int64 \<Rightarrow> (db, LedgerRecord list) op" where
  "ledgerRepo_List walletID afterSeq limit d =
    (if sint limit < 0 then (Inl (ErrPg ''2201W'' ''''), d)
     else
       (scan_all ledgerRepo_scan
          (take (nat (sint limit))
            (sort_key (\<lambda>r. sint (gr_seq r))
              (filter (\<lambda>r. gr_wallet_id r = walletID \<and> sint afterSeq < sint (gr_seq r))
                (db_ledger d)))), d))"

definition sum_minor :: "string \<Rightarrow> ledger_row list \<Rightarrow> int" where
  "sum_minor dir rs =
    sum_list (map (\<lambda>r. sint (gr_amount_minor r)) (filter (\<lambda>r. gr_direction r = dir) rs))"

text \<open>The sums are numeric; the cast to BIGINT fails when one does not fit.\<close>

definition ledgerRepo_Totals :: "uuid \<Rightarrow> (db, LedgerTotals) op" where
  "ledgerRepo_Totals walletID d =
    (let rs = filter (\<lambda>r. gr_wallet_id r = walletID) (db_ledger d);
         credits = sum_minor ''CREDIT'' rs; debits = sum_minor ''DEBIT'' rs
     in
     if \<not> fits64 credits \<or> \<not> fits64 debits then (Inl (ErrPg ''22003'' ''''), d)
     else (Inr \<lparr>lt_Credits = word_of_int credits, lt_Debits = word_of_int debits,
                lt_Count = word_of_int (int (length rs))\<rparr>, d))"

subsection \<open>Outbox\<close>

definition outboxRepo_Add :: "Envelope \<Rightarrow> (db, unit) op" where
  "outboxRepo_Add ev d =
    (case Marshal ev of
       Inl e \<Rightarrow> (Inl e, d)
     | Inr payload \<Rightarrow>
         if \<exists>u \<in> set (db_outbox d). xr_event_id u = ev_EventID ev
         then (Inl (ErrPg ''23505'' ''outbox_events_pkey''), d)
         else (Inr (), d\<lparr>db_outbox := db_outbox d @
           [\<lparr>xr_event_id = ev_EventID ev, xr_aggregate_type = ev_AggregateType ev,
             xr_aggregate_id = ev_AggregateID ev, xr_event_type = ev_EventType ev,
             xr_payload = payload, xr_occurred_at = pg_time (ev_OccurredAt ev),
             xr_created_at = db_now d, xr_attempts = 0, xr_next_attempt_at = db_now d,
             xr_locked_by = None, xr_locked_until = None, xr_published_at = None,
             xr_last_error = None\<rparr>]\<rparr>))"

definition claimable :: "time \<Rightarrow> outbox_row \<Rightarrow> bool" where
  "claimable now r \<longleftrightarrow> xr_published_at r = None \<and> xr_next_attempt_at r \<le> now \<and>
    (case xr_locked_until r of None \<Rightarrow> True | Some u \<Rightarrow> u < now)"

text \<open>The ids of the rows that the sub-select leases: the first of them by next attempt, then by
  creation.\<close>

definition claim_ids :: "time \<Rightarrow> nat \<Rightarrow> outbox_row list \<Rightarrow> uuid list" where
  "claim_ids now limit rows =
    map xr_event_id (take limit
      (sort_key xr_next_attempt_at (sort_key xr_created_at (filter (claimable now) rows))))"

definition lease_row :: "string \<Rightarrow> time \<Rightarrow> outbox_row \<Rightarrow> outbox_row" where
  "lease_row publisherID lockedUntil r =
    r\<lparr>xr_locked_by := Some publisherID, xr_locked_until := Some lockedUntil,
      xr_attempts := xr_attempts r + 1\<rparr>"

definition outbox_record :: "outbox_row \<Rightarrow> OutboxRecord" where
  "outbox_record r =
    \<lparr>or_EventID = xr_event_id r, or_AggregateID = xr_aggregate_id r,
     or_EventType = xr_event_type r, or_Payload = xr_payload r, or_Attempts = xr_attempts r,
     or_OccurredAt = xr_occurred_at r\<rparr>"

text \<open>The order of \<^verbatim>\<open>RETURNING\<close> is not specified; here it is that of the table.\<close>

text \<open>\<^verbatim>\<open>FOR UPDATE SKIP LOCKED\<close>: the rows that other transactions have locked are the first
  argument.\<close>

definition claim_skipping ::
  "uuid list \<Rightarrow> string \<Rightarrow> time \<Rightarrow> int64 \<Rightarrow> int64 \<Rightarrow> (db, OutboxRecord list) op" where
  "claim_skipping locked publisherID now lease limit d =
    (if sint limit < 0 then (Inl (ErrPg ''2201W'' ''''), d)
     else
       let ids = claim_ids (pg_time now) (nat (sint limit))
             (filter (\<lambda>r. xr_event_id r \<notin> set locked) (db_outbox d));
           upd = (\<lambda>r. if xr_event_id r \<in> set ids
                      then lease_row publisherID (pg_time (now + sint lease)) r else r);
           rows = map upd (db_outbox d);
           claimed = filter (\<lambda>r. xr_event_id r \<in> set ids) rows
       in if list_ex (\<lambda>r. \<not> fits_int4 (xr_attempts r)) claimed
          then (Inl (ErrPg ''22003'' ''''), d)
          else (Inr (map outbox_record claimed), d\<lparr>db_outbox := rows\<rparr>))"

definition outboxRepo_Claim ::
  "string \<Rightarrow> time \<Rightarrow> int64 \<Rightarrow> int64 \<Rightarrow> (db, OutboxRecord list) op" where
  "outboxRepo_Claim = claim_skipping []"

lemma outboxRepo_Claim_eq:
  "outboxRepo_Claim publisherID now lease limit d =
    (if sint limit < 0 then (Inl (ErrPg ''2201W'' ''''), d)
     else
       let ids = claim_ids (pg_time now) (nat (sint limit)) (db_outbox d);
           upd = (\<lambda>r. if xr_event_id r \<in> set ids
                      then lease_row publisherID (pg_time (now + sint lease)) r else r);
           rows = map upd (db_outbox d);
           claimed = filter (\<lambda>r. xr_event_id r \<in> set ids) rows
       in if list_ex (\<lambda>r. \<not> fits_int4 (xr_attempts r)) claimed
          then (Inl (ErrPg ''22003'' ''''), d)
          else (Inr (map outbox_record claimed), d\<lparr>db_outbox := rows\<rparr>))"
  by (simp add: outboxRepo_Claim_def claim_skipping_def)

definition publish_row :: "time \<Rightarrow> outbox_row \<Rightarrow> outbox_row" where
  "publish_row now r =
    r\<lparr>xr_published_at := Some (pg_time now), xr_locked_until := None, xr_last_error := None\<rparr>"

definition outboxRepo_MarkPublished :: "uuid \<Rightarrow> time \<Rightarrow> (db, unit) op" where
  "outboxRepo_MarkPublished eventID now d =
    (Inr (), d\<lparr>db_outbox := map (\<lambda>r.
       if xr_event_id r = eventID \<and> xr_published_at r = None then publish_row now r else r)
       (db_outbox d)\<rparr>)"

definition outboxRepo_MarkPublishedBatch :: "uuid list \<Rightarrow> time \<Rightarrow> (db, unit) op" where
  "outboxRepo_MarkPublishedBatch eventIDs now d =
    (if eventIDs = [] then (Inr (), d)
     else (Inr (), d\<lparr>db_outbox := map (\<lambda>r.
       if xr_event_id r \<in> set eventIDs \<and> xr_published_at r = None then publish_row now r else r)
       (db_outbox d)\<rparr>))"

text \<open>\<^verbatim>\<open>left($3, 500)\<close> counts characters.\<close>

fun take_runes :: "nat \<Rightarrow> string \<Rightarrow> string" where
  "take_runes 0 s = []"
| "take_runes (Suc n) s =
    (let k = max 1 (rune_len s) in take k s @ take_runes n (drop k s))"

definition outboxRepo_Reschedule :: "uuid \<Rightarrow> time \<Rightarrow> string \<Rightarrow> (db, unit) op" where
  "outboxRepo_Reschedule eventID nextAttempt lastError d =
    (if \<not> texts_ok [lastError] then (Inl text_error, d)
     else (Inr (), d\<lparr>db_outbox := map (\<lambda>r.
       if xr_event_id r = eventID \<and> xr_published_at r = None
       then r\<lparr>xr_next_attempt_at := pg_time nextAttempt, xr_locked_by := None,
              xr_locked_until := None, xr_last_error := Some (take_runes 500 lastError)\<rparr>
       else r) (db_outbox d)\<rparr>))"

text \<open>\<^verbatim>\<open>now.Sub(oldest)\<close> saturates at the ends of int64.\<close>

definition time_sub :: "time \<Rightarrow> time \<Rightarrow> int64" where
  "time_sub a b = word_of_int (max min_int64 (min max_int64 (a - b)))"

definition outboxRepo_Lag :: "time \<Rightarrow> (db, int64 \<times> int64) op" where
  "outboxRepo_Lag now d =
    (case filter (\<lambda>r. xr_published_at r = None) (db_outbox d) of
       [] \<Rightarrow> (Inr (0, 0), d)
     | r # rs \<Rightarrow>
         (Inr (time_sub now (fold min (map xr_created_at rs) (xr_created_at r)),
               word_of_int (int (length (r # rs)))), d))"

subsection \<open>Inbox\<close>

definition inboxRepo_Record ::
  "string \<Rightarrow> string \<Rightarrow> string \<Rightarrow> time \<Rightarrow> (db, InboxResult) op" where
  "inboxRepo_Record consumer messageID payloadHash now d =
    (if \<not> texts_ok [consumer, messageID, payloadHash] then (Inl text_error, d)
     else
       (case find (\<lambda>r. nr_consumer r = consumer \<and> nr_message_id r = messageID) (db_inbox d) of
          None \<Rightarrow>
            (Inr \<lparr>ir_Inserted = True, ir_ExistingHash = ''''\<rparr>,
             d\<lparr>db_inbox := db_inbox d @
               [\<lparr>nr_consumer = consumer, nr_message_id = messageID, nr_payload_hash = payloadHash,
                 nr_received_at = pg_time now, nr_completed_at = pg_time now\<rparr>]\<rparr>)
        | Some r \<Rightarrow> (Inr \<lparr>ir_Inserted = False, ir_ExistingHash = nr_payload_hash r\<rparr>, d)))"

subsection \<open>The store\<close>

definition pgStore :: "db Store" where
  "pgStore =
    \<lparr>Wallets_Create = walletRepo_Create, Wallets_Get = walletRepo_Get,
     Wallets_GetForUpdate = walletRepo_GetForUpdate, Wallets_Update = walletRepo_Update,
     Transactions_Insert = transactionRepo_Insert, Transactions_Update = transactionRepo_Update,
     Transactions_Get = transactionRepo_Get,
     Transactions_FindByIdempotencyKey = transactionRepo_FindByIdempotencyKey,
     Transactions_FindByExternalID = transactionRepo_FindByExternalID,
     Transactions_HasProcessedReversal = transactionRepo_HasProcessedReversal,
     Transactions_ClaimDuePendingReference = transactionRepo_ClaimDuePendingReference,
     Ledger_Append = ledgerRepo_Append, Ledger_List = ledgerRepo_List,
     Ledger_Totals = ledgerRepo_Totals, Outbox_Add = outboxRepo_Add,
     Outbox_Claim = outboxRepo_Claim, Outbox_MarkPublished = outboxRepo_MarkPublished,
     Outbox_MarkPublishedBatch = outboxRepo_MarkPublishedBatch,
     Outbox_Reschedule = outboxRepo_Reschedule, Outbox_Lag = outboxRepo_Lag,
     Inbox_Record = inboxRepo_Record\<rparr>"

text \<open>The store as it is while other transactions hold locks on some rows.\<close>

definition contended :: "uuid list \<Rightarrow> db Store" where
  "contended locked = pgStore
    \<lparr>Transactions_ClaimDuePendingReference := claim_due_skipping locked,
     Outbox_Claim := claim_skipping locked\<rparr>"

lemma contended_Nil [simp]: "contended [] = pgStore"
  by (simp add: contended_def pgStore_def transactionRepo_ClaimDuePendingReference_def outboxRepo_Claim_def)

subsection \<open>Connection strings and transient errors\<close>

definition migrateDSN :: "string \<Rightarrow> string" where
  "migrateDSN dsn =
    (case find (\<lambda>p. length dsn > length p \<and> take (length p) dsn = p)
        [''postgres://'', ''postgresql://''] of
       Some p \<Rightarrow> ''pgx5://'' @ drop (length p) dsn
     | None \<Rightarrow> dsn)"

text \<open>Every error that is neither a context error nor a \<^verbatim>\<open>PgError\<close> is transient, except
  \<^verbatim>\<open>pgx.ErrNoRows\<close>, which the repositories never let out: so the sentinels of the use cases
  and of the domain are transient too, and only a nil error and the other SQLSTATEs are not.\<close>

definition transient_codes :: "string list" where
  "transient_codes = [''40001'', ''40P01'', ''55P03'', ''57014'', ''57P01'', ''57P02'', ''57P03'',
    ''08000'', ''08003'', ''08006'', ''53300'']"

definition IsTransient :: "error option \<Rightarrow> bool" where
  "IsTransient err =
    (case err of
       None \<Rightarrow> False
     | Some e \<Rightarrow>
         if e = ErrDeadlineExceeded \<or> e = ErrCanceled then True
         else (case e of ErrPg code c \<Rightarrow> code \<in> set transient_codes | _ \<Rightarrow> True))"

end
