(* ===== verification/PostgresStore.thy ===== *)
theory PostgresStore
  imports PostgresLog
begin

text \<open>
  The PostgreSQL model keeps the contract of the ports. \<^verbatim>\<open>pg_view\<close> reads the abstract content
  off the tables, \<^verbatim>\<open>pg_ok\<close> is the integrity that every statement keeps, and the
  interpretation at the end discharges the laws of the locale \<^verbatim>\<open>database\<close> for
  \<^const>\<open>pgStore\<close>, so that everything proved inside the locale holds of it.
\<close>

subsection \<open>The content of the tables\<close>

definition row_wallet :: "wallet_row \<Rightarrow> Wallet" where "row_wallet r = projr (walletRepo_scan r)"
definition row_tx :: "tx_row \<Rightarrow> Transaction" where "row_tx r = projr (transactionRepo_scan r)"
definition row_record :: "ledger_row \<Rightarrow> LedgerRecord" where "row_record r = projr (ledgerRepo_scan r)"

definition pg_view :: "db \<Rightarrow> View" where
  "pg_view d =
    \<lparr>v_wallets = (\<lambda>i. map_option row_wallet (find (\<lambda>r. wr_id r = i) (db_wallets d))),
     v_txs = map row_tx (db_txs d),
     v_ledger = map row_record (db_ledger d),
     v_outbox = map xr_payload (db_outbox d),
     v_inbox = (\<lambda>(c, m). map_option nr_payload_hash
       (find (\<lambda>r. nr_consumer r = c \<and> nr_message_id r = m) (db_inbox d)))\<rparr>"

definition stored_wallet :: "Wallet \<Rightarrow> Wallet" where
  "stored_wallet w = w\<lparr>w_createdAt := pg_time (w_createdAt w), w_updatedAt := pg_time (w_updatedAt w)\<rparr>"

definition stored_tx :: "Transaction \<Rightarrow> Transaction" where
  "stored_tx t = t
    \<lparr>t_resultBalance := map_option (\<lambda>b. b\<lparr>m_currency := m_currency (t_money t)\<rparr>) (t_resultBalance t),
     t_nextReferenceRetryAt := map_option pg_time (t_nextReferenceRetryAt t),
     t_createdAt := pg_time (t_createdAt t), t_updatedAt := pg_time (t_updatedAt t),
     t_processedAt := map_option pg_time (t_processedAt t)\<rparr>"

definition stored_entry :: "LedgerEntry \<Rightarrow> LedgerEntry" where
  "stored_entry e = e\<lparr>l_createdAt := pg_time (l_createdAt e)\<rparr>"

definition tx_row_ok :: "tx_row \<Rightarrow> bool" where
  "tx_row_ok r \<longleftrightarrow>
    transactionRepo_scan r = Inr (row_tx r) \<and> storable_tx (row_tx r) \<and>
    row_of_snapshot (Snapshot_of (row_tx r)) = r \<and> texts_ok (row_texts r)"

definition pg_ok :: "db \<Rightarrow> bool" where
  "pg_ok d \<longleftrightarrow>
    (\<forall>r \<in> set (db_wallets d). walletRepo_scan r = Inr (row_wallet r) \<and>
      pg_time (wr_created_at r) = wr_created_at r) \<and>
    distinct (map wr_id (db_wallets d)) \<and>
    (\<forall>r \<in> set (db_txs d). tx_row_ok r) \<and>
    (\<forall>r \<in> set (db_ledger d). ledgerRepo_scan r = Inr (row_record r) \<and>
      sint (gr_seq r) \<le> sint (db_seq d)) \<and>
    0 \<le> sint (db_seq d) \<and>
    (\<forall>r \<in> set (db_outbox d). ev_EventID (xr_payload r) = xr_event_id r) \<and>
    view_ok (pg_view d)"

lemma empty_db_ok: "pg_ok (empty_db now)"
  by (simp add: pg_ok_def empty_db_def view_ok_def pg_view_def unique_on_def)

subsection \<open>Time and text\<close>

lemma pg_time_idem [simp]: "pg_time (pg_time t) = pg_time t"
  by (simp add: pg_time_def mod_diff_eq [symmetric])

lemma pg_time_le: "pg_time t \<le> t"
  by (simp add: pg_time_def)

lemma pg_time_mono: "a \<le> b \<Longrightarrow> pg_time a \<le> pg_time b"
proof -
  assume "a \<le> b"
  then have "a div 1000 * 1000 \<le> b div 1000 * 1000"
    by (intro mult_right_mono zdiv_mono1) auto
  then show ?thesis by (simp add: pg_time_def minus_mod_eq_div_mult)
qed

lemma pg_time_le_iff: "pg_time n = n \<Longrightarrow> n \<le> pg_time now \<longleftrightarrow> n \<le> now"
  using pg_time_mono [of n now] pg_time_le [of now] by auto

lemma pg_time_clock: "clock_ok t \<Longrightarrow> clock_ok (pg_time t)"
  using pg_time_mono [of 1000 t] by (simp add: clock_ok_def pg_time_def)

lemma clock_nonzero: "clock_ok t \<Longrightarrow> t \<noteq> 0"
  by (auto simp: clock_ok_def)

lemma derefStr_nullStr [simp]: "derefStr (nullStr s) = s"
  by (simp add: nullStr_def derefStr_def)

lemma violated_None: "violated cs = None \<longleftrightarrow> (\<forall>(n, h) \<in> set cs. h)"
  by (auto simp: violated_def find_None_iff split: prod.splits)

subsection \<open>Reading back what was written\<close>

lemma scan_wallet:
  assumes "wallet_inv w" and "clock_ok (w_createdAt w)" and "clock_ok (w_updatedAt w)"
    and "currencyPattern (w_currency w)"
  shows "walletRepo_scan
     \<lparr>wr_id = w_id w, wr_player_id = w_playerID w, wr_currency = w_currency w,
      wr_balance_minor = m_minor (w_balance w), wr_version = w_version w,
      wr_created_at = pg_time (w_createdAt w), wr_updated_at = pg_time (w_updatedAt w)\<rparr>
    = Inr (stored_wallet w)"
proof -
  have "FromMinor (m_minor (w_balance w)) (w_currency w) = Inr (w_balance w)"
    using assms(1,4) by (cases "w_balance w") (simp add: FromMinor_def ParseCurrency_def wallet_inv_def)
  moreover have "pg_time (w_createdAt w) \<noteq> 0" "pg_time (w_updatedAt w) \<noteq> 0"
    using assms(2,3) pg_time_clock clock_nonzero by auto
  ultimately show ?thesis
    using assms(1)
    by (cases w) (auto simp: walletRepo_scan_def Wallet_Rehydrate_Inr wallet_inv_def stored_wallet_def)
qed

lemma stored_tx_inv:
  assumes "storable_tx t"
  shows "storable_tx (stored_tx t)"
proof -
  have c: "clock_ok (pg_time (t_createdAt t))" "clock_ok (pg_time (t_updatedAt t))"
    using assms pg_time_clock by (auto simp: storable_tx_def)
  then have "tx_inv (stored_tx t)"
    using assms clock_nonzero [OF c(1)] clock_nonzero [OF c(2)]
    by (cases "t_status t")
      (auto simp: storable_tx_def stored_tx_def tx_inv_def metadata_shape_def status_shape_def)
  then show ?thesis using assms c by (auto simp: storable_tx_def stored_tx_def)
qed

lemma scan_tx:
  assumes "storable_tx t" and "currencyPattern (m_currency (t_money t))"
  shows "transactionRepo_scan (row_of_snapshot (Snapshot_of t)) = Inr (stored_tx t)"
proof -
  let ?s = "Snapshot_of (stored_tx t)"
  have m: "FromMinor (m_minor (t_money t)) (m_currency (t_money t)) = Inr (t_money t)"
    using assms by (cases "t_money t")
      (simp add: FromMinor_def ParseCurrency_def storable_tx_def tx_inv_def amount_policy_def)
  have b: "(case map_option m_minor (t_resultBalance t) of
        None \<Rightarrow> Inr None
      | Some b \<Rightarrow> rbind (FromMinor b (m_currency (t_money t))) (\<lambda>rb. Inr (Some rb)))
    = Inr (t_resultBalance (stored_tx t))"
    using assms by (cases "t_resultBalance t")
      (auto simp: FromMinor_def ParseCurrency_def storable_tx_def stored_tx_def)
  have "Rehydrate ?s = Inr (stored_tx t)"
    using Rehydrate_Snapshot_ok [of "stored_tx t"] stored_tx_inv [OF assms(1)]
    by (simp add: storable_tx_def)
  then show ?thesis
    using m b by (cases "t_resultBalance t")
      (simp_all add: transactionRepo_scan_def row_of_snapshot_def Snapshot_of_def stored_tx_def)
qed

lemma scan_ledger:
  assumes "entry_inv e" and "clock_ok (l_createdAt e)" and "currencyPattern (m_currency (l_amount e))"
  shows "ledgerRepo_scan \<lparr>gr_seq = q, gr_id = l_id e, gr_wallet_id = l_walletID e,
         gr_transaction_id = l_transactionID e, gr_direction = Direction_string (l_direction e),
         gr_amount_minor = m_minor (l_amount e), gr_before_minor = m_minor (l_balanceBefore e),
         gr_after_minor = m_minor (l_balanceAfter e), gr_currency = m_currency (l_amount e),
         gr_created_at = pg_time (l_createdAt e)\<rparr>
    = Inr \<lparr>lr_Seq = q, lr_Entry = stored_entry e\<rparr>"
proof -
  have must: "MustFromMinor (m_minor m) (m_currency (l_amount e)) = Inr m"
    if "m_valid m" "m_currency m = m_currency (l_amount e)" for m
    using that assms(3) by (cases m) (simp add: MustFromMinor_def FromMinor_def ParseCurrency_def)
  have inv: "entry_inv (stored_entry e)"
    using assms(1) pg_time_clock [OF assms(2)] clock_nonzero
    by (auto simp: entry_inv_def stored_entry_def signed_amount_def)
  have "NewLedgerEntry (l_id e) (l_walletID e) (l_transactionID e) (Direction_string (l_direction e))
      (l_amount e) (l_balanceBefore e) (l_balanceAfter e) (pg_time (l_createdAt e))
    = Inr (stored_entry e)"
    using NewLedgerEntry_self [OF inv] by (simp add: stored_entry_def)
  then show ?thesis
    using assms(1) by (simp add: ledgerRepo_scan_def must entry_inv_def)
qed

subsection \<open>Integrity of a changed content\<close>

lemma unique_on_snoc:
  "unique_on P f (xs @ [x]) \<longleftrightarrow> unique_on P f xs \<and> (P x \<longrightarrow> (\<forall>y \<in> set xs. P y \<longrightarrow> f y \<noteq> f x))"
  by (auto simp: unique_on_def) (metis (mono_tags, lifting) image_eqI mem_Collect_eq)

lemma unique_on_replace:
  assumes "unique_on (\<lambda>_. True) g xs" and "unique_on P f xs"
    and "\<And>y. P x \<Longrightarrow> y \<in> set xs \<Longrightarrow> g y \<noteq> k \<Longrightarrow> P y \<Longrightarrow> f y \<noteq> f x"
  shows "unique_on P f (map (\<lambda>u. if g u = k then x else u) xs)"
  using assms
proof (induction xs)
  case Nil
  then show ?case by (simp add: unique_on_def)
next
  case (Cons a xs)
  have u: "unique_on (\<lambda>_. True) g xs" "unique_on P f xs" "g a \<notin> g ` set xs"
    using Cons.prems(1,2) by (auto simp: unique_on_def split: if_splits)
  have ih: "unique_on P f (map (\<lambda>u. if g u = k then x else u) xs)"
    using Cons.IH [OF u(1,2)] Cons.prems(3) by simp
  show ?case
  proof (cases "g a = k")
    case True
    then have "map (\<lambda>u. if g u = k then x else u) xs = xs"
      using u(3) by (intro map_idI) (auto simp: image_iff)
    moreover have "P x \<longrightarrow> (\<forall>y \<in> set xs. P y \<longrightarrow> f y \<noteq> f x)"
      using Cons.prems(3) u(3) True by (auto simp: image_iff)
    ultimately show ?thesis using True u(2) by (auto simp: unique_on_def)
  next
    case False
    have "P a \<Longrightarrow> f a \<notin> f ` set (filter P (map (\<lambda>u. if g u = k then x else u) xs))"
      using Cons.prems(2,3) False by (auto simp: unique_on_def)
    then show ?thesis using ih False by (auto simp: unique_on_def)
  qed
qed

lemma view_ok_wallets:
  "view_ok v \<Longrightarrow> wallet_inv w \<Longrightarrow> currencyPattern (w_currency w) \<Longrightarrow>
    view_ok (v\<lparr>v_wallets := (v_wallets v)(w_id w \<mapsto> w)\<rparr>)"
  by (auto simp: view_ok_def)

lemma view_ok_outbox:
  "view_ok v \<Longrightarrow> ev_EventID ev \<notin> ev_EventID ` set (v_outbox v) \<Longrightarrow>
    view_ok (v\<lparr>v_outbox := v_outbox v @ [ev]\<rparr>)"
  by (auto simp: view_ok_def unique_on_snoc image_iff)

lemma view_ok_inbox: "view_ok v \<Longrightarrow> view_ok (v\<lparr>v_inbox := ib\<rparr>)"
  by (simp add: view_ok_def)

lemma view_ok_ledger:
  assumes "view_ok v" and "entry_inv e" and "0 < sint q"
    and "\<And>r. r \<in> set (v_ledger v) \<Longrightarrow> sint (lr_Seq r) < sint q"
    and "\<And>r. r \<in> set (v_ledger v) \<Longrightarrow>
      (l_walletID (lr_Entry r), l_transactionID (lr_Entry r)) \<noteq> (l_walletID e, l_transactionID e)"
  shows "view_ok (v\<lparr>v_ledger := v_ledger v @ [\<lparr>lr_Seq = q, lr_Entry = e\<rparr>]\<rparr>)"
  using assms by (auto simp: view_ok_def unique_on_snoc sorted_wrt_append)

text \<open>The unique indexes of the transactions, as one predicate.\<close>

definition txs_unique :: "Transaction list \<Rightarrow> bool" where
  "txs_unique ts \<longleftrightarrow>
    unique_on (\<lambda>_. True) t_id ts \<and>
    unique_on (\<lambda>t. t_origin t = OriginExternal) (\<lambda>t. (t_providerID t, t_idempotencyKey t)) ts \<and>
    unique_on (\<lambda>t. t_origin t = OriginExternal) (\<lambda>t. (t_providerID t, t_externalTransactionID t)) ts \<and>
    unique_on (\<lambda>t. t_kind t = KindOpening) t_walletID ts \<and>
    unique_on (\<lambda>t. t_status t = StatusProcessed \<and> IsReversal (t_kind t) \<and> t_referenceID t \<noteq> None)
      t_referenceID ts"

definition no_clash :: "Transaction \<Rightarrow> Transaction \<Rightarrow> bool" where
  "no_clash x y \<longleftrightarrow> t_id y \<noteq> t_id x \<and>
    (t_origin x = OriginExternal \<and> t_origin y = OriginExternal \<longrightarrow>
      (t_providerID y, t_idempotencyKey y) \<noteq> (t_providerID x, t_idempotencyKey x) \<and>
      (t_providerID y, t_externalTransactionID y) \<noteq> (t_providerID x, t_externalTransactionID x)) \<and>
    (t_kind x = KindOpening \<and> t_kind y = KindOpening \<longrightarrow> t_walletID y \<noteq> t_walletID x) \<and>
    (t_status x = StatusProcessed \<and> IsReversal (t_kind x) \<and> t_referenceID x \<noteq> None \<and>
     t_status y = StatusProcessed \<and> IsReversal (t_kind y) \<longrightarrow> t_referenceID y \<noteq> t_referenceID x)"

lemma txs_unique_snoc:
  "txs_unique ts \<Longrightarrow> (\<And>y. y \<in> set ts \<Longrightarrow> no_clash x y) \<Longrightarrow> txs_unique (ts @ [x])"
  by (auto simp: txs_unique_def unique_on_snoc no_clash_def)

lemma txs_unique_replace:
  assumes "txs_unique ts" and "\<And>y. y \<in> set ts \<Longrightarrow> t_id y \<noteq> t_id x \<Longrightarrow> no_clash x y"
  shows "txs_unique (map (\<lambda>u. if t_id u = t_id x then x else u) ts)"
  using assms(1) unfolding txs_unique_def
  by (auto intro!: unique_on_replace dest!: assms(2) simp: no_clash_def)

lemma view_ok_txs:
  "view_ok v \<Longrightarrow> (\<And>t. t \<in> set ts \<Longrightarrow> tx_inv t) \<Longrightarrow> txs_unique ts \<Longrightarrow> view_ok (v\<lparr>v_txs := ts\<rparr>)"
  by (simp add: view_ok_def txs_unique_def)

lemma view_ok_unique: "view_ok v \<Longrightarrow> txs_unique (v_txs v)"
  by (simp add: view_ok_def txs_unique_def)

subsection \<open>What a row says of its value\<close>

lemma scan_wallet_facts:
  assumes "walletRepo_scan r = Inr w"
  shows "w_id w = wr_id r" "w_playerID w = wr_player_id r" "w_currency w = wr_currency r"
    "m_minor (w_balance w) = wr_balance_minor r" "m_currency (w_balance w) = wr_currency r"
    "w_version w = wr_version r" "w_createdAt w = wr_created_at r" "w_updatedAt w = wr_updated_at r"
    "wallet_inv w" "currencyPattern (wr_currency r)"
  using assms by (auto simp: walletRepo_scan_def FromMinor_Inr_iff Wallet_Rehydrate_Inr)

lemma scan_tx_facts:
  assumes "transactionRepo_scan r = Inr t"
  shows "t_id t = tr_id r" "tr_origin r = Origin_string (t_origin t)"
    "t_providerID t = derefStr (tr_provider_id r)"
    "t_externalTransactionID t = derefStr (tr_external_transaction_id r)"
    "t_idempotencyKey t = derefStr (tr_idempotency_key r)"
    "t_walletID t = tr_wallet_id r" "tr_kind r = Kind_string (t_kind t)"
    "tr_status r = Status_string (t_status t)" "t_referenceID t = tr_reference_id r"
    "t_nextReferenceRetryAt t = tr_next_retry_at r"
    "t_money t = \<lparr>m_minor = tr_amount_minor r, m_currency = tr_currency r, m_valid = True\<rparr>"
    "currencyPattern (tr_currency r)" "t_playerID t = tr_player_id r"
    "t_createdAt t = tr_created_at r" "t_correlationID t = derefStr (tr_correlation_id r)"
    "t_payloadHash t = derefStr (tr_payload_hash r)" "t_roundID t = derefStr (tr_round_id r)"
    "t_gameID t = derefStr (tr_game_id r)"
    "t_referenceExternalID t = derefStr (tr_reference_external r)"
  using assms
  by (auto simp: transactionRepo_scan_def FromMinor_eq Rehydrate_def ParseKind_Inr ParseStatus_Inr
      split: if_splits)

lemma scan_ledger_facts:
  assumes "ledgerRepo_scan r = Inr x"
  shows "lr_Seq x = gr_seq r" "l_id (lr_Entry x) = gr_id r" "l_walletID (lr_Entry x) = gr_wallet_id r"
    "l_transactionID (lr_Entry x) = gr_transaction_id r"
    "gr_direction r = Direction_string (l_direction (lr_Entry x))"
    "m_minor (l_amount (lr_Entry x)) = gr_amount_minor r"
    "entry_inv (lr_Entry x)"
proof -
  obtain a b c e where m: "MustFromMinor (gr_amount_minor r) (gr_currency r) = Inr a"
    and n: "NewLedgerEntry (gr_id r) (gr_wallet_id r) (gr_transaction_id r) (gr_direction r) a b c
      (gr_created_at r) = Inr e"
    and x: "x = \<lparr>lr_Seq = gr_seq r, lr_Entry = e\<rparr>"
    using assms by (auto simp: ledgerRepo_scan_def)
  have "m_minor a = gr_amount_minor r"
    using m by (auto simp: MustFromMinor_def FromMinor_eq split: sum.splits if_splits)
  then show "lr_Seq x = gr_seq r" "l_id (lr_Entry x) = gr_id r" "l_walletID (lr_Entry x) = gr_wallet_id r"
    "l_transactionID (lr_Entry x) = gr_transaction_id r"
    "gr_direction r = Direction_string (l_direction (lr_Entry x))"
    "m_minor (l_amount (lr_Entry x)) = gr_amount_minor r"
    "entry_inv (lr_Entry x)"
    using n [unfolded NewLedgerEntry_Inr] x by auto
qed

subsection \<open>The wallet repository\<close>

lemma find_snoc:
  "find P (xs @ [x]) = (case find P xs of None \<Rightarrow> if P x then Some x else None | Some y \<Rightarrow> Some y)"
  by (induction xs) auto

lemma find_map: "find P (map f xs) = map_option f (find (\<lambda>x. P (f x)) xs)"
  by (induction xs) auto

lemma find_unique:
  "distinct (map g xs) \<Longrightarrow> x \<in> set xs \<Longrightarrow> find (\<lambda>y. g y = g x) xs = Some x"
  by (induction xs) (auto simp: image_iff)

lemma find_SomeD: "find P xs = Some x \<Longrightarrow> x \<in> set xs \<and> P x"
  by (auto simp: find_Some_iff)

lemma find_NoneD: "find P xs = None \<Longrightarrow> x \<in> set xs \<Longrightarrow> \<not> P x"
  by (auto simp: find_None_iff)

lemma pg_wallet_row:
  assumes "pg_ok d" and "r \<in> set (db_wallets d)"
  shows "v_wallets (pg_view d) (wr_id r) = Some (row_wallet r)" and "walletRepo_scan r = Inr (row_wallet r)"
  using assms find_unique [of wr_id "db_wallets d" r] by (auto simp: pg_ok_def pg_view_def)

lemma pg_wallet_view:
  assumes "pg_ok d" and "v_wallets (pg_view d) i = Some w"
  obtains r where "r \<in> set (db_wallets d)" and "wr_id r = i" and "walletRepo_scan r = Inr w"
    and "row_wallet r = w"
proof -
  obtain r where r: "find (\<lambda>r. wr_id r = i) (db_wallets d) = Some r" "row_wallet r = w"
    using assms(2) by (auto simp: pg_view_def)
  then show ?thesis using that [of r] find_SomeD [OF r(1)] pg_wallet_row(2) [OF assms(1)] by auto
qed

lemma pg_w_create:
  "writes pg_ok pg_view (walletRepo_Create w)
     (\<lambda>v. wallet_inv w \<and> clock_ok (w_createdAt w) \<and> clock_ok (w_updatedAt w))
     (\<lambda>v _ v'. v' = v\<lparr>v_wallets := (v_wallets v)(w_id w \<mapsto> stored_wallet w)\<rparr> \<and>
       v_wallets v (w_id w) = None \<and>
       (\<forall>i u. v_wallets v i = Some u \<longrightarrow> (w_playerID u, w_currency u) \<noteq> (w_playerID w, w_currency w)))"
  unfolding writes_def
proof (intro allI impI, elim conjE)
  fix d a d'
  assume ok: "pg_ok d" and w: "wallet_inv w" "clock_ok (w_createdAt w)" "clock_ok (w_updatedAt w)"
    and c: "walletRepo_Create w d = (Inr a, d')"
  define r where "r = \<lparr>wr_id = w_id w, wr_player_id = w_playerID w, wr_currency = w_currency w,
      wr_balance_minor = m_minor (w_balance w), wr_version = w_version w,
      wr_created_at = pg_time (w_createdAt w), wr_updated_at = pg_time (w_updatedAt w)\<rparr>"
  have ins: "violated (wallet_checks r) = None" "\<forall>u \<in> set (db_wallets d). wr_id u \<noteq> wr_id r"
      "\<forall>u \<in> set (db_wallets d). \<not> (wr_player_id u = wr_player_id r \<and> wr_currency u = wr_currency r)"
      "d' = d\<lparr>db_wallets := db_wallets d @ [r]\<rparr>"
    using c unfolding walletRepo_Create_def r_def [symmetric] sql_insert_wallet_def
    by (auto split: option.splits if_splits)
  have cur: "currencyPattern (w_currency w)"
    using ins(1) by (simp add: violated_None wallet_checks_def r_def)
  have sc: "walletRepo_scan r = Inr (stored_wallet w)"
    using scan_wallet [OF w cur] by (simp add: r_def)
  then have rw: "row_wallet r = stored_wallet w" by (simp add: row_wallet_def)
  have none: "find (\<lambda>u. wr_id u = w_id w) (db_wallets d) = None"
    using ins(2) by (auto simp: find_None_iff r_def)
  have v: "pg_view d' = (pg_view d)\<lparr>v_wallets := (v_wallets (pg_view d))(w_id w \<mapsto> stored_wallet w)\<rparr>"
  proof -
    have "map_option row_wallet (find (\<lambda>u. wr_id u = i) (db_wallets d @ [r])) =
      ((v_wallets (pg_view d))(w_id w \<mapsto> stored_wallet w)) i" for i
      using none rw by (auto simp: find_snoc pg_view_def r_def split: option.splits)
    then show ?thesis by (auto simp: ins(4) pg_view_def fun_eq_iff)
  qed
  have sid: "w_id (stored_wallet w) = w_id w" "wallet_inv (stored_wallet w)"
      "currencyPattern (w_currency (stored_wallet w))"
    using scan_wallet_facts [OF sc] by (simp_all add: r_def)
  have "view_ok (pg_view d')"
    using view_ok_wallets [of "pg_view d" "stored_wallet w"] ok sid v by (simp add: pg_ok_def)
  then have "pg_ok d'"
    using ok ins sc rw by (auto simp: pg_ok_def r_def)
  moreover have "v_wallets (pg_view d) (w_id w) = None" using none by (simp add: pg_view_def)
  moreover have "(w_playerID u, w_currency u) \<noteq> (w_playerID w, w_currency w)"
    if u: "v_wallets (pg_view d) i = Some u" for i u
  proof -
    obtain q where q: "q \<in> set (db_wallets d)" "walletRepo_scan q = Inr u"
      using pg_wallet_view [OF ok u] by metis
    then show ?thesis using ins(3) scan_wallet_facts [OF q(2)] by (auto simp: r_def)
  qed
  ultimately show "pg_ok d' \<and> pg_view d' = (pg_view d)\<lparr>v_wallets :=
      (v_wallets (pg_view d))(w_id w \<mapsto> stored_wallet w)\<rparr> \<and> v_wallets (pg_view d) (w_id w) = None \<and>
      (\<forall>i u. v_wallets (pg_view d) i = Some u \<longrightarrow>
        (w_playerID u, w_currency u) \<noteq> (w_playerID w, w_currency w))"
    using v by blast
qed

lemma pg_w_get:
  "reads pg_ok pg_view (walletRepo_Get i) (\<lambda>v w. v_wallets v i = Some w)
     ErrWalletNotFound (\<lambda>v. v_wallets v i = None)"
  unfolding reads_def
proof (intro allI impI, elim conjE)
  fix d r d' assume ok: "pg_ok d" and g: "walletRepo_Get i d = (r, d')"
  show "(\<forall>a. r = Inr a \<longrightarrow> v_wallets (pg_view d) i = Some a \<and> pg_ok d' \<and> pg_view d' = pg_view d) \<and>
     (r = Inl ErrWalletNotFound \<longrightarrow> v_wallets (pg_view d) i = None \<and> pg_ok d' \<and> pg_view d' = pg_view d)"
  proof (cases "find (\<lambda>r. wr_id r = i) (db_wallets d)")
    case None
    then show ?thesis using g ok by (auto simp: walletRepo_Get_def pg_view_def)
  next
    case (Some q)
    then show ?thesis
      using g ok pg_wallet_row [OF ok, of q] find_SomeD [OF Some] by (auto simp: walletRepo_Get_def)
  qed
qed

lemma lock_is_get: "walletRepo_GetForUpdate = walletRepo_Get"
  by (simp add: fun_eq_iff walletRepo_GetForUpdate_def walletRepo_Get_def)

lemma pg_w_update:
  "writes pg_ok pg_view (walletRepo_Update w ver)
     (\<lambda>v. wallet_inv (w\<lparr>w_version := 1\<rparr>) \<and> clock_ok (w_updatedAt w) \<and>
       (\<forall>u. v_wallets v (w_id w) = Some u \<longrightarrow>
         w_playerID u = w_playerID w \<and> w_currency u = w_currency w \<and> w_createdAt u = w_createdAt w))
     (\<lambda>v _ v'. v' = v\<lparr>v_wallets := (v_wallets v)(w_id w \<mapsto> stored_wallet w)\<rparr> \<and>
       (\<exists>u. v_wallets v (w_id w) = Some u \<and> w_version u = ver))"
  unfolding writes_def
proof (intro allI impI, elim conjE)
  fix d a d'
  assume ok: "pg_ok d" and w: "wallet_inv (w\<lparr>w_version := 1\<rparr>)" "clock_ok (w_updatedAt w)"
    and same: "\<forall>u. v_wallets (pg_view d) (w_id w) = Some u \<longrightarrow>
         w_playerID u = w_playerID w \<and> w_currency u = w_currency w \<and> w_createdAt u = w_createdAt w"
    and c: "walletRepo_Update w ver d = (Inr a, d')"
  define hit where "hit = (\<lambda>u :: wallet_row. wr_id u = w_id w \<and> wr_version u = ver)"
  define upd where "upd = (\<lambda>u :: wallet_row. u\<lparr>wr_balance_minor := m_minor (w_balance w),
      wr_version := w_version w, wr_updated_at := pg_time (w_updatedAt w)\<rparr>)"
  let ?f = "\<lambda>u. if hit u then upd u else u"
  have run: "length (filter hit (db_wallets d)) = 1" "d' = d\<lparr>db_wallets := map ?f (db_wallets d)\<rparr>"
    "\<forall>u \<in> set (db_wallets d). hit u \<longrightarrow> violated (wallet_checks (upd u)) = None"
    using c unfolding walletRepo_Update_def sql_update_wallet_def Let_def hit_def [symmetric]
      upd_def [symmetric]
    by (auto split: option.splits if_splits simp: find_None_iff)
  then obtain r where r: "r \<in> set (db_wallets d)" "hit r"
    by (metis (no_types, lifting) filter_False length_greater_0_conv less_numeral_extra(1))
  then have ri: "wr_id r = w_id w" "wr_version r = ver" by (simp_all add: hit_def)
  note scr = scan_wallet_facts [OF pg_wallet_row(2) [OF ok r(1)]]
  have vr: "v_wallets (pg_view d) (w_id w) = Some (row_wallet r)"
    using pg_wallet_row(1) [OF ok r(1)] ri by simp
  have ver1: "1 \<le> sint (w_version w)"
    using run(3) r by (auto simp: violated_None wallet_checks_def upd_def)
  have eqr: "w_playerID w = wr_player_id r" "w_currency w = wr_currency r" "w_createdAt w = wr_created_at r"
    using same vr scr by auto
  have scan: "walletRepo_scan (upd r) = Inr (stored_wallet w)"
  proof -
    have "FromMinor (m_minor (w_balance w)) (wr_currency r) = Inr (w_balance w)"
      using w(1) eqr(2) scr(10) by (cases "w_balance w") (simp add: FromMinor_eq wallet_inv_def)
    moreover have "wr_created_at r = pg_time (w_createdAt w)"
      using eqr(3) ok r(1) unfolding pg_ok_def by simp
    moreover have "pg_time (w_updatedAt w) \<noteq> 0"
      using w(2) pg_time_clock clock_nonzero by auto
    ultimately show ?thesis
      using w(1) ver1 eqr ri scr
      by (cases w) (auto simp: walletRepo_scan_def upd_def Wallet_Rehydrate_Inr wallet_inv_def
          stored_wallet_def)
  qed
  then have rw: "row_wallet (upd r) = stored_wallet w" by (simp add: row_wallet_def)
  have only: "u = r" if "u \<in> set (db_wallets d)" "wr_id u = w_id w" for u
    using that r(1) ri ok unfolding pg_ok_def
    by (metis (no_types, lifting) distinct_map inj_onD)
  have fid: "wr_id (?f u) = wr_id u" for u by (simp add: upd_def)
  have v: "pg_view d' = (pg_view d)\<lparr>v_wallets := (v_wallets (pg_view d))(w_id w \<mapsto> stored_wallet w)\<rparr>"
  proof -
    have "map_option row_wallet (find (\<lambda>u. wr_id u = i) (map ?f (db_wallets d))) =
      ((v_wallets (pg_view d))(w_id w \<mapsto> stored_wallet w)) i" for i
    proof (cases "i = w_id w")
      case True
      have "find (\<lambda>u. wr_id u = i) (db_wallets d) = Some r"
        using find_unique [of wr_id "db_wallets d" r] ok r(1) ri True by (simp add: pg_ok_def)
      then show ?thesis using True r(2) rw unfolding find_map fid by simp
    next
      case False
      have "find (\<lambda>u. wr_id u = i) (db_wallets d) = Some u \<Longrightarrow> \<not> hit u" for u
        using False by (auto dest!: find_SomeD simp: hit_def)
      then show ?thesis using False unfolding find_map fid
        by (cases "find (\<lambda>u. wr_id u = i) (db_wallets d)") (auto simp: pg_view_def)
    qed
    then show ?thesis by (auto simp: run(2) pg_view_def fun_eq_iff)
  qed
  have sid: "w_id (stored_wallet w) = w_id w" "wallet_inv (stored_wallet w)"
      "currencyPattern (w_currency (stored_wallet w))"
    using scan_wallet_facts [OF scan] ri by (simp_all add: upd_def)
  have "view_ok (pg_view d')"
    using view_ok_wallets [of "pg_view d" "stored_wallet w"] ok sid v by (simp add: pg_ok_def)
  moreover have "map wr_id (map ?f (db_wallets d)) = map wr_id (db_wallets d)"
    by (simp add: upd_def)
  then have "distinct (map wr_id (map ?f (db_wallets d)))"
    using ok by (simp only: pg_ok_def)
  moreover have row: "walletRepo_scan (?f u) = Inr (row_wallet (?f u)) \<and>
      pg_time (wr_created_at (?f u)) = wr_created_at (?f u)" if "u \<in> set (db_wallets d)" for u
    using that only [OF that] scan rw pg_wallet_row(2) [OF ok that] ok
    by (auto simp: hit_def pg_ok_def upd_def)
  have "\<forall>r \<in> set (map ?f (db_wallets d)). walletRepo_scan r = Inr (row_wallet r) \<and>
      pg_time (wr_created_at r) = wr_created_at r"
  proof
    fix x assume "x \<in> set (map ?f (db_wallets d))"
    then have "x \<in> ?f ` set (db_wallets d)" by (simp only: set_map)
    then show "walletRepo_scan x = Inr (row_wallet x) \<and> pg_time (wr_created_at x) = wr_created_at x"
      by (rule imageE) (simp only: row)
  qed
  ultimately have "pg_ok d'"
    using ok run(2) by (simp del: map_map set_map add: pg_ok_def)
  then show "pg_ok d' \<and> pg_view d' = (pg_view d)\<lparr>v_wallets :=
      (v_wallets (pg_view d))(w_id w \<mapsto> stored_wallet w)\<rparr> \<and>
      (\<exists>u. v_wallets (pg_view d) (w_id w) = Some u \<and> w_version u = ver)"
    using v vr scr ri by auto
qed

end
