(* ===== verification/Service.thy ===== *)
theory Service
  imports Ports
begin

text \<open>
  \<^verbatim>\<open>internal/app/service.go\<close>: the configuration of the use cases and the retry delay of a
  transaction that waits for its reference. Durations are int64 nanoseconds. A \<^verbatim>\<open>Service\<close>
  carries its effective configuration and the two library functions the use cases call; the
  clock and the identifiers drawn during a call are arguments of that call (\<^verbatim>\<open>env\<close>), and
  metrics and logging have no effect on what is stored or returned.
\<close>


record Config =
  PendingReferenceBaseBackoff :: int64
  PendingReferenceMaxBackoff :: int64
  PendingReferenceMaxAttempts :: int64

definition DefaultConfig :: Config where
  "DefaultConfig =
    \<lparr>PendingReferenceBaseBackoff = Second, PendingReferenceMaxBackoff = Minute,
     PendingReferenceMaxAttempts = 10\<rparr>"

record Service =
  sv_cfg :: Config
  sv_uuid_string :: "uuid \<Rightarrow> string"
  sv_sha256_hex :: "string \<Rightarrow> string"

definition NewService :: "(uuid \<Rightarrow> string) \<Rightarrow> (string \<Rightarrow> string) \<Rightarrow> Config \<Rightarrow> Service" where
  "NewService us sha cfg =
    (let cfg = (if sint (PendingReferenceBaseBackoff cfg) \<le> 0
                then cfg\<lparr>PendingReferenceBaseBackoff := Second\<rparr> else cfg);
         cfg = (if sint (PendingReferenceMaxBackoff cfg) \<le> 0
                then cfg\<lparr>PendingReferenceMaxBackoff := Minute\<rparr> else cfg);
         cfg = (if sint (PendingReferenceMaxAttempts cfg) \<le> 0
                then cfg\<lparr>PendingReferenceMaxAttempts := 10\<rparr> else cfg)
     in \<lparr>sv_cfg = cfg, sv_uuid_string = us, sv_sha256_hex = sha\<rparr>)"

text \<open>The loop of \<^verbatim>\<open>backoff\<close>, with the iterations that the bound on \<^verbatim>\<open>i\<close> still allows.\<close>

fun backoff_loop :: "nat \<Rightarrow> int64 \<Rightarrow> int64 \<Rightarrow> int64" where
  "backoff_loop 0 maxd d = d"
| "backoff_loop (Suc n) maxd d = (if sint d < sint maxd then backoff_loop n maxd (d * 2) else d)"

definition backoff :: "Config \<Rightarrow> int64 \<Rightarrow> int64" where
  "backoff cfg attempt =
    (let d = backoff_loop (nat (sint attempt - 1)) (PendingReferenceMaxBackoff cfg)
               (PendingReferenceBaseBackoff cfg)
     in if sint d > sint (PendingReferenceMaxBackoff cfg) then PendingReferenceMaxBackoff cfg
        else d)"

text \<open>What one call reads from its environment: the clock, the fresh identifiers of the
  transaction and of its ledger entry, and what the event constructors draw.\<close>

record env =
  e_now :: time
  e_txID :: uuid
  e_entryID :: uuid
  e_balanceGen :: idgen
  e_outcomeGen :: idgen

subsection \<open>The configuration is usable\<close>

definition cfg_ok :: "Config \<Rightarrow> bool" where
  "cfg_ok cfg \<longleftrightarrow> 0 < sint (PendingReferenceBaseBackoff cfg) \<and>
    0 < sint (PendingReferenceMaxBackoff cfg) \<and> 0 < sint (PendingReferenceMaxAttempts cfg)"

lemma NewService_ok: "cfg_ok (sv_cfg (NewService us sha cfg))"
  by (auto simp: NewService_def cfg_ok_def Let_def)

lemma NewService_keeps: "cfg_ok cfg \<Longrightarrow> sv_cfg (NewService us sha cfg) = cfg"
  by (auto simp: NewService_def cfg_ok_def Let_def)

subsection \<open>The delay\<close>

lemma backoff_loop_value:
  assumes "0 < sint d" and "sint maxd \<le> 2 ^ 62" and "sint d \<le> 2 ^ 62"
  shows "min (sint maxd) (sint (backoff_loop n maxd d)) = min (sint maxd) (sint d * 2 ^ n)
    \<and> 0 < sint (backoff_loop n maxd d)"
  using assms
proof (induction n arbitrary: d)
  case 0
  then show ?case by simp
next
  case (Suc n)
  have grow: "x \<le> x * 2 ^ k" if "0 < x" for x :: int and k :: nat
    using mult_left_mono [of 1 "2 ^ k" x] that by simp
  show ?case
  proof (cases "sint d < sint maxd")
    case False
    then have "sint maxd \<le> sint d * 2 ^ Suc n"
      using grow [of "sint d" "Suc n"] Suc.prems(1) by linarith
    with False Suc.prems show ?thesis by simp
  next
    case True
    show ?thesis
    proof (cases "sint d * 2 \<le> 2 ^ 62")
      case le: True
      then have d2: "sint (d * 2) = sint d * 2"
        using sint_mult64 [of d 2] Suc.prems(1) by (simp add: fits64_def)
      show ?thesis using Suc.IH [of "d * 2"] True Suc.prems le d2 by (simp add: ac_simps)
    next
      case False
      have "sint d < 2 ^ 62" using True Suc.prems(2) by linarith
      then have d2: "sint (d * 2) = sint d * 2"
        using sint_mult64 [of d 2] Suc.prems(1) by (simp add: fits64_def)
      then have ge: "sint maxd \<le> sint (d * 2)" using False Suc.prems(2) by linarith
      have "backoff_loop n maxd (d * 2) = d * 2"
        using ge by (cases n) auto
      moreover have "sint maxd \<le> sint d * 2 ^ Suc n"
        using ge d2 Suc.prems(1) grow [of "sint d * 2" n] unfolding power_Suc mult.assoc [symmetric]
        by linarith
      ultimately show ?thesis using True d2 ge Suc.prems(1) by simp
    qed
  qed
qed

text \<open>C38. The retry delay is the exponential one, capped: for a base and a maximum of at most 2^62
  nanoseconds the delay of attempt n is \<^verbatim>\<open>min(max, base * 2^(n-1))\<close>, so it is positive and
  never above the maximum; the doubling never wraps around.\<close>

theorem backoff_exact:
  assumes "0 < sint (PendingReferenceBaseBackoff cfg)"
    and "0 < sint (PendingReferenceMaxBackoff cfg)"
    and "sint (PendingReferenceBaseBackoff cfg) \<le> 2 ^ 62"
    and "sint (PendingReferenceMaxBackoff cfg) \<le> 2 ^ 62"
  shows "sint (backoff cfg n) =
    min (sint (PendingReferenceMaxBackoff cfg))
      (sint (PendingReferenceBaseBackoff cfg) * 2 ^ nat (sint n - 1))
    \<and> 0 < sint (backoff cfg n)"
  using backoff_loop_value [OF assms(1,4,3), of "nat (sint n - 1)"] assms(2)
  by (auto simp: backoff_def Let_def min_def split: if_splits)

theorem backoff_exact_witness:
  "sint (backoff DefaultConfig 3) = 4000000000 \<and> sint (backoff DefaultConfig 9) = 60000000000"
  using backoff_exact [of DefaultConfig 3] backoff_exact [of DefaultConfig 9]
  by (simp add: DefaultConfig_def)

text \<open>The bound matters: with a maximum near the end of int64 the doubling wraps around and the
  delay becomes negative, so the next retry lies in the past.\<close>

lemma backoff_wraps:
  "sint (backoff \<lparr>PendingReferenceBaseBackoff = 4611686018427387904,
     PendingReferenceMaxBackoff = 9223372036854775807, PendingReferenceMaxAttempts = 10\<rparr> 2) < 0"
  by (simp add: backoff_def Let_def numeral_2_eq_2)

end
