(* ===== verification/Process.thy ===== *)
theory Process
  imports Service
begin

text \<open>
  \<^verbatim>\<open>internal/app/process.go\<close>: processing of provider operations and of the transactions that
  wait for their reference. The functions are the code's, over any \<^verbatim>\<open>Store\<close>; where the code
  mutates the transaction and the wallet behind their pointers, the functions return the new
  ones. The second half proves, once for every store that keeps the contract \<^verbatim>\<open>database\<close>,
  what they do to the content of the database.
\<close>

record ProcessCommand =
  pc_Request :: ExternalRequest
  pc_IdempotencyKey :: string
  pc_CorrelationID :: string
  pc_Source :: string

record ProcessResult =
  pr_Transaction :: Transaction
  pr_IdempotentReplay :: bool

definition allowedReference :: "Kind \<Rightarrow> Kind \<Rightarrow> bool" where
  "allowedReference kind refKind =
    (case kind of
       KindWin \<Rightarrow> refKind = KindBet
     | KindRefund \<Rightarrow> refKind = KindBet
     | KindRollback \<Rightarrow> refKind = KindBet \<or> refKind = KindWin \<or> refKind = KindRefund
     | _ \<Rightarrow> False)"

definition lookupExisting ::
  "'s Store \<Rightarrow> ProcessCommand \<Rightarrow> string \<Rightarrow> ('s, ProcessResult option) op" where
  "lookupExisting st cmd hash =
    (let req = pc_Request cmd in
     obind (otry (Transactions_FindByIdempotencyKey st (er_ProviderID req) (pc_IdempotencyKey cmd)))
       (\<lambda>r. case r of
          Inr existing \<Rightarrow>
            if t_payloadHash existing \<noteq> hash then fail ErrIdempotencyConflict
            else ok (Some \<lparr>pr_Transaction = existing, pr_IdempotentReplay = True\<rparr>)
        | Inl e \<Rightarrow>
            if e \<noteq> ErrTransactionNotFound then fail e
            else
              obind (otry (Transactions_FindByExternalID st (er_ProviderID req)
                             (er_ExternalTransactionID req)))
                (\<lambda>r. case r of
                   Inr byExt \<Rightarrow>
                     if t_idempotencyKey byExt = pc_IdempotencyKey cmd then
                       (if t_payloadHash byExt \<noteq> hash then fail ErrIdempotencyConflict
                        else ok (Some \<lparr>pr_Transaction = byExt, pr_IdempotentReplay = True\<rparr>))
                     else fail ErrExternalIDConflict
                 | Inl e \<Rightarrow> if e \<noteq> ErrTransactionNotFound then fail e else ok None)))"

definition park :: "Service \<Rightarrow> Transaction \<Rightarrow> Wallet \<Rightarrow> time \<Rightarrow> error + Transaction" where
  "park sv tx w now =
    (if sint (t_referenceAttempts tx) \<ge> sint (PendingReferenceMaxAttempts (sv_cfg sv))
     then MarkRejected tx FailureReferenceNotFound (w_balance w) now
     else
       AwaitReference tx (now + sint (backoff (sv_cfg sv) (t_referenceAttempts tx + 1))) now)"

text \<open>How the search for the reference ends: the transaction has reached a state that stops the
  processing, or the reference and the transaction that now points to it.\<close>

datatype Resolution = Done Transaction | Resolved Transaction Transaction

definition resolveReferenceTx ::
  "Service \<Rightarrow> 's Store \<Rightarrow> Transaction \<Rightarrow> Wallet \<Rightarrow> time \<Rightarrow> ('s, Resolution) op" where
  "resolveReferenceTx sv st tx w now =
    obind (otry (Transactions_FindByExternalID st (t_providerID tx) (t_referenceExternalID tx)))
      (\<lambda>r. case r of
         Inl e \<Rightarrow>
           if e = ErrTransactionNotFound then obind (lift (park sv tx w now)) (\<lambda>tx. ok (Done tx))
           else fail e
       | Inr ref \<Rightarrow>
           let reject = (\<lambda>code. obind (lift (MarkRejected tx code (w_balance w) now)) (\<lambda>tx. ok (Done tx)))
           in
           if t_status ref = StatusPending \<or> t_status ref = StatusPendingReference
             then obind (lift (park sv tx w now)) (\<lambda>tx. ok (Done tx))
           else if t_status ref \<noteq> StatusProcessed then reject FailureReferenceNotProcessed
           else if \<not> allowedReference (t_kind tx) (t_kind ref)
             then reject FailureReferenceKindMismatch
           else if t_playerID ref \<noteq> t_playerID tx \<or> t_walletID ref \<noteq> t_walletID tx \<or>
                   t_roundID ref \<noteq> t_roundID tx \<or>
                   m_currency (t_money ref) \<noteq> m_currency (t_money tx)
             then reject FailureReferenceMismatch
           else
             obind (if IsReversal (t_kind tx) then
                      (if \<not> Equal (t_money ref) (t_money tx)
                       then ok (Some FailureReferenceAmountMismatch)
                       else
                         obind (Transactions_HasProcessedReversal st (t_id ref)) (\<lambda>reversed.
                           ok (if reversed then Some FailureReferenceAlreadyReversed else None)))
                    else ok None)
               (\<lambda>bad. case bad of
                  Some code \<Rightarrow> reject code
                | None \<Rightarrow> obind (lift (ResolveReference tx (t_id ref))) (\<lambda>tx. ok (Resolved ref tx))))"

text \<open>The tail of \<^verbatim>\<open>apply\<close>: a movement that went through processes the transaction, insufficient
  funds reject it with the code of the caller where the caller asks for that, and any other error
  is returned.\<close>

definition settle ::
  "FailureCode option \<Rightarrow> Transaction \<Rightarrow> Wallet \<Rightarrow> time \<Rightarrow> error + (LedgerEntry \<times> Wallet)
    \<Rightarrow> error + (LedgerEntry option \<times> Transaction \<times> Wallet)" where
  "settle code tx w now r =
    (case r of
       Inl e \<Rightarrow>
         if e = ErrInsufficientFunds \<and> code \<noteq> None then
           rbind (MarkRejected tx (the code) (w_balance w) now) (\<lambda>tx. Inr (None, tx, w))
         else Inl e
     | Inr (entry, w) \<Rightarrow>
         rbind (MarkProcessed tx (w_balance w) now) (\<lambda>tx. Inr (Some entry, tx, w)))"

definition apply_tx ::
  "Service \<Rightarrow> 's Store \<Rightarrow> uuid \<Rightarrow> Transaction \<Rightarrow> Wallet \<Rightarrow> time
    \<Rightarrow> ('s, LedgerEntry option \<times> Transaction \<times> Wallet) op" where
  "apply_tx sv st entryID tx w now =
    (if w_playerID w \<noteq> t_playerID tx then
       lift (rbind (MarkRejected tx FailureWalletPlayerMismatch (w_balance w) now)
               (\<lambda>tx. Inr (None, tx, w)))
     else if w_currency w \<noteq> m_currency (t_money tx) then
       lift (rbind (MarkRejected tx FailureCurrencyMismatch (w_balance w) now)
               (\<lambda>tx. Inr (None, tx, w)))
     else
       (case t_kind tx of
          KindBet \<Rightarrow>
            lift (settle (Some FailureInsufficientFunds) tx w now
                    (Wallet_Debit w entryID (t_id tx) (t_money tx) now))
        | KindLoss \<Rightarrow>
            lift (rbind (MarkProcessed tx (w_balance w) now) (\<lambda>tx. Inr (None, tx, w)))
        | KindWin \<Rightarrow>
            if t_referenceExternalID tx \<noteq> '''' then
              obind (resolveReferenceTx sv st tx w now) (\<lambda>r. case r of
                Done tx \<Rightarrow> ok (None, tx, w)
              | Resolved ref tx \<Rightarrow>
                  lift (settle None tx w now (Wallet_Credit w entryID (t_id tx) (t_money tx) now)))
            else lift (settle None tx w now (Wallet_Credit w entryID (t_id tx) (t_money tx) now))
        | KindRefund \<Rightarrow>
            obind (resolveReferenceTx sv st tx w now) (\<lambda>r. case r of
              Done tx \<Rightarrow> ok (None, tx, w)
            | Resolved ref tx \<Rightarrow>
                lift (settle None tx w now (Wallet_Credit w entryID (t_id tx) (t_money tx) now)))
        | KindRollback \<Rightarrow>
            obind (resolveReferenceTx sv st tx w now) (\<lambda>r. case r of
              Done tx \<Rightarrow> ok (None, tx, w)
            | Resolved ref tx \<Rightarrow>
                if t_kind ref = KindBet then
                  lift (settle None tx w now (Wallet_Credit w entryID (t_id tx) (t_money tx) now))
                else
                  lift (settle (Some FailureReversalInsufficientFunds) tx w now
                          (Wallet_Debit w entryID (t_id tx) (t_money tx) now)))
        | KindOpening \<Rightarrow> fail ErrValidation))"

definition persistOutcome ::
  "Service \<Rightarrow> 's Store \<Rightarrow> env \<Rightarrow> Transaction \<Rightarrow> Wallet \<Rightarrow> LedgerEntry option \<Rightarrow> ('s, unit) op" where
  "persistOutcome sv st en tx w entry =
    (case t_status tx of
       StatusProcessed \<Rightarrow>
         obind
           (case entry of
              None \<Rightarrow> ok ()
            | Some e \<Rightarrow>
                obind (Ledger_Append st e) (\<lambda>_.
                obind (Wallets_Update st w (w_version w - 1)) (\<lambda>_.
                obind (lift (NewWalletBalanceChanged (sv_uuid_string sv) (e_balanceGen en) e
                               (w_version w) (t_correlationID tx))) (\<lambda>ev.
                Outbox_Add st ev))))
           (\<lambda>_.
         obind (lift (NewWagerTransactionProcessed (sv_uuid_string sv) (e_outcomeGen en) tx)) (\<lambda>ev.
         Outbox_Add st ev))
     | StatusRejected \<Rightarrow>
         obind (lift (NewWagerTransactionRejected (sv_uuid_string sv) (e_outcomeGen en) tx)) (\<lambda>ev.
         Outbox_Add st ev)
     | StatusPendingReference \<Rightarrow>
         if t_referenceAttempts tx = 1 then
           obind (lift (NewWagerTransactionPendingReference (sv_uuid_string sv) (e_outcomeGen en) tx))
             (\<lambda>ev. Outbox_Add st ev)
         else ok ()
     | _ \<Rightarrow> fail ErrInvalidTransition)"

definition ProcessIn ::
  "Service \<Rightarrow> 's Store \<Rightarrow> env \<Rightarrow> ProcessCommand \<Rightarrow> ('s, ProcessResult) op" where
  "ProcessIn sv st en cmd =
    (let req = pc_Request cmd;
         hash = PayloadHash (sv_uuid_string sv) (sv_sha256_hex sv) req
     in
     if pc_IdempotencyKey cmd = '''' then fail ErrValidation
     else
       obind (lookupExisting st cmd hash) (\<lambda>r. case r of
         Some res \<Rightarrow> ok res
       | None \<Rightarrow>
           obind (Wallets_GetForUpdate st (er_WalletID req)) (\<lambda>w.
           obind (lookupExisting st cmd hash) (\<lambda>r. case r of
             Some res \<Rightarrow> ok res
           | None \<Rightarrow>
               obind (lift (NewExternal (e_txID en) req (pc_IdempotencyKey cmd) hash
                              (pc_CorrelationID cmd) (e_now en))) (\<lambda>tx.
               obind (apply_tx sv st (e_entryID en) tx w (e_now en)) (\<lambda>(entry, tx, w).
               obind (Transactions_Insert st tx) (\<lambda>_.
               obind (persistOutcome sv st en tx w entry) (\<lambda>_.
               ok \<lparr>pr_Transaction = tx, pr_IdempotentReplay = False\<rparr>))))))))"

text \<open>\<^verbatim>\<open>Process\<close>: one unit of work, and a second one when the first lost a race on the unique
  constraints. Each run has its own environment and its own faults.\<close>

definition Process ::
  "Service \<Rightarrow> 's Store \<Rightarrow> Faults \<times> env \<Rightarrow> Faults \<times> env \<Rightarrow> ProcessCommand
    \<Rightarrow> ('s, ProcessResult) op" where
  "Process sv st first second cmd =
    (let run = (\<lambda>(f, en). uow_Do f (ProcessIn sv st en cmd)) in
     obind (otry (run first)) (\<lambda>r. case r of
       Inl e \<Rightarrow> if e = ErrDuplicateTransaction then run second else fail e
     | Inr res \<Rightarrow> ok res))"

text \<open>One iteration of the loop of \<^verbatim>\<open>ResolvePendingReferences\<close>: whether a due transaction was
  found, or the error.\<close>

definition resolveOne ::
  "Service \<Rightarrow> 's Store \<Rightarrow> time \<Rightarrow> env \<Rightarrow> ('s, bool) op" where
  "resolveOne sv st claimNow en =
    obind (otry (Transactions_ClaimDuePendingReference st claimNow)) (\<lambda>r. case r of
      Inl e \<Rightarrow> if e = ErrTransactionNotFound then ok False else fail e
    | Inr tx \<Rightarrow>
        obind (Wallets_GetForUpdate st (t_walletID tx)) (\<lambda>w.
        obind (apply_tx sv st (e_entryID en) tx w (e_now en)) (\<lambda>(entry, tx, w).
        obind (Transactions_Update st tx) (\<lambda>_.
        obind (persistOutcome sv st en tx w entry) (\<lambda>_.
        ok True)))))"

text \<open>What an iteration reads: whether the context has ended, the clock at the claim, and the
  environment and the faults of its unit of work.\<close>

record Iteration =
  i_ctxErr :: "error option"
  i_claimNow :: time
  i_env :: env
  i_faults :: Faults

text \<open>The loop runs until no transaction is due or an error ends it. The n-th iteration reads
  \<^verbatim>\<open>its n\<close>; the first argument bounds the number of iterations, and None means that the bound
  was reached.\<close>

fun ResolvePendingReferences ::
  "nat \<Rightarrow> Service \<Rightarrow> 's Store \<Rightarrow> (nat \<Rightarrow> Iteration) \<Rightarrow> nat \<Rightarrow> 's \<Rightarrow> (nat \<times> error option \<times> 's) option"
  where
  "ResolvePendingReferences 0 sv st its handled s = None"
| "ResolvePendingReferences (Suc n) sv st its handled s =
    (let it = its handled in
     case i_ctxErr it of
       Some e \<Rightarrow> Some (handled, Some e, s)
     | None \<Rightarrow>
         (case uow_Do (i_faults it) (resolveOne sv st (i_claimNow it) (i_env it)) s of
            (Inl e, s') \<Rightarrow> Some (handled, Some e, s')
          | (Inr found, s') \<Rightarrow>
              if found then ResolvePendingReferences n sv st its (Suc handled) s'
              else Some (handled, None, s')))"

end
