(* ===== verification/Outcome.thy ===== *)
theory Outcome
  imports Process
begin

text \<open>
  The abstract specification of processing one transaction: \<^verbatim>\<open>verdict\<close> is the policy, a
  decision on the content of the database, and \<^verbatim>\<open>carry_out\<close> is what each decision does to
  the transaction and the wallet. The lemmas say what every outcome keeps; the theory Processing
  proves that the code carries out the verdict.
\<close>

datatype Verdict =
    Refuse FailureCode
  | Wait
  | Keep
  | Move Direction "uuid option" "FailureCode option"

definition reference_verdict :: "View \<Rightarrow> Transaction \<Rightarrow> (Transaction \<Rightarrow> Verdict) \<Rightarrow> Verdict" where
  "reference_verdict v tx use =
    (case by_ext v (t_providerID tx) (t_referenceExternalID tx) of
       None \<Rightarrow> Wait
     | Some r \<Rightarrow>
         if \<not> IsTerminal (t_status r) then Wait
         else if t_status r \<noteq> StatusProcessed then Refuse FailureReferenceNotProcessed
         else if \<not> allowedReference (t_kind tx) (t_kind r) then Refuse FailureReferenceKindMismatch
         else if (t_playerID r, t_walletID r, t_roundID r, m_currency (t_money r)) \<noteq>
                 (t_playerID tx, t_walletID tx, t_roundID tx, m_currency (t_money tx))
           then Refuse FailureReferenceMismatch
         else if IsReversal (t_kind tx) \<and> t_money r \<noteq> t_money tx
           then Refuse FailureReferenceAmountMismatch
         else if IsReversal (t_kind tx) \<and> (\<exists>u \<in> set (v_txs v). reverses (t_id r) u)
           then Refuse FailureReferenceAlreadyReversed
         else use r)"

definition verdict :: "View \<Rightarrow> Transaction \<Rightarrow> Wallet \<Rightarrow> Verdict" where
  "verdict v tx w =
    (if w_playerID w \<noteq> t_playerID tx then Refuse FailureWalletPlayerMismatch
     else if w_currency w \<noteq> m_currency (t_money tx) then Refuse FailureCurrencyMismatch
     else
       (case t_kind tx of
          KindOpening \<Rightarrow> Refuse FailureNone
        | KindBet \<Rightarrow> Move Debit None (Some FailureInsufficientFunds)
        | KindLoss \<Rightarrow> Keep
        | KindWin \<Rightarrow>
            if t_referenceExternalID tx = '''' then Move Credit None None
            else reference_verdict v tx (\<lambda>r. Move Credit (Some (t_id r)) None)
        | KindRefund \<Rightarrow> reference_verdict v tx (\<lambda>r. Move Credit (Some (t_id r)) None)
        | KindRollback \<Rightarrow> reference_verdict v tx (\<lambda>r.
            if t_kind r = KindBet then Move Credit (Some (t_id r)) None
            else Move Debit (Some (t_id r)) (Some FailureReversalInsufficientFunds))))"

definition move ::
  "Direction \<Rightarrow> Wallet \<Rightarrow> uuid \<Rightarrow> uuid \<Rightarrow> Money \<Rightarrow> time \<Rightarrow> error + (LedgerEntry \<times> Wallet)" where
  "move d = (if d = Debit then Wallet_Debit else Wallet_Credit)"

definition refer :: "uuid option \<Rightarrow> Transaction \<Rightarrow> Transaction" where
  "refer r tx = (case r of None \<Rightarrow> tx | Some i \<Rightarrow> tx\<lparr>t_referenceID := Some i\<rparr>)"

text \<open>An OPENING never reaches the use case; its verdict carries no failure code and is an
  error to carry out.\<close>

fun carry_out ::
  "Service \<Rightarrow> uuid \<Rightarrow> Transaction \<Rightarrow> Wallet \<Rightarrow> time \<Rightarrow> Verdict
    \<Rightarrow> error + (LedgerEntry option \<times> Transaction \<times> Wallet)" where
  "carry_out sv eid tx w now (Refuse c) =
     rbind (MarkRejected tx c (w_balance w) now) (\<lambda>tx. Inr (None, tx, w))"
| "carry_out sv eid tx w now Wait =
     rbind
       (if sint (PendingReferenceMaxAttempts (sv_cfg sv)) \<le> sint (t_referenceAttempts tx)
        then MarkRejected tx FailureReferenceNotFound (w_balance w) now
        else AwaitReference tx (now + sint (backoff (sv_cfg sv) (t_referenceAttempts tx + 1))) now)
       (\<lambda>tx. Inr (None, tx, w))"
| "carry_out sv eid tx w now Keep =
     rbind (MarkProcessed tx (w_balance w) now) (\<lambda>tx. Inr (None, tx, w))"
| "carry_out sv eid tx w now (Move d r c) =
     settle c (refer r tx) w now (move d w eid (t_id tx) (t_money tx) now)"

text \<open>The code parks a transaction that has to wait.\<close>

lemma carry_out_parks [simp]:
  "carry_out sv eid tx w now Wait = rbind (park sv tx w now) (\<lambda>tx. Inr (None, tx, w))"
  by (simp add: park_def)

declare carry_out.simps(2) [simp del]

subsection \<open>A movement in either direction\<close>

interpretation moved: movement "move d" d for d
  by (cases d) (simp_all add: move_def debit.movement_axioms credit.movement_axioms)

lemma move_money:
  "move d w eid tid a now = Inr (e, w') \<Longrightarrow>
    m_valid (w_balance w') \<and> m_currency (w_balance w') = m_currency a \<and> m_currency a = w_currency w"
  using moved.entry [of d w eid tid a now e w'] moved.wallet [of d w eid tid a now e w']
    moved.move_valid [of d w eid tid a now e w']
  by (auto simp: entry_inv_def)

subsection \<open>What every outcome keeps\<close>

lemma refer_simps [simp]:
  "t_id (refer r tx) = t_id tx" "t_money (refer r tx) = t_money tx"
  "t_status (refer r tx) = t_status tx" "t_kind (refer r tx) = t_kind tx"
  "t_failureCode (refer r tx) = t_failureCode tx" "t_walletID (refer r tx) = t_walletID tx"
  "t_referenceAttempts (refer r tx) = t_referenceAttempts tx"
  "t_correlationID (refer r tx) = t_correlationID tx"
  by (simp_all add: refer_def split: option.splits)

lemma refer_identity: "same_identity tx (refer r tx)"
  by (simp add: refer_def same_identity_def split: option.splits)

lemma refer_inv: "tx_inv tx \<Longrightarrow> tx_inv (refer r tx)"
  by (cases r; cases "t_status tx";
      simp add: refer_def tx_inv_def metadata_shape_def status_shape_def)

text \<open>The transitions keep the identity and the invariant; here as facts about results.\<close>

lemma marked_processed:
  assumes "MarkProcessed t b now = Inr t'" and "tx_inv t" and "now \<noteq> 0"
  shows "tx_inv t'" and "same_identity t t'" and "t_status t' = StatusProcessed"
    and "t_resultBalance t' = Some b" and "t_updatedAt t' = now" and "t_failureCode t' = FailureNone"
    and "t_referenceID t' = t_referenceID t"
  using tx_step_inv [OF tx_step.processed [OF assms(1)] assms(2)] assms(1,3)
  by (auto simp: MarkProcessed_Inr same_identity_def)

lemma marked_rejected:
  assumes "MarkRejected t c b now = Inr t'" and "tx_inv t" and "now \<noteq> 0"
  shows "tx_inv t'" and "same_identity t t'" and "t_status t' = StatusRejected"
    and "t_failureCode t' = c" and "t_updatedAt t' = now"
    and "m_valid b \<Longrightarrow> t_resultBalance t' = Some b"
  using tx_step_inv [OF tx_step.rejected [OF assms(1)] assms(2)] assms(1,3)
  by (auto simp: MarkRejected_Inr same_identity_def)

lemma awaited:
  assumes "AwaitReference t nr now = Inr t'" and "tx_inv t" and "now \<noteq> 0"
  shows "tx_inv t'" and "same_identity t t'" and "t_status t' = StatusPendingReference"
    and "t_updatedAt t' = now" and "t_nextReferenceRetryAt t' = Some nr"
    and "t_referenceAttempts t' = t_referenceAttempts t + 1"
    and "t_failureCode t' = t_failureCode t" and "t_resultBalance t' = t_resultBalance t"
  using tx_step_inv [OF tx_step.awaits [OF assms(1)] assms(2)] assms(1,3)
  by (auto simp: AwaitReference_Inr same_identity_def)

text \<open>A summary of an outcome: the transaction keeps its identity and its invariant and ends
  PROCESSED, REJECTED or parked; the wallet changes exactly when there is an entry, by that
  entry, and only for a PROCESSED transaction.\<close>

definition outcome_ok ::
  "Transaction \<Rightarrow> Wallet \<Rightarrow> uuid \<Rightarrow> time \<Rightarrow> LedgerEntry option \<Rightarrow> Transaction \<Rightarrow> Wallet \<Rightarrow> bool" where
  "outcome_ok tx w eid now entry tx' w' \<longleftrightarrow>
    same_identity tx tx' \<and> tx_inv tx' \<and> t_updatedAt tx' = now \<and>
    t_status tx' \<in> {StatusProcessed, StatusRejected, StatusPendingReference} \<and>
    (case entry of
       None \<Rightarrow> w' = w
     | Some e \<Rightarrow>
         t_status tx' = StatusProcessed \<and> t_resultBalance tx' = Some (w_balance w') \<and>
         entry_inv e \<and> l_id e = eid \<and> l_walletID e = w_id w \<and> l_transactionID e = t_id tx \<and>
         l_amount e = t_money tx \<and> l_balanceBefore e = w_balance w \<and>
         l_balanceAfter e = w_balance w' \<and> l_createdAt e = now \<and>
         w' = w\<lparr>w_balance := w_balance w', w_version := w_version w + 1, w_updatedAt := now\<rparr> \<and>
         m_currency (t_money tx) = w_currency w)"

lemma settle_ok:
  assumes "settle c t w now (move d w eid (t_id t) (t_money t) now) = Inr (entry, t', w')"
    and "tx_inv t" and "now \<noteq> 0"
  shows "outcome_ok t w eid now entry t' w'"
    and "entry = None \<Longrightarrow> t_status t' = StatusRejected \<and> c = Some (t_failureCode t') \<and>
      move d w eid (t_id t) (t_money t) now = Inl ErrInsufficientFunds \<and>
      (m_valid (w_balance w) \<longrightarrow> t_resultBalance t' = Some (w_balance w))"
    and "entry = Some e \<Longrightarrow> l_direction e = d \<and>
      move d w eid (t_id t) (t_money t) now = Inr (e, w') \<and> t_referenceID t' = t_referenceID t"
proof -
  consider (rej) "entry = None" "w' = w" "move d w eid (t_id t) (t_money t) now = Inl ErrInsufficientFunds"
      "c \<noteq> None" "MarkRejected t (the c) (w_balance w) now = Inr t'"
    | (mov) en where "entry = Some en" "move d w eid (t_id t) (t_money t) now = Inr (en, w')"
      "MarkProcessed t (w_balance w') now = Inr t'"
    using assms(1) by (auto simp: settle_def split: sum.splits prod.splits if_splits)
  note cs = this
  show "outcome_ok t w eid now entry t' w'"
    using cs
  proof cases
    case rej
    then show ?thesis
      using marked_rejected [OF rej(5) assms(2,3)] by (simp add: outcome_ok_def)
  next
    case mov
    have "w' = w\<lparr>w_balance := w_balance w', w_version := w_version w + 1, w_updatedAt := now\<rparr>"
      using moved.move_wallet [OF mov(2)] by (simp add: Wallet_apply_def)
    then show ?thesis
      using marked_processed [OF mov(3) assms(2,3)] moved.entry [OF mov(2)] moved.wallet [OF mov(2)]
        move_money [OF mov(2)] mov(1)
      by (simp add: outcome_ok_def)
  qed
  show "entry = None \<Longrightarrow> t_status t' = StatusRejected \<and> c = Some (t_failureCode t') \<and>
      move d w eid (t_id t) (t_money t) now = Inl ErrInsufficientFunds \<and>
      (m_valid (w_balance w) \<longrightarrow> t_resultBalance t' = Some (w_balance w))"
    using cs by cases (auto dest: marked_rejected [OF _ assms(2,3)])
  show "entry = Some e \<Longrightarrow> l_direction e = d \<and>
      move d w eid (t_id t) (t_money t) now = Inr (e, w') \<and> t_referenceID t' = t_referenceID t"
    using cs by cases (auto dest: moved.entry(5) marked_processed [OF _ assms(2,3)])
qed

lemma park_ok:
  assumes "park sv tx w now = Inr t'" and "tx_inv tx" and "now \<noteq> 0"
  shows "same_identity tx t'" and "tx_inv t'" and "t_updatedAt t' = now"
    and "t_status t' = StatusPendingReference \<and> t_referenceAttempts t' = t_referenceAttempts tx + 1 \<and>
        sint (t_referenceAttempts tx) < sint (PendingReferenceMaxAttempts (sv_cfg sv)) \<and>
        t_resultBalance t' = t_resultBalance tx \<and> t_failureCode t' = t_failureCode tx
      \<or> t_status t' = StatusRejected \<and> t_failureCode t' = FailureReferenceNotFound \<and>
        sint (PendingReferenceMaxAttempts (sv_cfg sv)) \<le> sint (t_referenceAttempts tx) \<and>
        (m_valid (w_balance w) \<longrightarrow> t_resultBalance t' = Some (w_balance w))"
  using assms(1)
  by (auto simp: park_def split: if_splits
      dest: marked_rejected [OF _ assms(2,3)] awaited [OF _ assms(2,3)])

lemma same_identity_refer: "same_identity (refer r tx) t' \<Longrightarrow> same_identity tx t'"
  by (rule same_identity_trans [OF refer_identity])

lemma outcome_ok_refer:
  "outcome_ok (refer r tx) w eid now entry t' w' \<Longrightarrow> outcome_ok tx w eid now entry t' w'"
  by (auto simp: outcome_ok_def same_identity_refer split: option.splits)

text \<open>Whatever is carried out ends well.\<close>

lemma carry_out_ok:
  assumes "carry_out sv eid tx w now vd = Inr (entry, tx', w')" and "tx_inv tx" and "now \<noteq> 0"
  shows "outcome_ok tx w eid now entry tx' w'"
proof (cases vd)
  case (Refuse c)
  then show ?thesis
    using assms(1) by (auto simp: outcome_ok_def dest: marked_rejected [OF _ assms(2,3)])
next
  case Wait
  then show ?thesis
    using assms(1) by (auto simp: outcome_ok_def dest: park_ok [OF _ assms(2,3)])
next
  case Keep
  then show ?thesis
    using assms(1) by (auto simp: outcome_ok_def dest: marked_processed [OF _ assms(2,3)])
next
  case (Move d r c)
  then have "settle c (refer r tx) w now
      (move d w eid (t_id (refer r tx)) (t_money (refer r tx)) now) = Inr (entry, tx', w')"
    using assms(1) by simp
  from settle_ok(1) [OF this refer_inv [OF assms(2)] assms(3)] show ?thesis
    by (rule outcome_ok_refer)
qed

end
