(* ===== verification/Processing.thy ===== *)
theory Processing
  imports Outcome
begin

text \<open>
  The code of the theory Process against its specification: over every store that keeps the
  contract \<^verbatim>\<open>database\<close>, \<^verbatim>\<open>apply_tx\<close> carries out the verdict, \<^verbatim>\<open>persistOutcome\<close> writes
  what the outcome says, and \<^verbatim>\<open>ProcessIn\<close> and \<^verbatim>\<open>resolveOne\<close> are one of the steps
  \<^verbatim>\<open>replay_step\<close>, \<^verbatim>\<open>new_step\<close> and \<^verbatim>\<open>retry_step\<close> on the content of the database.
\<close>

subsection \<open>The events and the rows of an outcome\<close>

definition outcome_events ::
  "Service \<Rightarrow> env \<Rightarrow> Transaction \<Rightarrow> Wallet \<Rightarrow> LedgerEntry option \<Rightarrow> error + Envelope list" where
  "outcome_events sv en tx w entry =
    (case t_status tx of
       StatusProcessed \<Rightarrow>
         rbind (case entry of
                  None \<Rightarrow> Inr []
                | Some e \<Rightarrow>
                    rbind (NewWalletBalanceChanged (sv_uuid_string sv) (e_balanceGen en) e (w_version w)
                             (t_correlationID tx)) (\<lambda>ev. Inr [ev])) (\<lambda>evs.
         rbind (NewWagerTransactionProcessed (sv_uuid_string sv) (e_outcomeGen en) tx) (\<lambda>ev.
         Inr (evs @ [ev])))
     | StatusRejected \<Rightarrow>
         rbind (NewWagerTransactionRejected (sv_uuid_string sv) (e_outcomeGen en) tx) (\<lambda>ev. Inr [ev])
     | StatusPendingReference \<Rightarrow>
         if t_referenceAttempts tx = 1 then
           rbind (NewWagerTransactionPendingReference (sv_uuid_string sv) (e_outcomeGen en) tx)
             (\<lambda>ev. Inr [ev])
         else Inr []
     | _ \<Rightarrow> Inl ErrInvalidTransition)"

definition settled ::
  "(Wallet \<Rightarrow> Wallet) \<Rightarrow> (LedgerEntry \<Rightarrow> LedgerEntry) \<Rightarrow> View \<Rightarrow> LedgerEntry option \<Rightarrow> Wallet
    \<Rightarrow> Envelope list \<Rightarrow> View \<Rightarrow> bool" where
  "settled sw se v entry w evs v' \<longleftrightarrow>
    (case entry of
       None \<Rightarrow> v' = v\<lparr>v_outbox := v_outbox v @ evs\<rparr>
     | Some e \<Rightarrow> \<exists>q. v' = v\<lparr>v_ledger := v_ledger v @ [\<lparr>lr_Seq = q, lr_Entry = se e\<rparr>],
         v_wallets := (v_wallets v)(w_id w \<mapsto> sw w),
         v_outbox := v_outbox v @ evs\<rparr>)"

text \<open>The three things that can happen to the content.\<close>

definition replay_step :: "View \<Rightarrow> string \<Rightarrow> ProcessCommand \<Rightarrow> ProcessResult \<Rightarrow> View \<Rightarrow> bool" where
  "replay_step v hash cmd res v' \<longleftrightarrow>
    (\<exists>t. by_key v (er_ProviderID (pc_Request cmd)) (pc_IdempotencyKey cmd) = Some t \<and>
      t_payloadHash t = hash \<and> res = \<lparr>pr_Transaction = t, pr_IdempotentReplay = True\<rparr> \<and> v' = v)"

definition new_step ::
  "(Wallet \<Rightarrow> Wallet) \<Rightarrow> (Transaction \<Rightarrow> Transaction) \<Rightarrow> (LedgerEntry \<Rightarrow> LedgerEntry) \<Rightarrow> Service \<Rightarrow> env
    \<Rightarrow> View \<Rightarrow> string \<Rightarrow> ProcessCommand \<Rightarrow> ProcessResult \<Rightarrow> View \<Rightarrow> bool" where
  "new_step sw stx se sv en v hash cmd res v' \<longleftrightarrow>
    by_key v (er_ProviderID (pc_Request cmd)) (pc_IdempotencyKey cmd) = None \<and>
    by_ext v (er_ProviderID (pc_Request cmd)) (er_ExternalTransactionID (pc_Request cmd)) = None \<and>
    (\<exists>w tx entry tx' w' evs.
      v_wallets v (er_WalletID (pc_Request cmd)) = Some w \<and>
      NewExternal (e_txID en) (pc_Request cmd) (pc_IdempotencyKey cmd) hash (pc_CorrelationID cmd)
        (e_now en) = Inr tx \<and>
      carry_out sv (e_entryID en) tx w (e_now en) (verdict v tx w) = Inr (entry, tx', w') \<and>
      outcome_events sv en tx' w' entry = Inr evs \<and>
      res = \<lparr>pr_Transaction = tx', pr_IdempotentReplay = False\<rparr> \<and>
      settled sw se (v\<lparr>v_txs := v_txs v @ [stx tx']\<rparr>) entry w' evs v')"

definition retry_step ::
  "(Wallet \<Rightarrow> Wallet) \<Rightarrow> (Transaction \<Rightarrow> Transaction) \<Rightarrow> (LedgerEntry \<Rightarrow> LedgerEntry)
    \<Rightarrow> (Transaction \<Rightarrow> bool) \<Rightarrow> Service \<Rightarrow> env \<Rightarrow> View \<Rightarrow> time \<Rightarrow> View \<Rightarrow> bool" where
  "retry_step sw stx se free sv en v claimNow v' \<longleftrightarrow>
    (\<exists>w tx entry tx' w' evs.
      tx \<in> set (v_txs v) \<and> due claimNow tx \<and> free tx \<and>
      (\<forall>u \<in> set (v_txs v). due claimNow u \<and> free u \<longrightarrow>
        the (t_nextReferenceRetryAt tx) \<le> the (t_nextReferenceRetryAt u)) \<and>
      v_wallets v (t_walletID tx) = Some w \<and>
      carry_out sv (e_entryID en) tx w (e_now en) (verdict v tx w) = Inr (entry, tx', w') \<and>
      outcome_events sv en tx' w' entry = Inr evs \<and>
      settled sw se
        (v\<lparr>v_txs := map (\<lambda>u. if t_id u = t_id tx then stx tx' else u) (v_txs v)\<rparr>)
        entry w' evs v')"

subsection \<open>The code carries out the verdict\<close>

lemma verdict_simps:
  "tx_inv r \<Longrightarrow> tx_inv t \<Longrightarrow> Equal (t_money r) (t_money t) \<longleftrightarrow> t_money r = t_money t"
  by (auto simp: Equal_iff tx_inv_def amount_policy_def)

context database
begin

lemma lookupExisting_Inr:
  assumes "I s" and "lookupExisting st cmd hash s = (Inr r, s')"
  shows "I s'" and "view s' = view s"
    and "case r of
       Some res \<Rightarrow> replay_step (view s) hash cmd res (view s')
     | None \<Rightarrow>
         by_key (view s) (er_ProviderID (pc_Request cmd)) (pc_IdempotencyKey cmd) = None \<and>
         by_ext (view s) (er_ProviderID (pc_Request cmd))
           (er_ExternalTransactionID (pc_Request cmd)) = None"
proof -
  let ?p = "er_ProviderID (pc_Request cmd)" and ?k = "pc_IdempotencyKey cmd"
  let ?x = "er_ExternalTransactionID (pc_Request cmd)"
  obtain r1 s1 where f1: "Transactions_FindByIdempotencyKey st ?p ?k s = (r1, s1)" by fastforce
  have "I s' \<and> view s' = view s \<and> (case r of
       Some res \<Rightarrow> replay_step (view s) hash cmd res (view s')
     | None \<Rightarrow> by_key (view s) ?p ?k = None \<and> by_ext (view s) ?p ?x = None)"
  proof (cases r1)
    case (Inr t)
    note k = readsD [OF t_by_key assms(1) f1 [unfolded Inr]]
    show ?thesis
      using assms(2) k unfolding lookupExisting_def Let_def obind_apply otry_apply f1 Inr
      by (auto simp: replay_step_def split: if_splits)
  next
    case (Inl e)
    show ?thesis
    proof (cases "e = ErrTransactionNotFound")
      case False
      then show ?thesis
        using assms(2) unfolding lookupExisting_def Let_def obind_apply otry_apply f1 Inl by simp
    next
      case True
      note k = reads_notD [OF t_by_key assms(1) f1 [unfolded Inl True]]
      obtain r2 s2 where f2: "Transactions_FindByExternalID st ?p ?x s1 = (r2, s2)" by fastforce
      note l = assms(2) [unfolded lookupExisting_def Let_def obind_apply otry_apply f1 Inl True]
      show ?thesis
      proof (cases r2)
        case (Inl e2)
        then have e2: "e2 = ErrTransactionNotFound" "r = None" "s' = s2"
          using l f2 by (auto simp: obind_apply otry_apply split: if_splits)
        note x = reads_notD [OF t_by_ext k(2) f2 [unfolded Inl e2(1)]]
        show ?thesis using x k e2 by simp
      next
        case (Inr t)
        note x = readsD [OF t_by_ext k(2) f2 [unfolded Inr]]
        then have "t \<in> set (v_txs (view s))" "t_origin t = OriginExternal" "t_providerID t = ?p"
          using by_ext_Some [OF ok [OF k(2)]] k(3) by auto
        then have "t_idempotencyKey t \<noteq> ?k" using k(1) unfolding by_key_None by blast
        then show ?thesis using l f2 Inr by (simp add: obind_apply otry_apply)
      qed
    qed
  qed
  then show "I s'" "view s' = view s" "case r of
       Some res \<Rightarrow> replay_step (view s) hash cmd res (view s')
     | None \<Rightarrow> by_key (view s) ?p ?k = None \<and> by_ext (view s) ?p ?x = None"
    by blast+
qed

lemma resolveReferenceTx_Inr:
  assumes "I s" and "tx_inv tx" and "resolveReferenceTx sv st tx w now s = (Inr r, s')"
  shows "I s' \<and> view s' = view s \<and>
    (case r of
       Done t \<Rightarrow> \<forall>use eid. carry_out sv eid tx w now (reference_verdict (view s) tx use) = Inr (None, t, w)
     | Resolved ref t \<Rightarrow> t = refer (Some (t_id ref)) tx \<and>
         (\<forall>use. reference_verdict (view s) tx use = use ref))"
proof -
  let ?p = "t_providerID tx" and ?x = "t_referenceExternalID tx"
  obtain r1 s1 where f1: "Transactions_FindByExternalID st ?p ?x s = (r1, s1)" by fastforce
  note l = assms(3) [unfolded resolveReferenceTx_def obind_apply otry_apply f1]
  show ?thesis
  proof (cases r1)
    case (Inl e)
    then have e: "e = ErrTransactionNotFound"
      using l by (auto split: if_splits)
    note n = reads_notD [OF t_by_ext assms(1) f1 [unfolded Inl e]]
    show ?thesis
      using l n unfolding Inl e
      by (auto simp: obind_lift reference_verdict_def split: sum.splits)
  next
    case (Inr ref)
    note b = readsD [OF t_by_ext assms(1) f1 [unfolded Inr]]
    have inv: "tx_inv ref"
      using b(1) by_ext_Some [OF ok [OF assms(1)]] ok [OF assms(1)] by (auto simp: view_ok_def)
    note eq = verdict_simps [OF inv assms(2)] verdict_simps [OF assms(2) assms(2)]
    show ?thesis
    proof (cases "IsTerminal (t_status ref) \<and> t_status ref = StatusProcessed \<and>
        allowedReference (t_kind tx) (t_kind ref) \<and>
        (t_playerID ref, t_walletID ref, t_roundID ref, m_currency (t_money ref)) =
          (t_playerID tx, t_walletID tx, t_roundID tx, m_currency (t_money tx)) \<and>
        IsReversal (t_kind tx) \<and> t_money ref = t_money tx")
      case True
      obtain r2 s2 where f2: "Transactions_HasProcessedReversal st (t_id ref) s1 = (r2, s2)" by fastforce
      show ?thesis
      proof (cases r2)
        case (Inl e)
        then show ?thesis using True l f2 unfolding Inr
          by (simp add: eq Let_def obind_apply)
      next
        case (Inr reversed)
        note h = readsD [OF t_reversal b(2) f2 [unfolded Inr]]
        have "reference_verdict (view s) tx use =
            (if reversed then Refuse FailureReferenceAlreadyReversed else use ref)" for use
          using True b h by (simp add: reference_verdict_def)
        then show ?thesis
          using True l f2 b h unfolding \<open>r1 = Inr ref\<close> Inr
          by (cases reversed) (auto simp: eq Let_def obind_apply lift_def ok_def ResolveReference_def
            refer_def split: sum.splits if_splits)
      qed
    next
      case False
      then show ?thesis
        using l b unfolding Inr
        by (cases "t_status ref") (auto simp: eq Let_def obind_apply lift_def reference_verdict_def IsTerminal_def
            ResolveReference_def refer_def split: sum.splits if_splits)
    qed
  qed
qed

lemma resolved_then:
  assumes "I s" and "tx_inv tx"
    and "obind (resolveReferenceTx sv st tx w now) (\<lambda>r. case r of
        Done t \<Rightarrow> ok (None, t, w) | Resolved ref t \<Rightarrow> lift (K ref t)) s = (Inr x, s')"
    and "\<And>ref. K ref (refer (Some (t_id ref)) tx) = carry_out sv eid tx w now (use ref)"
  shows "I s' \<and> view s' = view s \<and>
    carry_out sv eid tx w now (reference_verdict (view s) tx use) = Inr x"
proof -
  obtain r s1 where r: "resolveReferenceTx sv st tx w now s = (Inr r, s1)"
    and k: "(case r of Done t \<Rightarrow> ok (None, t, w) | Resolved ref t \<Rightarrow> lift (K ref t)) s1 = (Inr x, s')"
    using assms(3) by (rule obind_InrE)
  note q = resolveReferenceTx_Inr [OF assms(1,2) r]
  show ?thesis
  proof (cases r)
    case (Done t)
    then show ?thesis using q k by auto
  next
    case (Resolved ref t)
    then show ?thesis using q k assms(4) [of ref] by auto
  qed
qed

lemma apply_tx_Inr:
  assumes "I s" and "tx_inv tx" and "apply_tx sv st eid tx w now s = (Inr (entry, t', w'), s')"
  shows "I s'" and "view s' = view s"
    and "carry_out sv eid tx w now (verdict (view s) tx w) = Inr (entry, t', w')"
proof -
  have "I s' \<and> view s' = view s \<and>
    carry_out sv eid tx w now (verdict (view s) tx w) = Inr (entry, t', w')"
  proof (cases "w_playerID w = t_playerID tx \<and> w_currency w = m_currency (t_money tx)")
    case False
    then show ?thesis
      using assms(1,3) by (auto simp: apply_tx_def verdict_def)
  next
    case True
    then have p: "\<not> w_playerID w \<noteq> t_playerID tx" "\<not> w_currency w \<noteq> m_currency (t_money tx)"
      by simp_all
    note a = assms(3) [unfolded apply_tx_def if_not_P [OF p(1)] if_not_P [OF p(2)]]
    note v = verdict_def [of "view s" tx w, unfolded if_not_P [OF p(1)] if_not_P [OF p(2)]]
    show ?thesis
    proof (cases "t_kind tx")
      case KindWin
      show ?thesis
      proof (cases "t_referenceExternalID tx = ''''")
        case True
        then show ?thesis using a v KindWin assms(1) by (simp add: move_def refer_def)
      next
        case False
        have "I s' \<and> view s' = view s \<and> carry_out sv eid tx w now (reference_verdict (view s) tx
            (\<lambda>r. Move Credit (Some (t_id r)) None)) = Inr (entry, t', w')"
          by (rule resolved_then [OF assms(1,2), where K = "\<lambda>ref t. settle None t w now
              (Wallet_Credit w eid (t_id t) (t_money t) now)"])
            (use a KindWin False in \<open>simp_all add: move_def\<close>)
        then show ?thesis using v KindWin False by simp
      qed
    next
      case KindRefund
      have "I s' \<and> view s' = view s \<and> carry_out sv eid tx w now (reference_verdict (view s) tx
          (\<lambda>r. Move Credit (Some (t_id r)) None)) = Inr (entry, t', w')"
        by (rule resolved_then [OF assms(1,2), where K = "\<lambda>ref t. settle None t w now
            (Wallet_Credit w eid (t_id t) (t_money t) now)"])
          (use a KindRefund in \<open>simp_all add: move_def\<close>)
      then show ?thesis using v KindRefund by simp
    next
      case KindRollback
      have k: "(if b then lift x else lift y) = lift (if b then x else y)" for b x y by simp
      have "I s' \<and> view s' = view s \<and> carry_out sv eid tx w now (reference_verdict (view s) tx
          (\<lambda>r. if t_kind r = KindBet then Move Credit (Some (t_id r)) None
               else Move Debit (Some (t_id r)) (Some FailureReversalInsufficientFunds)))
          = Inr (entry, t', w')"
        by (rule resolved_then [OF assms(1,2), where K = "\<lambda>ref t.
              if t_kind ref = KindBet then settle None t w now
                (Wallet_Credit w eid (t_id t) (t_money t) now)
              else settle (Some FailureReversalInsufficientFunds) t w now
                (Wallet_Debit w eid (t_id t) (t_money t) now)"])
          (use a KindRollback in \<open>simp_all add: move_def k\<close>)
      then show ?thesis using v KindRollback by simp
    qed (use a v assms(1) in \<open>auto simp: move_def refer_def\<close>)
  qed
  then show "I s'" "view s' = view s"
    "carry_out sv eid tx w now (verdict (view s) tx w) = Inr (entry, t', w')" by blast+
qed

text \<open>What the outcome needs of the wallet row it is written over.\<close>

lemma persistOutcome_Inr:
  assumes "I s" and "outcome_ok tx w eid now entry t' w'" and "wallet_inv w" and "clock_ok now"
    and "v_wallets (view s) (w_id w) = Some w"
    and "persistOutcome sv st en t' w' entry s = (Inr u, s')"
  shows "I s'"
    and "\<exists>evs. outcome_events sv en t' w' entry = Inr evs \<and>
      settled stored_w stored_e (view s) entry w' evs (view s')"
proof -
  have add: "\<And>ev s a s'. I s \<Longrightarrow> Outbox_Add st ev s = (Inr a, s') \<Longrightarrow>
      I s' \<and> view s' = view s\<lparr>v_outbox := v_outbox (view s) @ [ev]\<rparr>"
    using writesD [OF o_add] by blast
  note p = assms(6) [unfolded persistOutcome_def]
  have "I s' \<and> (\<exists>evs. outcome_events sv en t' w' entry = Inr evs \<and>
      settled stored_w stored_e (view s) entry w' evs (view s'))"
  proof (cases entry)
    case None
    have emit: "I s' \<and> (\<exists>evs. rbind r (\<lambda>ev. Inr [ev]) = Inr evs \<and>
        view s' = (view s)\<lparr>v_outbox := v_outbox (view s) @ evs\<rparr>)"
      if "obind (lift r) (\<lambda>ev. Outbox_Add st ev) s = (Inr u, s')" for r
      using that add [OF assms(1)] by (auto simp: obind_Inr_iff)
    have t: "t_status t' \<in> {StatusProcessed, StatusRejected, StatusPendingReference}"
      using assms(2) by (simp add: outcome_ok_def)
    show ?thesis
    proof (cases "t_status t' = StatusPendingReference \<and> t_referenceAttempts t' \<noteq> 1")
      case True
      then show ?thesis
        using p None assms(1) by (simp add: outcome_events_def settled_def)
    next
      case False
      then show ?thesis
        using p t None emit by (auto simp: outcome_events_def settled_def)
    qed
  next
    case (Some e)
    have pat: "currencyPattern (w_currency w)"
      using ok [OF assms(1)] assms(5) by (auto simp: view_ok_def)
    have e: "entry_inv e" "clock_ok (l_createdAt e)" "t_status t' = StatusProcessed"
        "currencyPattern (m_currency (l_amount e))"
        "w' = w\<lparr>w_balance := w_balance w', w_version := w_version w + 1, w_updatedAt := now\<rparr>"
        "m_valid (w_balance w')" "0 \<le> units (w_balance w')" "m_currency (w_balance w') = w_currency w"
        "now \<noteq> 0"
      using assms(2,4) Some pat by (auto simp: outcome_ok_def entry_inv_def clock_ok_def)
    obtain s1 s2 s3 bev pev where ops:
      "Ledger_Append st e s = (Inr (), s1)"
      "Wallets_Update st w' (w_version w' - 1) s1 = (Inr (), s2)"
      "NewWalletBalanceChanged (sv_uuid_string sv) (e_balanceGen en) e (w_version w')
         (t_correlationID t') = Inr bev"
      "Outbox_Add st bev s2 = (Inr (), s3)"
      "NewWagerTransactionProcessed (sv_uuid_string sv) (e_outcomeGen en) t' = Inr pev"
      "Outbox_Add st pev s3 = (Inr (), s')"
      using p e(3) Some by (auto simp: obind_Inr_iff)
    obtain q where a: "I s1" "view s1 = (view s)\<lparr>v_ledger := v_ledger (view s) @
        [\<lparr>lr_Seq = q, lr_Entry = stored_e e\<rparr>]\<rparr>"
      using writesD [OF l_append assms(1) _ ops(1)] e(1,2,4) by blast
    have id: "w_id w' = w_id w" "w_playerID w' = w_playerID w" "w_currency w' = w_currency w"
      "w_createdAt w' = w_createdAt w" "w_updatedAt w' = now"
      by (subst e(5), simp)+
    have core: "wallet_inv (w'\<lparr>w_version := 1\<rparr>)"
      using e(6-9) assms(3) id by (simp add: wallet_inv_def)
    have u: "I s2" "view s2 = view s1\<lparr>v_wallets := (v_wallets (view s1))(w_id w' \<mapsto> stored_w w')\<rparr>"
      using writesD [OF w_update a(1) _ ops(2)] core id assms(4,5) a(2) by auto
    note o1 = add [OF u(1) ops(4)]
    note o2 = add [OF conjunct1 [OF o1] ops(6)]
    show ?thesis
      using Some e(3) a u o1 o2 ops(3,5) by (auto simp: outcome_events_def settled_def)
  qed
  then show "I s'" "\<exists>evs. outcome_events sv en t' w' entry = Inr evs \<and>
      settled stored_w stored_e (view s) entry w' evs (view s')" by blast+
qed

text \<open>What the code hands to the store can be stored, when its clock reading can.\<close>

lemma outcome_storable:
  assumes "outcome_ok tx w eid now entry t' w'" and "clock_ok now" and "clock_ok (t_createdAt tx)"
    and "canonical_code (t_failureCode t')" and "\<forall>b. t_resultBalance t' = Some b \<longrightarrow> m_valid b"
  shows "storable_tx t'"
  using assms by (auto simp: outcome_ok_def storable_tx_def same_identity_def)

end

text \<open>The failure codes that a verdict can lead to are declared ones, and the balance that the
  transaction reports is an initialized one.\<close>

definition verdict_codes_ok :: "Verdict \<Rightarrow> bool" where
  "verdict_codes_ok vd \<longleftrightarrow>
    (case vd of
       Refuse c \<Rightarrow> canonical_code c
     | Move d r (Some c) \<Rightarrow> canonical_code c
     | _ \<Rightarrow> True)"

lemma reference_verdict_codes:
  "(\<And>r. verdict_codes_ok (use r)) \<Longrightarrow> verdict_codes_ok (reference_verdict v tx use)"
  by (auto simp: reference_verdict_def verdict_codes_ok_def Let_def split: option.splits)

lemma verdict_codes: "verdict_codes_ok (verdict v tx w)"
  unfolding verdict_def
  by (cases "t_kind tx")
    (auto intro!: reference_verdict_codes, auto simp: verdict_codes_ok_def)

lemma carry_out_codes:
  assumes "carry_out sv eid tx w now vd = Inr (entry, t', w')" and "verdict_codes_ok vd"
    and "tx_inv tx" and "now \<noteq> 0" and "canonical_code (t_failureCode tx)"
  shows "canonical_code (t_failureCode t')"
proof (cases vd)
  case (Refuse c)
  then show ?thesis
    using assms(1,2) by (auto simp: verdict_codes_ok_def MarkRejected_Inr)
next
  case Wait
  then show ?thesis
    using assms(1,5) by (auto dest: park_ok(4) [OF _ assms(3,4)])
next
  case Keep
  then show ?thesis using assms(1) by (auto simp: MarkProcessed_Inr)
next
  case (Move d r c)
  then have m: "settle c (refer r tx) w now
      (move d w eid (t_id (refer r tx)) (t_money (refer r tx)) now) = Inr (entry, t', w')"
    using assms(1) by simp
  note k = settle_ok [OF m refer_inv [OF assms(3)] assms(4)]
  show ?thesis
  proof (cases entry)
    case None
    then show ?thesis using k(2) Move assms(2) by (auto simp: verdict_codes_ok_def)
  next
    case (Some e)
    with k(1) have "tx_inv t'" "t_status t' = StatusProcessed" by (auto simp: outcome_ok_def)
    then show ?thesis by (simp add: tx_inv_def status_shape_def)
  qed
qed

lemma carry_out_result:
  assumes "carry_out sv eid tx w now vd = Inr (entry, t', w')" and "wallet_inv w"
    and "tx_inv tx" and "now \<noteq> 0" and "\<forall>b. t_resultBalance tx = Some b \<longrightarrow> m_valid b"
  shows "\<forall>b. t_resultBalance t' = Some b \<longrightarrow> m_valid b"
    and "entry = None \<Longrightarrow> t_status t' \<noteq> StatusPendingReference \<Longrightarrow> t_resultBalance t' = Some (w_balance w)"
proof -
  have v: "m_valid (w_balance w)" using assms(2) by (simp add: wallet_inv_def)
  have "(\<forall>b. t_resultBalance t' = Some b \<longrightarrow> m_valid b) \<and>
    (entry = None \<longrightarrow> t_status t' \<noteq> StatusPendingReference \<longrightarrow> t_resultBalance t' = Some (w_balance w))"
  proof (cases vd)
    case (Refuse c)
    then show ?thesis using assms(1) v by (auto simp: MarkRejected_Inr)
  next
    case Wait
    then show ?thesis
      using assms(1,5) v by (auto dest!: park_ok(4) [OF _ assms(3,4)])
  next
    case Keep
    then show ?thesis using assms(1) v by (auto simp: MarkProcessed_Inr)
  next
    case (Move d r c)
    then have m: "settle c (refer r tx) w now
        (move d w eid (t_id (refer r tx)) (t_money (refer r tx)) now) = Inr (entry, t', w')"
      using assms(1) by simp
    note k = settle_ok [OF m refer_inv [OF assms(3)] assms(4)]
    show ?thesis
    proof (cases entry)
      case None
      then show ?thesis using k(2) v by auto
    next
      case (Some e)
      then show ?thesis using k(1) by (auto simp: outcome_ok_def entry_inv_def)
    qed
  qed
  then show "\<forall>b. t_resultBalance t' = Some b \<longrightarrow> m_valid b"
    "entry = None \<Longrightarrow> t_status t' \<noteq> StatusPendingReference \<Longrightarrow> t_resultBalance t' = Some (w_balance w)"
    by blast+
qed

subsection \<open>The steps of the use case\<close>

lemma NewExternal_facts:
  assumes "NewExternal i q k h c now = Inr tx"
  shows "tx_inv tx" "t_createdAt tx = now" "t_updatedAt tx = now" "now \<noteq> 0"
    "t_resultBalance tx = None" "t_failureCode tx = FailureNone" "t_status tx = StatusPending"
    "t_walletID tx = er_WalletID q" "t_id tx = i" "t_providerID tx = er_ProviderID q"
    "t_idempotencyKey tx = k" "t_payloadHash tx = h" "t_origin tx = OriginExternal"
    "t_externalTransactionID tx = er_ExternalTransactionID q" "t_referenceID tx = None"
    "t_kind tx = er_Kind q" "t_money tx = er_Money q" "t_playerID tx = er_PlayerID q"
    "t_referenceAttempts tx = 0"
  using NewExternal_inv [OF assms] assms by (auto simp: NewExternal_Inr)

context database
begin

lemma view_wallet:
  assumes "I s" and "v_wallets (view s) i = Some w"
  shows "wallet_inv w" and "w_id w = i"
  using ok [OF assms(1)] assms(2) by (auto simp: view_ok_def)

lemma view_tx: "I s \<Longrightarrow> t \<in> set (v_txs (view s)) \<Longrightarrow> tx_inv t"
  using ok by (auto simp: view_ok_def)

lemma ProcessIn_Inr:
  assumes "I s" and "clock_ok (e_now en)" and "ProcessIn sv st en cmd s = (Inr res, s')"
  defines "hash \<equiv> PayloadHash (sv_uuid_string sv) (sv_sha256_hex sv) (pc_Request cmd)"
  shows "I s'"
    and "replay_step (view s) hash cmd res (view s') \<or>
      new_step stored_w stored_t stored_e sv en (view s) hash cmd res (view s')"
proof -
  let ?req = "pc_Request cmd"
  have "pc_IdempotencyKey cmd \<noteq> ''''"
    using assms(3) by (auto simp: ProcessIn_def)
  then obtain r1 s1 where l1: "lookupExisting st cmd hash s = (Inr r1, s1)"
    and k1: "(case r1 of Some res \<Rightarrow> ok res | None \<Rightarrow>
        obind (Wallets_GetForUpdate st (er_WalletID ?req)) (\<lambda>w.
        obind (lookupExisting st cmd hash) (\<lambda>r. case r of Some res \<Rightarrow> ok res | None \<Rightarrow>
          obind (lift (NewExternal (e_txID en) ?req (pc_IdempotencyKey cmd) hash
                   (pc_CorrelationID cmd) (e_now en))) (\<lambda>tx.
          obind (apply_tx sv st (e_entryID en) tx w (e_now en)) (\<lambda>(entry, tx, w).
          obind (Transactions_Insert st tx) (\<lambda>_.
          obind (persistOutcome sv st en tx w entry) (\<lambda>_.
          ok \<lparr>pr_Transaction = tx, pr_IdempotentReplay = False\<rparr>))))))) s1 = (Inr res, s')"
    using assms(3) unfolding ProcessIn_def hash_def Let_def by (auto elim!: obind_InrE)
  note e1 = lookupExisting_Inr [OF assms(1) l1]
  have "I s' \<and> (replay_step (view s) hash cmd res (view s') \<or>
      new_step stored_w stored_t stored_e sv en (view s) hash cmd res (view s'))"
  proof (cases r1)
    case (Some r)
    then show ?thesis using e1 k1 by auto
  next
    case None
    obtain w s2 r2 s3 where lk: "Wallets_GetForUpdate st (er_WalletID ?req) s1 = (Inr w, s2)"
      and l2: "lookupExisting st cmd hash s2 = (Inr r2, s3)"
      and k2: "(case r2 of Some res \<Rightarrow> ok res | None \<Rightarrow>
          obind (lift (NewExternal (e_txID en) ?req (pc_IdempotencyKey cmd) hash
                   (pc_CorrelationID cmd) (e_now en))) (\<lambda>tx.
          obind (apply_tx sv st (e_entryID en) tx w (e_now en)) (\<lambda>(entry, tx, w).
          obind (Transactions_Insert st tx) (\<lambda>_.
          obind (persistOutcome sv st en tx w entry) (\<lambda>_.
          ok \<lparr>pr_Transaction = tx, pr_IdempotentReplay = False\<rparr>))))) s3 = (Inr res, s')"
      using k1 None by (auto elim!: obind_InrE)
    note w = readsD [OF w_lock e1(1) lk]
    note e2 = lookupExisting_Inr [OF w(2) l2]
    have v3: "view s3 = view s" using e2(2) w(3) e1(2) by simp
    show ?thesis
    proof (cases r2)
      case (Some r)
      then show ?thesis using e2 k2 v3 w(3) e1(2) by auto
    next
      case N2: None
      obtain tx entry tx' w' s4 s5 s6 where
        n: "NewExternal (e_txID en) ?req (pc_IdempotencyKey cmd) hash (pc_CorrelationID cmd)
              (e_now en) = Inr tx"
        and a: "apply_tx sv st (e_entryID en) tx w (e_now en) s3 = (Inr (entry, tx', w'), s4)"
        and i: "Transactions_Insert st tx' s4 = (Inr (), s5)"
        and p: "persistOutcome sv st en tx' w' entry s5 = (Inr (), s6)"
        and res: "res = \<lparr>pr_Transaction = tx', pr_IdempotentReplay = False\<rparr>" "s' = s6"
        using k2 N2 by (auto simp: obind_Inr_iff)
      note nf = NewExternal_facts [OF n]
      note ap = apply_tx_Inr [OF e2(1) nf(1) a]
      note c = ap(3) [unfolded v3]
      have wf: "wallet_inv w" "w_id w = er_WalletID ?req"
        using view_wallet [OF e1(1)] w(1) by auto
      note oc = carry_out_ok [OF c nf(1,4)]
      have sto: "storable_tx tx'"
        using outcome_storable [OF oc assms(2)] carry_out_codes [OF c verdict_codes nf(1,4)]
          carry_out_result(1) [OF c wf(1) nf(1,4)] nf assms(2) by auto
      note ins = writesD [OF t_insert ap(1) sto i]
      have vw: "v_wallets (view s5) (w_id w) = Some w"
        using ins(1) ap(2) v3 w(1) e1(2) wf(2) by simp
      note po = persistOutcome_Inr [OF ins(2) oc wf(1) assms(2) vw p]
      have "new_step stored_w stored_t stored_e sv en (view s) hash cmd res (view s')"
        unfolding new_step_def using e1(3) None n c po(2) res ins(1) ap(2) v3 w(1) e1(2) by auto
      then show ?thesis using po(1) res(2) by blast
    qed
  qed
  then show "I s'" "replay_step (view s) hash cmd res (view s') \<or>
      new_step stored_w stored_t stored_e sv en (view s) hash cmd res (view s')" by blast+
qed

lemma resolveOne_Inr:
  assumes "I s" and "clock_ok (e_now en)" and "resolveOne sv st claimNow en s = (Inr found, s')"
  shows "I s'"
    and "if found then retry_step stored_w stored_t stored_e free sv en (view s) claimNow (view s')
      else view s' = view s \<and> (\<forall>t \<in> set (v_txs (view s)). \<not> (due claimNow t \<and> free t))"
proof -
  obtain r1 s1 where f1: "Transactions_ClaimDuePendingReference st claimNow s = (r1, s1)" by fastforce
  note l = assms(3) [unfolded resolveOne_def obind_apply otry_apply f1]
  have "I s' \<and> (if found then retry_step stored_w stored_t stored_e free sv en (view s) claimNow (view s')
      else view s' = view s \<and> (\<forall>t \<in> set (v_txs (view s)). \<not> (due claimNow t \<and> free t)))"
  proof (cases r1)
    case (Inl e)
    then have e: "e = ErrTransactionNotFound" "found = False" "s' = s1"
      using l by (auto split: if_splits)
    note n = reads_notD [OF t_claim assms(1) f1 [unfolded Inl e(1)]]
    then show ?thesis using e by simp
  next
    case (Inr tx)
    note b = readsD [OF t_claim assms(1) f1 [unfolded Inr]]
    from b(1) have tin: "tx \<in> set (v_txs (view s))" and du: "due claimNow tx" "free tx"
      and first: "\<forall>u \<in> set (v_txs (view s)). due claimNow u \<and> free u \<longrightarrow>
        the (t_nextReferenceRetryAt tx) \<le> the (t_nextReferenceRetryAt u)" by auto
    obtain w s2 entry tx' w' s3 s4 where
      lk: "Wallets_GetForUpdate st (t_walletID tx) s1 = (Inr w, s2)"
      and a: "apply_tx sv st (e_entryID en) tx w (e_now en) s2 = (Inr (entry, tx', w'), s3)"
      and u: "Transactions_Update st tx' s3 = (Inr (), s4)"
      and p: "persistOutcome sv st en tx' w' entry s4 = (Inr (), s')"
      and fo: "found"
      using l unfolding Inr by (auto simp: obind_apply split: sum.splits prod.splits)
    note w = readsD [OF w_lock b(2) lk]
    have inv: "tx_inv tx" by (rule view_tx [OF assms(1) tin])
    have now: "e_now en \<noteq> 0" using assms(2) by (auto simp: clock_ok_def)
    note ap = apply_tx_Inr [OF w(2) inv a]
    have v2: "view s2 = view s" using w(3) b(3) by simp
    note c = ap(3) [unfolded v2]
    have wf: "wallet_inv w" "w_id w = t_walletID tx"
      using view_wallet [OF b(2)] w(1) by auto
    note oc = carry_out_ok [OF c inv now]
    have pend: "t_status tx = StatusPendingReference" using du(1) by (simp add: due_def)
    note ag = t_again [OF assms(1) tin]
    have res: "\<forall>b. t_resultBalance tx = Some b \<longrightarrow> m_valid b"
      using ag by blast
    have sto: "storable_tx tx'"
      using outcome_storable [OF oc assms(2)] carry_out_codes [OF c verdict_codes inv now]
        carry_out_result(1) [OF c wf(1) inv now res] ag by auto
    have same: "same_identity tx tx'" using oc by (simp add: outcome_ok_def)
    have "\<forall>u \<in> set (v_txs (view s3)). t_id u = t_id tx' \<longrightarrow> same_identity u tx'"
    proof (intro ballI impI)
      fix x assume x: "x \<in> set (v_txs (view s3))" "t_id x = t_id tx'"
      then have "x \<in> set (v_txs (view s))" "t_id x = t_id tx"
        using ap(2) v2 same by (auto simp: same_identity_def)
      then have "x = tx"
        using unique_onD [of "\<lambda>_. True" t_id "v_txs (view s)" x tx] ok [OF assms(1)] tin
        by (auto simp: view_ok_def)
      then show "same_identity x tx'" using same by simp
    qed
    then have up: "view s4 = view s3\<lparr>v_txs := map (\<lambda>u. if t_id u = t_id tx' then stored_t tx' else u)
        (v_txs (view s3))\<rparr>" "I s4"
      using writesD [OF t_update ap(1) _ u] sto by blast+
    have vw: "v_wallets (view s4) (w_id w) = Some w"
      using up(1) ap(2) w wf(2) by simp
    note po = persistOutcome_Inr [OF up(2) oc wf(1) assms(2) vw p]
    have tid: "t_id tx' = t_id tx" using same by (simp add: same_identity_def)
    obtain evs where ev: "outcome_events sv en tx' w' entry = Inr evs"
        "settled stored_w stored_e (view s4) entry w' evs (view s')" using po(2) by blast
    have "retry_step stored_w stored_t stored_e free sv en (view s) claimNow (view s')"
      unfolding retry_step_def
      by (rule exI [of _ w], rule exI [of _ tx], rule exI [of _ entry], rule exI [of _ tx'],
          rule exI [of _ w'], rule exI [of _ evs])
        (use tin du first c ev up(1) ap(2) v2 w(1) b(3) tid in simp)
    then show ?thesis using po(1) fo by simp
  qed
  then show "I s'" "if found then retry_step stored_w stored_t stored_e free sv en (view s) claimNow (view s')
      else view s' = view s \<and> (\<forall>t \<in> set (v_txs (view s)). \<not> (due claimNow t \<and> free t))" by blast+
qed

end

end
