(* ===== verification/WalletOps.thy ===== *)
theory WalletOps
  imports Processing GoBase64
begin

text \<open>
  \<^verbatim>\<open>internal/app/wallets.go\<close>: opening a wallet, the queries, the paged ledger with its opaque
  cursor, and the reconciliation of a balance with its ledger.
\<close>

record OpenWalletCommand =
  oc_PlayerID :: uuid
  oc_InitialBalance :: Money
  oc_CorrelationID :: string

text \<open>The callback of \<^verbatim>\<open>OpenWallet\<close>, once the aggregate exists.\<close>

definition openIn ::
  "Service \<Rightarrow> 's Store \<Rightarrow> env \<Rightarrow> OpenWalletCommand \<Rightarrow> Wallet \<Rightarrow> ('s, unit) op" where
  "openIn sv st en cmd w =
    obind (Wallets_Create st w) (\<lambda>_.
    if IsZeroM (w_balance w) then ok ()
    else
      obind (lift (NewOpening (e_txID en) (w_id w) (w_playerID w) (w_balance w)
                     (oc_CorrelationID cmd) (e_now en))) (\<lambda>tx.
      obind (lift (MarkProcessed tx (w_balance w) (e_now en))) (\<lambda>tx.
      obind (lift (Money_Zero (w_currency w))) (\<lambda>zero.
      obind (lift (NewLedgerEntry (e_entryID en) (w_id w) (t_id tx) (Direction_string Credit)
                     (w_balance w) zero (w_balance w) (e_now en))) (\<lambda>entry.
      obind (Transactions_Insert st tx) (\<lambda>_.
      obind (Ledger_Append st entry) (\<lambda>_.
      obind (lift (NewWagerTransactionProcessed (sv_uuid_string sv) (e_outcomeGen en) tx)) (\<lambda>processed.
      obind (lift (NewWalletBalanceChanged (sv_uuid_string sv) (e_balanceGen en) entry (w_version w)
                     (oc_CorrelationID cmd))) (\<lambda>changed.
      obind (Outbox_Add st processed) (\<lambda>_.
      Outbox_Add st changed))))))))))"

definition OpenWallet ::
  "Service \<Rightarrow> 's Store \<Rightarrow> Faults \<Rightarrow> uuid \<Rightarrow> env \<Rightarrow> OpenWalletCommand \<Rightarrow> ('s, Wallet) op" where
  "OpenWallet sv st f walletID en cmd =
    obind (lift (Open walletID (oc_PlayerID cmd) (oc_InitialBalance cmd) (e_now en))) (\<lambda>w.
    obind (uow_Do f (openIn sv st en cmd w)) (\<lambda>_. ok w))"

definition GetWallet :: "'s Store \<Rightarrow> Faults \<Rightarrow> uuid \<Rightarrow> ('s, Wallet) op" where
  "GetWallet st f i = uow_Do f (Wallets_Get st i)"

definition GetTransaction :: "'s Store \<Rightarrow> Faults \<Rightarrow> uuid \<Rightarrow> ('s, Transaction) op" where
  "GetTransaction st f i = uow_Do f (Transactions_Get st i)"

definition GetTransactionByExternalID ::
  "'s Store \<Rightarrow> Faults \<Rightarrow> string \<Rightarrow> string \<Rightarrow> ('s, Transaction) op" where
  "GetTransactionByExternalID st f p x = uow_Do f (Transactions_FindByExternalID st p x)"

subsection \<open>The paged ledger\<close>

definition encodeCursor :: "int64 \<Rightarrow> string" where
  "encodeCursor seq = EncodeToString (''seq:'' @ FormatInt seq)"

definition decodeCursor :: "string \<Rightarrow> error + int64" where
  "decodeCursor c =
    (if c = '''' then Inr 0
     else
       (case DecodeString c of
          None \<Rightarrow> Inl ErrInvalidCursor
        | Some raw \<Rightarrow>
            if length raw < 5 \<or> take 4 raw \<noteq> ''seq:'' then Inl ErrInvalidCursor
            else
              (case ParseInt (drop 4 raw) of
                 Inl _ \<Rightarrow> Inl ErrInvalidCursor
               | Inr n \<Rightarrow> if sint n < 0 then Inl ErrInvalidCursor else Inr n)))"

record LedgerPage =
  lp_Entries :: "LedgerEntry list"
  lp_NextCursor :: string

definition pageLimit :: "int64 \<Rightarrow> int64" where
  "pageLimit limit = (if sint limit \<le> 0 \<or> sint limit > 200 then 50 else limit)"

definition ListLedger ::
  "'s Store \<Rightarrow> Faults \<Rightarrow> uuid \<Rightarrow> string \<Rightarrow> int64 \<Rightarrow> ('s, LedgerPage) op" where
  "ListLedger st f walletID cursor limit =
    (let limit = pageLimit limit in
     obind (lift (decodeCursor cursor)) (\<lambda>after.
     uow_Do f
       (obind (Wallets_Get st walletID) (\<lambda>_.
        obind (Ledger_List st walletID after (limit + 1)) (\<lambda>records.
        ok (if int (length records) > sint limit then
              \<lparr>lp_Entries = map lr_Entry (take (nat (sint limit)) records),
               lp_NextCursor = encodeCursor (lr_Seq (records ! nat (sint limit - 1)))\<rparr>
            else \<lparr>lp_Entries = map lr_Entry records, lp_NextCursor = ''''\<rparr>))))))"

subsection \<open>Reconciliation\<close>

record Reconciliation =
  rc_WalletID :: uuid
  rc_StoredBalance :: Money
  rc_CalculatedBalance :: Money
  rc_Difference :: Money
  rc_Consistent :: bool
  rc_CheckedEntries :: int64

definition Reconcile :: "'s Store \<Rightarrow> Faults \<Rightarrow> uuid \<Rightarrow> ('s, Reconciliation) op" where
  "Reconcile st f walletID =
    uow_Do f
      (obind (Wallets_Get st walletID) (\<lambda>w.
       obind (Ledger_Totals st walletID) (\<lambda>totals.
       obind (lift (FromMinor (lt_Credits totals) (w_currency w))) (\<lambda>credits.
       obind (lift (FromMinor (lt_Debits totals) (w_currency w))) (\<lambda>debits.
       obind (lift (Money_Sub credits debits)) (\<lambda>calculated.
       obind (lift (Money_Sub (w_balance w) calculated)) (\<lambda>diff.
       ok \<lparr>rc_WalletID = w_id w, rc_StoredBalance = w_balance w,
           rc_CalculatedBalance = calculated, rc_Difference = diff,
           rc_Consistent = IsZeroM diff, rc_CheckedEntries = lt_Count totals\<rparr>)))))))"

definition IsNotFound :: "error \<Rightarrow> bool" where
  "IsNotFound e \<longleftrightarrow> e = ErrWalletNotFound \<or> e = ErrTransactionNotFound"

subsection \<open>The cursor\<close>

lemma FormatInt_nonempty: "FormatInt v \<noteq> ''''"
proof
  assume "FormatInt v = ''''"
  then have "ParseInt '''' = Inr v" using ParseInt_FormatInt [of v] by simp
  then show False by (simp add: ParseInt_def)
qed

lemma decodeCursor_encode: "0 \<le> sint n \<Longrightarrow> decodeCursor (encodeCursor n) = Inr n"
proof -
  assume n: "0 \<le> sint n"
  have "encodeCursor n \<noteq> ''''" by (simp add: encodeCursor_def EncodeToString_def)
  then show ?thesis
    using n FormatInt_nonempty [of n]
    by (simp add: decodeCursor_def encodeCursor_def DecodeString_EncodeToString ParseInt_FormatInt
        Suc_le_eq not_less)
qed

text \<open>The cursor of a page is read back as the sequence number it was made from: for every
  sequence number that is not negative, decoding the encoded cursor gives the number; whatever
  is decoded from any other text is a number that is not negative, so a page never starts before
  the ledger; and the empty cursor is the beginning.\<close>

theorem cursor_roundtrip:
  "(0 \<le> sint n \<longrightarrow> decodeCursor (encodeCursor n) = Inr n) \<and>
   (decodeCursor c = Inr k \<longrightarrow> 0 \<le> sint k) \<and> decodeCursor '''' = Inr 0"
proof (intro conjI impI)
  assume "0 \<le> sint n"
  then show "decodeCursor (encodeCursor n) = Inr n" by (rule decodeCursor_encode)
next
  assume "decodeCursor c = Inr k"
  then show "0 \<le> sint k"
    by (auto simp: decodeCursor_def split: if_splits option.splits sum.splits)
next
  show "decodeCursor '''' = Inr 0" by (simp add: decodeCursor_def)
qed

theorem cursor_roundtrip_witness: "decodeCursor (encodeCursor 42) = Inr 42"
  using cursor_roundtrip [of 42] by simp

end
