(* ===== verification/Growth.thy ===== *)
theory Growth
  imports Processing "HOL-Library.Sublist"
begin

text \<open>
  How the content of the database may change over time, whatever the use cases do: rows of the
  ledger, the outbox and the inbox are only added, a wallet keeps its owner, a transaction keeps
  its identity, and a terminal transaction does not change at all.
\<close>

definition continues :: "Transaction \<Rightarrow> Transaction \<Rightarrow> bool" where
  "continues t u \<longleftrightarrow>
    t_id u = t_id t \<and> t_origin u = t_origin t \<and> t_providerID u = t_providerID t \<and>
    t_externalTransactionID u = t_externalTransactionID t \<and>
    t_idempotencyKey u = t_idempotencyKey t \<and> t_payloadHash u = t_payloadHash t \<and>
    t_walletID u = t_walletID t \<and> t_playerID u = t_playerID t \<and> t_roundID u = t_roundID t \<and>
    t_kind u = t_kind t \<and> t_money u = t_money t \<and>
    t_referenceExternalID u = t_referenceExternalID t \<and>
    (IsTerminal (t_status t) \<longrightarrow> u = t)"

definition same_owner :: "Wallet \<Rightarrow> Wallet \<Rightarrow> bool" where
  "same_owner w u \<longleftrightarrow>
    w_id u = w_id w \<and> w_playerID u = w_playerID w \<and> w_currency u = w_currency w"

definition grows :: "View \<Rightarrow> View \<Rightarrow> bool" where
  "grows v v' \<longleftrightarrow>
    prefix (v_ledger v) (v_ledger v') \<and> prefix (v_outbox v) (v_outbox v') \<and>
    (\<forall>t \<in> set (v_txs v). \<exists>u \<in> set (v_txs v'). continues t u) \<and>
    (\<forall>i w. v_wallets v i = Some w \<longrightarrow> (\<exists>u. v_wallets v' i = Some u \<and> same_owner w u)) \<and>
    v_inbox v \<subseteq>\<^sub>m v_inbox v'"

lemma continues_refl [simp]: "continues t t"
  by (simp add: continues_def)

lemma continues_trans: "continues t u \<Longrightarrow> continues u x \<Longrightarrow> continues t x"
  by (auto simp: continues_def)

lemma grows_refl [simp]: "grows v v"
  by (auto simp: grows_def same_owner_def intro: continues_refl)

lemma grows_trans:
  assumes "grows v v'" and "grows v' v''"
  shows "grows v v''"
  unfolding grows_def
proof (intro conjI ballI allI impI)
  show "prefix (v_ledger v) (v_ledger v'')" "prefix (v_outbox v) (v_outbox v'')"
    using assms by (auto simp: grows_def dest: prefix_order.trans)
  show "v_inbox v \<subseteq>\<^sub>m v_inbox v''"
    using assms by (auto simp: grows_def intro: map_le_trans)
next
  fix t assume "t \<in> set (v_txs v)"
  then obtain u where u: "u \<in> set (v_txs v')" "continues t u"
    using assms(1) unfolding grows_def by blast
  then obtain x where "x \<in> set (v_txs v'')" "continues u x"
    using assms(2) unfolding grows_def by blast
  then show "\<exists>x \<in> set (v_txs v''). continues t x" using u(2) continues_trans by blast
next
  fix i w assume "v_wallets v i = Some w"
  then obtain u where u: "v_wallets v' i = Some u" "same_owner w u"
    using assms(1) unfolding grows_def by blast
  then obtain x where "v_wallets v'' i = Some x" "same_owner u x"
    using assms(2) unfolding grows_def by blast
  then show "\<exists>x. v_wallets v'' i = Some x \<and> same_owner w x"
    using u(2) by (auto simp: same_owner_def)
qed

lemma grows_txs:
  assumes "grows v v'" and "t \<in> set (v_txs v)"
  obtains u where "u \<in> set (v_txs v')" and "continues t u"
  using assms unfolding grows_def by blast

lemma grows_settled:
  assumes "settled sw se (v\<lparr>v_txs := ts\<rparr>) entry w' evs v'"
    and "\<forall>t \<in> set (v_txs v). \<exists>u \<in> set ts. continues t u"
    and "v_wallets v (w_id w) = Some w" and "same_owner w w'" and "kept_wallet w' (sw w')"
  shows "grows v v'"
proof (cases entry)
  case None
  then show ?thesis using assms(1,2) by (auto simp: settled_def grows_def same_owner_def)
next
  case (Some e)
  then obtain q where v': "v_ledger v' = v_ledger v @ [\<lparr>lr_Seq = q, lr_Entry = se e\<rparr>]"
      "v_wallets v' = (v_wallets v)(w_id w' \<mapsto> sw w')" "v_outbox v' = v_outbox v @ evs"
      "v_txs v' = ts" "v_inbox v' = v_inbox v"
    using assms(1) by (auto simp: settled_def)
  have "same_owner w (sw w')" "w_id w' = w_id w"
    using assms(4,5) by (auto simp: same_owner_def kept_wallet_def)
  then show ?thesis
    using assms(2,3) unfolding grows_def v' by (auto simp: same_owner_def)
qed

lemma outcome_owner:
  assumes "outcome_ok tx w eid now entry tx' w'"
  shows "same_owner w w'"
proof (cases entry)
  case None
  then show ?thesis using assms by (simp add: outcome_ok_def same_owner_def)
next
  case (Some e)
  then have "w' = w\<lparr>w_balance := w_balance w', w_version := w_version w + 1, w_updatedAt := now\<rparr>"
    using assms by (simp add: outcome_ok_def)
  then show ?thesis by (cases w; cases w') (simp add: same_owner_def)
qed

lemma new_step_grows:
  assumes "new_step sw stx se sv en v hash cmd res v'" and "view_ok v"
    and "\<And>w. kept_wallet w (sw w)"
  shows "grows v v'"
proof -
  obtain w tx entry tx' w' evs where
    w: "v_wallets v (er_WalletID (pc_Request cmd)) = Some w"
    and n: "NewExternal (e_txID en) (pc_Request cmd) (pc_IdempotencyKey cmd) hash (pc_CorrelationID cmd)
        (e_now en) = Inr tx"
    and c: "carry_out sv (e_entryID en) tx w (e_now en) (verdict v tx w) = Inr (entry, tx', w')"
    and st: "settled sw se (v\<lparr>v_txs := v_txs v @ [stx tx']\<rparr>) entry w' evs v'"
    using assms(1) by (auto simp: new_step_def)
  note f = NewExternal_facts [OF n]
  have wi: "v_wallets v (w_id w) = Some w" using assms(2) w by (auto simp: view_ok_def)
  have "\<forall>t \<in> set (v_txs v). \<exists>u \<in> set (v_txs v @ [stx tx']). continues t u" by force
  then show ?thesis
    by (rule grows_settled [OF st _ wi outcome_owner [OF carry_out_ok [OF c f(1,4)]] assms(3)])
qed

lemma retry_step_grows:
  assumes "retry_step sw stx se free sv en v now v'" and "view_ok v" and "e_now en \<noteq> 0"
    and "\<And>t. kept_tx t (stx t)" and "\<And>w. kept_wallet w (sw w)"
  shows "grows v v'"
proof -
  obtain w tx entry tx' w' evs where
    t: "tx \<in> set (v_txs v)" "due now tx"
    and w: "v_wallets v (t_walletID tx) = Some w"
    and c: "carry_out sv (e_entryID en) tx w (e_now en) (verdict v tx w) = Inr (entry, tx', w')"
    and st: "settled sw se (v\<lparr>v_txs := map (\<lambda>u. if t_id u = t_id tx then stx tx' else u) (v_txs v)\<rparr>)
        entry w' evs v'"
    using assms(1) unfolding retry_step_def by blast
  have inv: "tx_inv tx" and wi: "v_wallets v (w_id w) = Some w"
    using assms(2) w t by (auto simp: view_ok_def)
  note oc = carry_out_ok [OF c inv assms(3)]
  have co: "continues tx (stx tx')"
    using assms(4) [of tx'] oc t(2)
    by (auto simp: kept_tx_def outcome_ok_def same_identity_def continues_def due_def)
  have "\<exists>u \<in> set (map (\<lambda>u. if t_id u = t_id tx then stx tx' else u) (v_txs v)). continues x u"
    if x: "x \<in> set (v_txs v)" for x
  proof (cases "t_id x = t_id tx")
    case True
    then have "x = tx"
      using unique_onD [of "\<lambda>_. True" t_id "v_txs v" x tx] assms(2) t(1) x by (auto simp: view_ok_def)
    then show ?thesis using co x by force
  next
    case False
    then show ?thesis using x by force
  qed
  then show ?thesis
    by (intro grows_settled [OF st _ wi outcome_owner [OF oc] assms(5)]) blast
qed

end
