(* ===== verification/Books.thy ===== *)
theory Books
  imports WalletOps Growth
begin

text \<open>
  The invariant of the books: what the content of the database says of money, whatever the
  use cases have done to it. Every wallet's entries form a chain from zero to its balance, the
  entries are exactly the movements of the PROCESSED transactions, and every PROCESSED reversal
  answers a PROCESSED transaction of the same wallet and amount. The steps of the theory
  Processing and the opening of a wallet keep it.
\<close>

fun chain :: "int \<Rightarrow> LedgerEntry list \<Rightarrow> int \<Rightarrow> bool" where
  "chain b [] b' \<longleftrightarrow> b = b'"
| "chain b (e # es) b' \<longleftrightarrow> units (l_balanceBefore e) = b \<and> chain (units (l_balanceAfter e)) es b'"

definition moves :: "Transaction \<Rightarrow> bool" where
  "moves t \<longleftrightarrow> t_status t = StatusProcessed \<and> t_kind t \<noteq> KindLoss"

definition posts :: "Transaction \<Rightarrow> LedgerEntry \<Rightarrow> bool" where
  "posts t e \<longleftrightarrow> moves t \<and> l_transactionID e = t_id t \<and> l_walletID e = t_walletID t \<and>
    l_amount e = t_money t \<and> t_resultBalance t = Some (l_balanceAfter e)"

definition ledger_entries :: "View \<Rightarrow> LedgerEntry list" where
  "ledger_entries v = map lr_Entry (v_ledger v)"

definition opened :: "View \<Rightarrow> uuid \<Rightarrow> bool" where
  "opened v i \<longleftrightarrow> (\<exists>t \<in> set (v_txs v). t_kind t = KindOpening \<and> t_walletID t = i)"

definition balanced :: "View \<Rightarrow> bool" where
  "balanced v \<longleftrightarrow> (\<forall>i w. v_wallets v i = Some w \<longrightarrow>
    chain 0 (entries v i) (units (w_balance w)) \<and>
    (\<forall>e \<in> set (entries v i). m_currency (l_amount e) = w_currency w) \<and>
    sint (w_version w) + (if opened v i then 1 else 0) = 1 + int (length (entries v i)))"

definition owned :: "View \<Rightarrow> bool" where
  "owned v \<longleftrightarrow> (\<forall>e \<in> set (ledger_entries v). v_wallets v (l_walletID e) \<noteq> None) \<and>
    (\<forall>t \<in> set (v_txs v). v_wallets v (t_walletID t) \<noteq> None)"

definition posted :: "View \<Rightarrow> bool" where
  "posted v \<longleftrightarrow>
    (\<forall>e \<in> set (ledger_entries v). \<exists>t \<in> set (v_txs v). posts t e) \<and>
    (\<forall>t \<in> set (v_txs v). moves t \<longrightarrow> (\<exists>e \<in> set (ledger_entries v). posts t e))"

definition answers :: "Transaction \<Rightarrow> Transaction \<Rightarrow> bool" where
  "answers t r \<longleftrightarrow> t_referenceID t = Some (t_id r) \<and> t_status r = StatusProcessed \<and>
    allowedReference (t_kind t) (t_kind r) \<and> t_money r = t_money t \<and>
    t_walletID r = t_walletID t \<and> t_playerID r = t_playerID t \<and> t_roundID r = t_roundID t"

definition reversals_sound :: "View \<Rightarrow> bool" where
  "reversals_sound v \<longleftrightarrow> (\<forall>t \<in> set (v_txs v). t_status t = StatusProcessed \<and> IsReversal (t_kind t) \<longrightarrow>
    (\<exists>r \<in> set (v_txs v). answers t r))"

definition books :: "View \<Rightarrow> bool" where
  "books v \<longleftrightarrow> balanced v \<and> owned v \<and> posted v \<and> reversals_sound v"

subsection \<open>The chain\<close>

lemma chain_snoc:
  "chain b (es @ [e]) b' \<longleftrightarrow>
    chain b es (units (l_balanceBefore e)) \<and> units (l_balanceAfter e) = b'"
  by (induction es arbitrary: b) auto

lemma chain_sum:
  assumes "chain b es b'" and "\<forall>e \<in> set es. entry_inv e"
  shows "b' = b + sum_list (map signed_amount es)"
proof -
  have "\<forall>e \<in> set es. units (l_balanceAfter e) = units (l_balanceBefore e) + signed_amount e"
    using assms(2) by (auto simp: entry_inv_def)
  with assms(1) show ?thesis
    by (induction es arbitrary: b) (auto, fastforce)
qed

subsection \<open>What a verdict implies\<close>

lemma reference_verdict_use:
  assumes "reference_verdict v tx use = vd" and "vd = Keep \<or> (\<exists>d r c. vd = Move d r c)"
  obtains r where "by_ext v (t_providerID tx) (t_referenceExternalID tx) = Some r" and "vd = use r"
    and "t_status r = StatusProcessed" and "allowedReference (t_kind tx) (t_kind r)"
    and "t_playerID r = t_playerID tx" and "t_walletID r = t_walletID tx"
    and "t_roundID r = t_roundID tx" and "m_currency (t_money r) = m_currency (t_money tx)"
    and "IsReversal (t_kind tx) \<Longrightarrow> t_money r = t_money tx"
    and "IsReversal (t_kind tx) \<Longrightarrow> \<not> (\<exists>u \<in> set (v_txs v). reverses (t_id r) u)"
proof -
  obtain r where b: "by_ext v (t_providerID tx) (t_referenceExternalID tx) = Some r"
    using assms by (cases "by_ext v (t_providerID tx) (t_referenceExternalID tx)")
      (auto simp: reference_verdict_def)
  note a = assms(1) [unfolded reference_verdict_def b option.case]
  show ?thesis
    by (rule that [OF b]) (use a assms(2) in \<open>auto split: if_splits\<close>)
qed

lemma verdict_Keep: "verdict v tx w = Keep \<Longrightarrow> t_kind tx = KindLoss"
  by (cases "t_kind tx")
    (auto simp: verdict_def split: if_splits elim!: reference_verdict_use)

lemma verdict_Move:
  assumes "verdict v tx w = Move d r c"
  shows "t_kind tx \<noteq> KindLoss" and "t_kind tx \<noteq> KindOpening"
    and "IsReversal (t_kind tx) \<Longrightarrow> \<exists>ref. by_ext v (t_providerID tx) (t_referenceExternalID tx) = Some ref \<and>
      r = Some (t_id ref) \<and> t_status ref = StatusProcessed \<and>
      allowedReference (t_kind tx) (t_kind ref) \<and> t_money ref = t_money tx \<and>
      t_walletID ref = t_walletID tx \<and> t_playerID ref = t_playerID tx \<and> t_roundID ref = t_roundID tx"
proof -
  show "t_kind tx \<noteq> KindLoss" "t_kind tx \<noteq> KindOpening"
    using assms by (auto simp: verdict_def split: if_splits)
  assume rev: "IsReversal (t_kind tx)"
  then obtain use where u: "reference_verdict v tx use = Move d r c"
      "\<And>x d r c. use x = Move d r c \<Longrightarrow> r = Some (t_id x)"
  proof -
    have "t_kind tx = KindRefund \<or> t_kind tx = KindRollback"
      using rev by (simp add: IsReversal_def)
    then show ?thesis
    proof
      assume "t_kind tx = KindRefund"
      then show ?thesis
        by (intro that [of "\<lambda>r. Move Credit (Some (t_id r)) None"])
          (use assms in \<open>auto simp: verdict_def split: if_splits\<close>)
    next
      assume "t_kind tx = KindRollback"
      then show ?thesis
        by (intro that [of "\<lambda>r. if t_kind r = KindBet then Move Credit (Some (t_id r)) None
              else Move Debit (Some (t_id r)) (Some FailureReversalInsufficientFunds)"])
          (use assms in \<open>auto simp: verdict_def split: if_splits\<close>)
    qed
  qed
  show "\<exists>ref. by_ext v (t_providerID tx) (t_referenceExternalID tx) = Some ref \<and>
      r = Some (t_id ref) \<and> t_status ref = StatusProcessed \<and>
      allowedReference (t_kind tx) (t_kind ref) \<and> t_money ref = t_money tx \<and>
      t_walletID ref = t_walletID tx \<and> t_playerID ref = t_playerID tx \<and> t_roundID ref = t_roundID tx"
    using u(1)
  proof (rule reference_verdict_use)
    show "Move d r c = Keep \<or> (\<exists>d' r' c'. Move d r c = Move d' r' c')" by blast
  next
    fix ref assume "by_ext v (t_providerID tx) (t_referenceExternalID tx) = Some ref"
      "Move d r c = use ref" "t_status ref = StatusProcessed" "allowedReference (t_kind tx) (t_kind ref)"
      "t_playerID ref = t_playerID tx" "t_walletID ref = t_walletID tx" "t_roundID ref = t_roundID tx"
      "IsReversal (t_kind tx) \<Longrightarrow> t_money ref = t_money tx"
    then show ?thesis using u(2) [of ref d r c] rev by auto
  qed
qed

text \<open>The direction of a movement is that of the kind: a bet and the reversal of a credit take money,
  the others give it.\<close>

lemma carry_out_moves:
  assumes "carry_out sv eid tx w now (verdict v tx w) = Inr (entry, t', w')"
    and "tx_inv tx" and "now \<noteq> 0"
  shows "moves t' \<longleftrightarrow> entry \<noteq> None"
    and "moves t' \<Longrightarrow> IsReversal (t_kind t') \<Longrightarrow>
      \<exists>ref. by_ext v (t_providerID tx) (t_referenceExternalID tx) = Some ref \<and> answers t' ref"
proof -
  note oc = carry_out_ok [OF assms]
  then have k: "t_kind t' = t_kind tx" by (simp add: outcome_ok_def same_identity_def)
  have "(moves t' \<longleftrightarrow> entry \<noteq> None) \<and> (moves t' \<longrightarrow> IsReversal (t_kind t') \<longrightarrow>
      (\<exists>ref. by_ext v (t_providerID tx) (t_referenceExternalID tx) = Some ref \<and> answers t' ref))"
  proof (cases "verdict v tx w")
    case (Refuse c)
    then show ?thesis using assms(1) by (auto simp: moves_def MarkRejected_Inr)
  next
    case Wait
    then show ?thesis
      using assms(1) by (auto simp: moves_def dest: park_ok(4) [OF _ assms(2,3)])
  next
    case Keep
    then show ?thesis
      using assms(1) verdict_Keep [OF Keep] k by (auto simp: moves_def)
  next
    case (Move d r c)
    then have m: "settle c (refer r tx) w now
        (move d w eid (t_id (refer r tx)) (t_money (refer r tx)) now) = Inr (entry, t', w')"
      using assms(1) by simp
    note s = settle_ok [OF m refer_inv [OF assms(2)] assms(3)]
    note vm = verdict_Move [OF Move]
    show ?thesis
    proof (cases entry)
      case None
      then show ?thesis using s(2) by (simp add: moves_def)
    next
      case (Some e)
      have st: "t_status t' = StatusProcessed" using oc Some by (simp add: outcome_ok_def)
      have rid: "t_referenceID t' = t_referenceID (refer r tx)" using s(3) Some by blast
      have "\<exists>ref. by_ext v (t_providerID tx) (t_referenceExternalID tx) = Some ref \<and> answers t' ref"
        if "IsReversal (t_kind t')"
      proof -
        obtain ref where ref: "by_ext v (t_providerID tx) (t_referenceExternalID tx) = Some ref"
          "r = Some (t_id ref)" "t_status ref = StatusProcessed"
          "allowedReference (t_kind tx) (t_kind ref)" "t_money ref = t_money tx"
          "t_walletID ref = t_walletID tx" "t_playerID ref = t_playerID tx" "t_roundID ref = t_roundID tx"
          using vm(3) \<open>IsReversal (t_kind t')\<close> k by auto
        moreover have "answers t' ref"
          using ref rid oc by (auto simp: answers_def outcome_ok_def same_identity_def refer_def)
        ultimately show ?thesis by blast
      qed
      then show ?thesis using st Some vm(1) k by (simp add: moves_def)
    qed
  qed
  then show "moves t' \<longleftrightarrow> entry \<noteq> None"
    "moves t' \<Longrightarrow> IsReversal (t_kind t') \<Longrightarrow>
      \<exists>ref. by_ext v (t_providerID tx) (t_referenceExternalID tx) = Some ref \<and> answers t' ref"
    by blast+
qed

subsection \<open>A step keeps the books\<close>

text \<open>How a step changes the transactions: one is added or replaces a pending one, and everything
  else stays.\<close>

definition tx_change :: "View \<Rightarrow> Transaction \<Rightarrow> Transaction list \<Rightarrow> bool" where
  "tx_change v x ts \<longleftrightarrow> x \<in> set ts \<and> (\<forall>t \<in> set ts. t = x \<or> t \<in> set (v_txs v)) \<and>
    (\<forall>t \<in> set (v_txs v). t \<in> set ts \<or>
      (\<not> IsTerminal (t_status t) \<and> t_id t = t_id x \<and> t_kind t = t_kind x))"

lemma tx_change_stays:
  "tx_change v x ts \<Longrightarrow> t \<in> set (v_txs v) \<Longrightarrow> t_status t = StatusProcessed \<Longrightarrow> t \<in> set ts"
  by (auto simp: tx_change_def)

lemma tx_change_append: "tx_change v x (v_txs v @ [x])"
  by (auto simp: tx_change_def)

lemma tx_change_replace:
  assumes "unique_on (\<lambda>_. True) t_id (v_txs v)" and "t \<in> set (v_txs v)" and "t_id x = t_id t"
    and "t_kind x = t_kind t" and "\<not> IsTerminal (t_status t)"
  shows "tx_change v x (map (\<lambda>u. if t_id u = t_id t then x else u) (v_txs v))"
  unfolding tx_change_def
proof (intro conjI ballI)
  show "x \<in> set (map (\<lambda>u. if t_id u = t_id t then x else u) (v_txs v))" using assms(2) by force
next
  fix u assume "u \<in> set (map (\<lambda>u. if t_id u = t_id t then x else u) (v_txs v))"
  then show "u = x \<or> u \<in> set (v_txs v)" by (auto split: if_splits)
next
  fix u assume u: "u \<in> set (v_txs v)"
  show "u \<in> set (map (\<lambda>u. if t_id u = t_id t then x else u) (v_txs v)) \<or>
      (\<not> IsTerminal (t_status u) \<and> t_id u = t_id x \<and> t_kind u = t_kind x)"
  proof (cases "t_id u = t_id t")
    case True
    then have "u = t" using unique_onD [OF assms(1) u assms(2)] by simp
    then show ?thesis using assms by simp
  next
    case False
    then show ?thesis using u by force
  qed
qed

lemma moves_kept: "kept_tx t u \<Longrightarrow> moves u \<longleftrightarrow> moves t"
  by (simp add: kept_tx_def moves_def)

lemma answers_kept: "kept_tx t u \<Longrightarrow> answers t r \<Longrightarrow> answers u r"
  by (simp add: kept_tx_def answers_def)

lemma opened_change:
  assumes "tx_change v x ts" and "t_kind x \<noteq> KindOpening"
  shows "opened (v\<lparr>v_txs := ts, v_ledger := l, v_wallets := ws, v_outbox := ob\<rparr>) i \<longleftrightarrow> opened v i"
proof -
  have "t \<in> set ts \<longleftrightarrow> t \<in> set (v_txs v)" if "t_kind t = KindOpening" for t
    using assms that unfolding tx_change_def by metis
  then show ?thesis unfolding opened_def by auto
qed

text \<open>The change a settled outcome makes, in one form for both cases.\<close>

definition entry_records :: "(LedgerEntry \<Rightarrow> LedgerEntry) \<Rightarrow> int64 \<Rightarrow> LedgerEntry option \<Rightarrow> LedgerRecord list"
  where "entry_records se q entry =
    (case entry of None \<Rightarrow> [] | Some e \<Rightarrow> [\<lparr>lr_Seq = q, lr_Entry = se e\<rparr>])"

lemma settled_form:
  assumes "settled sw se v entry w evs v'"
  obtains q where "v' = v\<lparr>v_ledger := v_ledger v @ entry_records se q entry,
      v_wallets := (case entry of None \<Rightarrow> v_wallets v | Some _ \<Rightarrow> (v_wallets v)(w_id w \<mapsto> sw w)),
      v_outbox := v_outbox v @ evs\<rparr>"
proof (cases entry)
  case None
  then show ?thesis using that [of 0] assms by (simp add: settled_def entry_records_def)
next
  case (Some e)
  then obtain q where "v' = v\<lparr>v_ledger := v_ledger v @ [\<lparr>lr_Seq = q, lr_Entry = se e\<rparr>],
      v_wallets := (v_wallets v)(w_id w \<mapsto> sw w), v_outbox := v_outbox v @ evs\<rparr>"
    using assms by (auto simp: settled_def)
  then show ?thesis using that [of q] Some by (simp add: entry_records_def)
qed

lemma outcome_entry:
  assumes "outcome_ok tx w eid now (Some e) tx' w'"
  shows "w_id w' = w_id w" "w_currency w' = w_currency w" "w_version w' = w_version w + 1"
    "w_playerID w' = w_playerID w" "w_createdAt w' = w_createdAt w"
  using assms by (cases w; cases w'; auto simp: outcome_ok_def)+

lemma settled_books:
  assumes vok': "view_ok v'" and b: "books v"
    and w: "v_wallets v (w_id w) = Some w" "t_walletID tx = w_id w" "wallet_inv w"
    and oc: "outcome_ok tx w eid now entry tx' w'"
    and mv: "moves tx' \<longleftrightarrow> entry \<noteq> None"
    and rev: "moves tx' \<Longrightarrow> IsReversal (t_kind tx') \<Longrightarrow> \<exists>ref \<in> set (v_txs v). answers tx' ref"
    and kind: "t_kind tx \<noteq> KindOpening"
    and kept: "kept_tx tx' x" "kept_wallet w' (sw w')" "\<And>e. kept_entry e (se e)"
    and ch: "tx_change v x ts"
    and st: "settled sw se (v\<lparr>v_txs := ts\<rparr>) entry w' evs v'"
  shows "books v'"
proof -
  obtain q where v': "v' = v\<lparr>v_txs := ts, v_ledger := v_ledger v @ entry_records se q entry,
      v_wallets := (case entry of None \<Rightarrow> v_wallets v | Some _ \<Rightarrow> (v_wallets v)(w_id w' \<mapsto> sw w')),
      v_outbox := v_outbox v @ evs\<rparr>"
  proof -
    obtain q where "v' = (v\<lparr>v_txs := ts\<rparr>)\<lparr>v_ledger := v_ledger (v\<lparr>v_txs := ts\<rparr>) @ entry_records se q entry,
      v_wallets := (case entry of None \<Rightarrow> v_wallets (v\<lparr>v_txs := ts\<rparr>)
        | Some _ \<Rightarrow> (v_wallets (v\<lparr>v_txs := ts\<rparr>))(w_id w' \<mapsto> sw w')),
      v_outbox := v_outbox (v\<lparr>v_txs := ts\<rparr>) @ evs\<rparr>"
      by (rule settled_form [OF st])
    then show ?thesis by (intro that [of q]) (cases entry; simp)
  qed
  have x: "t_id x = t_id tx" "t_walletID x = w_id w" "t_kind x \<noteq> KindOpening"
    using kept(1) oc w(2) kind by (auto simp: kept_tx_def outcome_ok_def same_identity_def)
  have op: "opened v' i = opened v i" for i
    unfolding v' by (rule opened_change [OF ch x(3)])
  have entries': "entries v' i = entries v i @ (case entry of
      None \<Rightarrow> [] | Some e \<Rightarrow> if w_id w = i then [se e] else [])" for i
    using oc kept(3) unfolding v' entries_def entry_records_def
    by (auto simp: outcome_ok_def kept_entry_def split: option.splits)
  have ledger': "ledger_entries v' = ledger_entries v @ (case entry of None \<Rightarrow> [] | Some e \<Rightarrow> [se e])"
    unfolding v' ledger_entries_def entry_records_def by (simp split: option.splits)
  have ws: "v_wallets v' i = (case entry of None \<Rightarrow> v_wallets v i
      | Some _ \<Rightarrow> if i = w_id w then Some (sw w') else v_wallets v i)" for i
    using oc unfolding v' by (cases entry) (auto simp: outcome_entry(1))
  have dom: "v_wallets v i \<noteq> None \<Longrightarrow> v_wallets v' i \<noteq> None" for i
    unfolding ws by (cases entry) auto
  have "balanced v'"
    unfolding balanced_def
  proof (intro allI impI)
    fix i u assume u: "v_wallets v' i = Some u"
    show "chain 0 (entries v' i) (units (w_balance u)) \<and>
      (\<forall>e \<in> set (entries v' i). m_currency (l_amount e) = w_currency u) \<and>
      sint (w_version u) + (if opened v' i then 1 else 0) = 1 + int (length (entries v' i))"
    proof (cases "entry \<noteq> None \<and> i = w_id w")
      case False
      then have "v_wallets v i = Some u" "entries v' i = entries v i"
        using u unfolding ws entries' by (auto split: option.splits if_splits)
      then show ?thesis using b op by (simp add: books_def balanced_def)
    next
      case True
      then obtain e where e: "entry = Some e" and i: "i = w_id w" by auto
      note oe = outcome_entry [OF oc [unfolded e]]
      have u': "u = sw w'" using u unfolding ws e i by simp
      have bw: "chain 0 (entries v i) (units (w_balance w))"
        "\<forall>e \<in> set (entries v i). m_currency (l_amount e) = w_currency w"
        "sint (w_version w) + (if opened v i then 1 else 0) = 1 + int (length (entries v i))"
        using b w(1) i by (auto simp: books_def balanced_def)
      have ent: "entries v' i = entries v i @ [se e]" unfolding entries' e by (simp add: i)
      have f: "l_balanceBefore (se e) = w_balance w" "l_balanceAfter (se e) = w_balance w'"
          "m_currency (l_amount (se e)) = w_currency w"
        using oc kept(3) [of e] by (auto simp: e outcome_ok_def kept_entry_def)
      have ku: "w_balance u = w_balance w'" "w_currency u = w_currency w" "w_version u = w_version w + 1"
        using kept(2) oe by (auto simp: u' kept_wallet_def)
      have "wallet_inv u" using vok' u by (auto simp: view_ok_def)
      then have pos: "1 \<le> sint (w_version w + 1)" using ku(3) by (simp add: wallet_inv_def)
      have "sint (w_version w) < max_int64"
      proof (rule ccontr)
        assume "\<not> sint (w_version w) < max_int64"
        then have "w_version w = MaxInt64"
          using sint64_le [of "w_version w"] sint_inject64 [of "w_version w" MaxInt64] by simp
        then show False using pos by simp
      qed
      then have vs: "sint (w_version w + 1) = sint (w_version w) + 1"
        using sint_add64 [of "w_version w" 1] sint64_ge [of "w_version w"] by (simp add: fits64_def)
      show ?thesis
        unfolding ent ku chain_snoc f op vs using bw f(3) by auto
    qed
  qed
  moreover have "owned v'"
  proof -
    have "v_wallets v' (l_walletID g) \<noteq> None" if g: "g \<in> set (ledger_entries v')" for g
    proof (cases "g \<in> set (ledger_entries v)")
      case True
      then show ?thesis using b dom by (auto simp: books_def owned_def)
    next
      case False
      then obtain e where "entry = Some e" "g = se e"
        using g unfolding ledger' by (auto split: option.splits)
      then have "l_walletID g = w_id w"
        using oc kept(3) [of e] by (auto simp: outcome_ok_def kept_entry_def)
      then show ?thesis using dom w(1) by auto
    qed
    moreover have "v_wallets v' (t_walletID t) \<noteq> None" if "t \<in> set (v_txs v')" for t
    proof (cases "t = x")
      case True
      then show ?thesis using dom w(1) x(2) by auto
    next
      case False
      then have "t \<in> set (v_txs v)" using that ch unfolding v' by (auto simp: tx_change_def)
      then show ?thesis using b dom by (auto simp: books_def owned_def)
    qed
    ultimately show ?thesis by (simp add: owned_def)
  qed
  moreover have "posted v'"
  proof -
    have tsv: "v_txs v' = ts" by (simp add: v')
    have new: "posts x (se e)" if "entry = Some e" for e
    proof -
      have c: "t_resultBalance tx' = Some (w_balance w')" "m_currency (w_balance w') = m_currency (t_money tx')"
        "t_money tx' = t_money tx"
        using oc that by (auto simp: outcome_ok_def entry_inv_def same_identity_def)
      then have "t_resultBalance x = Some (w_balance w')" using kept(1) by (auto simp: kept_tx_def)
      then show ?thesis
        using oc kept(3) [of e] x that c mv moves_kept [OF kept(1)] kept(1)
        by (auto simp: posts_def outcome_ok_def kept_entry_def kept_tx_def)
    qed
    have "\<exists>t \<in> set ts. posts t g" if g: "g \<in> set (ledger_entries v')" for g
    proof (cases "g \<in> set (ledger_entries v)")
      case True
      then obtain t where "t \<in> set (v_txs v)" "posts t g"
        using b by (auto simp: books_def posted_def)
      then show ?thesis using tx_change_stays [OF ch] by (auto simp: posts_def moves_def)
    next
      case False
      then obtain e where "entry = Some e" "g = se e"
        using g unfolding ledger' by (auto split: option.splits)
      then show ?thesis using new ch by (auto simp: tx_change_def)
    qed
    moreover have "\<exists>g \<in> set (ledger_entries v'). posts t g" if t: "t \<in> set ts" "moves t" for t
    proof (cases "t = x")
      case True
      then obtain e where "entry = Some e" using t mv moves_kept [OF kept(1)] by auto
      then show ?thesis using new True unfolding ledger' by auto
    next
      case False
      then have "t \<in> set (v_txs v)" using that ch by (auto simp: tx_change_def)
      then show ?thesis using b that unfolding ledger' by (auto simp: books_def posted_def)
    qed
    ultimately show ?thesis unfolding posted_def tsv by blast
  qed
  moreover have "reversals_sound v'"
    unfolding reversals_sound_def
  proof (intro ballI impI, elim conjE)
    fix t assume t: "t \<in> set (v_txs v')" "t_status t = StatusProcessed" "IsReversal (t_kind t)"
    have "\<exists>r \<in> set (v_txs v). answers t r"
    proof (cases "t = x")
      case True
      then have "moves tx'" "IsReversal (t_kind tx')"
        using t kept(1) moves_kept [OF kept(1)] by (auto simp: moves_def IsReversal_def kept_tx_def)
      then show ?thesis using rev answers_kept [OF kept(1)] True by blast
    next
      case False
      then have "t \<in> set (v_txs v)" using t(1) ch unfolding v' by (auto simp: tx_change_def)
      then show ?thesis using b t by (auto simp: books_def reversals_sound_def)
    qed
    then obtain r where "r \<in> set (v_txs v)" "answers t r" by blast
    then show "\<exists>r \<in> set (v_txs v'). answers t r"
      using tx_change_stays [OF ch, of r] unfolding v' by (auto simp: answers_def)
  qed
  ultimately show ?thesis by (simp add: books_def)
qed

subsection \<open>The steps of the use cases keep the books\<close>

lemma new_step_books:
  assumes "new_step sw stx se sv en v hash cmd res v'" and "view_ok v" and "view_ok v'" and "books v"
    and "\<And>t. kept_tx t (stx t)" and "\<And>w. kept_wallet w (sw w)" and "\<And>e. kept_entry e (se e)"
  shows "books v'"
proof -
  obtain w tx entry tx' w' evs where
    w: "v_wallets v (er_WalletID (pc_Request cmd)) = Some w"
    and n: "NewExternal (e_txID en) (pc_Request cmd) (pc_IdempotencyKey cmd) hash (pc_CorrelationID cmd)
        (e_now en) = Inr tx"
    and c: "carry_out sv (e_entryID en) tx w (e_now en) (verdict v tx w) = Inr (entry, tx', w')"
    and st: "settled sw se (v\<lparr>v_txs := v_txs v @ [stx tx']\<rparr>) entry w' evs v'"
    using assms(1) by (auto simp: new_step_def)
  note f = NewExternal_facts [OF n]
  have wi: "wallet_inv w" "w_id w = er_WalletID (pc_Request cmd)"
    using assms(2) w by (auto simp: view_ok_def)
  note cm = carry_out_moves [OF c f(1,4)]
  have "t_kind tx \<noteq> KindOpening" using n by (auto simp: NewExternal_Inr request_ok_iff)
  moreover have "\<exists>ref \<in> set (v_txs v). answers tx' ref" if "moves tx'" "IsReversal (t_kind tx')"
    using cm(2) [OF that] by_ext_Some [OF assms(2)] by auto
  ultimately show ?thesis
    using settled_books [OF assms(3,4) _ _ wi(1) carry_out_ok [OF c f(1,4)] cm(1) _ _
        assms(5,6,7) tx_change_append st] w wi f(8) by auto
qed

lemma retry_step_books:
  assumes "retry_step sw stx se free sv en v now v'" and "view_ok v" and "view_ok v'" and "books v"
    and "e_now en \<noteq> 0"
    and "\<And>t. kept_tx t (stx t)" and "\<And>w. kept_wallet w (sw w)" and "\<And>e. kept_entry e (se e)"
  shows "books v'"
proof -
  obtain w tx entry tx' w' evs where
    t: "tx \<in> set (v_txs v)" "due now tx"
    and w: "v_wallets v (t_walletID tx) = Some w"
    and c: "carry_out sv (e_entryID en) tx w (e_now en) (verdict v tx w) = Inr (entry, tx', w')"
    and st: "settled sw se (v\<lparr>v_txs := map (\<lambda>u. if t_id u = t_id tx then stx tx' else u) (v_txs v)\<rparr>)
        entry w' evs v'"
    using assms(1) unfolding retry_step_def by blast
  have inv: "tx_inv tx" and wi: "wallet_inv w" "w_id w = t_walletID tx"
    using assms(2) w t by (auto simp: view_ok_def)
  note cm = carry_out_moves [OF c inv assms(5)]
  note oc = carry_out_ok [OF c inv assms(5)]
  have pend: "t_status tx = StatusPendingReference" using t(2) by (simp add: due_def)
  then have kind: "t_kind tx \<noteq> KindOpening"
    using inv by (auto simp: tx_inv_def status_shape_def IsReversal_def)
  have "t_id (stx tx') = t_id tx" "t_kind (stx tx') = t_kind tx"
    using assms(6) [of tx'] oc by (auto simp: kept_tx_def outcome_ok_def same_identity_def)
  then have ch: "tx_change v (stx tx') (map (\<lambda>u. if t_id u = t_id tx then stx tx' else u) (v_txs v))"
    using tx_change_replace [of v tx "stx tx'"] assms(2) t(1) pend by (simp add: view_ok_def)
  have rev: "\<exists>ref \<in> set (v_txs v). answers tx' ref" if "moves tx'" "IsReversal (t_kind tx')"
    using cm(2) [OF that] by_ext_Some [OF assms(2)] by auto
  have wv: "v_wallets v (w_id w) = Some w" and tw: "t_walletID tx = w_id w" using w wi by simp_all
  show ?thesis
    by (rule settled_books [OF assms(3,4) wv tw wi(1) oc cm(1) rev kind assms(6,7,8) ch st])
qed

text \<open>A new wallet with its opening entry.\<close>

lemma opening_books:
  assumes "books v" and "v_wallets v (w_id w) = None" and "w_version u = 1"
    and "w_balance u = w_balance w" and "w_currency u = w_currency w"
    and "w_currency w = m_currency (w_balance w)"
    and "t_walletID x = w_id w" and "t_kind x = KindOpening" and "posts x e"
    and "l_balanceAfter e = w_balance w" and "units (l_balanceBefore e) = 0" and "entry_inv e"
  shows "books (v\<lparr>v_wallets := (v_wallets v)(w_id w \<mapsto> u), v_txs := v_txs v @ [x],
      v_ledger := v_ledger v @ [\<lparr>lr_Seq = q, lr_Entry = e\<rparr>], v_outbox := ob\<rparr>)" (is "books ?v")
proof -
  have le: "l_walletID e = w_id w" and x: "moves x" using assms(7,9) by (auto simp: posts_def)
  have own: "owned v" and bal: "balanced v" and pos: "posted v" and rev: "reversals_sound v"
    using assms(1) by (simp_all add: books_def)
  have none: "entries v (w_id w) = []" "\<not> opened v (w_id w)"
    using own assms(2) unfolding owned_def entries_def ledger_entries_def opened_def filter_empty_conv
    by auto
  have ent: "entries ?v i = entries v i @ (if i = w_id w then [e] else [])" for i
    using le by (auto simp: entries_def)
  have op: "opened ?v i \<longleftrightarrow> opened v i \<or> i = w_id w" for i
    using assms(7,8) by (auto simp: opened_def)
  have cur: "m_currency (l_amount e) = w_currency w"
    using assms(6,10,12) by (simp add: entry_inv_def)
  have "balanced ?v"
    unfolding balanced_def ent op
    using bal none assms(3-5,10,11) cur by (auto simp: balanced_def)
  moreover have "owned ?v" using own le assms(7) by (auto simp: owned_def ledger_entries_def)
  moreover have "posted ?v"
    using pos x assms(9) unfolding posted_def ledger_entries_def by auto
  moreover have "reversals_sound ?v"
    using rev assms(8) by (auto simp: reversals_sound_def IsReversal_def)
  ultimately show ?thesis by (simp add: books_def)
qed

lemma empty_wallet_books:
  assumes "books v" and "v_wallets v (w_id w) = None" and "w_version u = 1"
    and "units (w_balance u) = 0"
  shows "books (v\<lparr>v_wallets := (v_wallets v)(w_id w \<mapsto> u)\<rparr>)" (is "books ?v")
proof -
  have own: "owned v" and bal: "balanced v" using assms(1) by (simp_all add: books_def)
  have none: "entries v (w_id w) = []" "\<not> opened v (w_id w)"
    using own assms(2) unfolding owned_def entries_def ledger_entries_def opened_def filter_empty_conv
    by auto
  have same: "entries ?v i = entries v i" "opened ?v i = opened v i" for i
    by (simp_all add: entries_def opened_def)
  have "balanced ?v"
    unfolding balanced_def same using bal none assms(3,4) by (auto simp: balanced_def)
  moreover have "owned ?v" using own by (auto simp: owned_def ledger_entries_def)
  moreover have "posted ?v" "reversals_sound ?v"
    using assms(1) by (auto simp: books_def posted_def reversals_sound_def ledger_entries_def)
  ultimately show ?thesis by (simp add: books_def)
qed

text \<open>Opening a wallet, from the code.\<close>

context database
begin

lemma openIn_books:
  assumes "I s" and "books (view s)" and "Open i p m now = Inr w" and "clock_ok now"
    and "e_now en = now" and "openIn sv st en cmd w s = (Inr u, s')"
  shows "I s'" and "books (view s')" and "v_wallets (view s) (w_id w) = None"
    and "v_wallets (view s') (w_id w) = Some (stored_w w)"
    and "grows (view s) (view s')"
proof -
  have w: "wallet_inv w" "w_createdAt w = now" "w_updatedAt w = now" "w_version w = 1"
      "w_currency w = m_currency (w_balance w)" "w_id w = i"
    using Open_inv [OF assms(3)] assms(3) by (auto simp: Open_Inr)
  obtain s1 where c: "Wallets_Create st w s = (Inr (), s1)"
    and k: "(if IsZeroM (w_balance w) then ok ()
    else
      obind (lift (NewOpening (e_txID en) (w_id w) (w_playerID w) (w_balance w)
                     (oc_CorrelationID cmd) (e_now en))) (\<lambda>tx.
      obind (lift (MarkProcessed tx (w_balance w) (e_now en))) (\<lambda>tx.
      obind (lift (Money_Zero (w_currency w))) (\<lambda>zero.
      obind (lift (NewLedgerEntry (e_entryID en) (w_id w) (t_id tx) (Direction_string Credit)
                     (w_balance w) zero (w_balance w) (e_now en))) (\<lambda>entry.
      obind (Transactions_Insert st tx) (\<lambda>_.
      obind (Ledger_Append st entry) (\<lambda>_.
      obind (lift (NewWagerTransactionProcessed (sv_uuid_string sv) (e_outcomeGen en) tx)) (\<lambda>processed.
      obind (lift (NewWalletBalanceChanged (sv_uuid_string sv) (e_balanceGen en) entry (w_version w)
                     (oc_CorrelationID cmd))) (\<lambda>changed.
      obind (Outbox_Add st processed) (\<lambda>_.
      Outbox_Add st changed)))))))))) s1 = (Inr u, s')"
    using assms(6) by (auto simp: openIn_def obind_Inr_iff)
  have pre: "wallet_inv w \<and> clock_ok (w_createdAt w) \<and> clock_ok (w_updatedAt w)"
    using w assms(4) by simp
  note wc = writesD [OF w_create assms(1) pre c]
  have v1: "view s1 = (view s)\<lparr>v_wallets := (v_wallets (view s))(w_id w \<mapsto> stored_w w)\<rparr>"
    and none: "v_wallets (view s) (w_id w) = None" using wc(1) by blast+
  note kw = w_kept [of w, unfolded kept_wallet_def]
  have "I s' \<and> books (view s') \<and> v_wallets (view s') (w_id w) = Some (stored_w w) \<and>
    grows (view s) (view s')"
  proof (cases "IsZeroM (w_balance w)")
    case True
    then have "s' = s1" using k by simp
    moreover have "books (view s1)"
      unfolding v1 using True w kw
      by (intro empty_wallet_books assms(2) none) (auto simp: IsZeroM_units)
    moreover have "grows (view s) (view s1)"
      unfolding v1 using none by (auto simp: grows_def same_owner_def intro: continues_refl)
    ultimately show ?thesis using wc(2) v1 by simp
  next
    case False
    obtain tx0 tx zero entry s2 s3 pev bev s4 where
      n: "NewOpening (e_txID en) (w_id w) (w_playerID w) (w_balance w) (oc_CorrelationID cmd) now = Inr tx0"
      and p: "MarkProcessed tx0 (w_balance w) now = Inr tx"
      and z: "Money_Zero (w_currency w) = Inr zero"
      and e: "NewLedgerEntry (e_entryID en) (w_id w) (t_id tx) (Direction_string Credit)
                (w_balance w) zero (w_balance w) now = Inr entry"
      and i: "Transactions_Insert st tx s1 = (Inr (), s2)"
      and l: "Ledger_Append st entry s2 = (Inr (), s3)"
      and o1: "Outbox_Add st pev s3 = (Inr (), s4)" and o2: "Outbox_Add st bev s4 = (Inr (), s')"
      using k False assms(5) by (auto simp: obind_Inr_iff)
    have now: "now \<noteq> 0" using assms(4) by (auto simp: clock_ok_def)
    have inv0: "tx_inv tx0" by (rule NewOpening_inv [OF n])
    note mp = marked_processed [OF p inv0 now]
    have tx: "t_id tx = t_id tx0" "t_walletID tx = w_id w" "t_kind tx = KindOpening"
        "t_money tx = w_balance w" "t_createdAt tx = now" "t_status tx = StatusProcessed"
        "t_resultBalance tx = Some (w_balance w)"
      using mp n by (auto simp: NewOpening_Inr same_identity_def)
    have sto: "storable_tx tx"
      using mp tx assms(4) w(1) by (auto simp: storable_tx_def wallet_inv_def)
    note ins = writesD [OF t_insert wc(2) sto i]
    have pat: "currencyPattern (w_currency w)"
    proof -
      have "v_wallets (view s1) (w_id w) = Some (stored_w w)" unfolding v1 by simp
      then have "currencyPattern (w_currency (stored_w w))"
        using ok [OF wc(2), unfolded view_ok_def, THEN conjunct1] by blast
      then show ?thesis using kw by simp
    qed
    note en = e [unfolded NewLedgerEntry_Inr]
    have zz: "units zero = 0" using z by (auto simp: Money_Zero_def FromMinor_Inr_iff)
    have "entry_inv entry \<and> clock_ok (l_createdAt entry) \<and> currencyPattern (m_currency (l_amount entry))"
      using en assms(4) pat w(5) by auto
    from writesD [OF l_append ins(2) this l]
    obtain q where ap: "I s3" "view s3 = (view s2)\<lparr>v_ledger := v_ledger (view s2) @
        [\<lparr>lr_Seq = q, lr_Entry = stored_e entry\<rparr>]\<rparr>" by blast
    note a1 = writesD [OF o_add ap(1) _ o1, OF TrueI]
    note a2 = writesD [OF o_add a1(2) _ o2, OF TrueI]
    have v: "view s' = (view s)\<lparr>v_wallets := (v_wallets (view s))(w_id w \<mapsto> stored_w w),
        v_txs := v_txs (view s) @ [stored_t tx],
        v_ledger := v_ledger (view s) @ [\<lparr>lr_Seq = q, lr_Entry = stored_e entry\<rparr>],
        v_outbox := v_outbox (view s) @ [pev] @ [bev]\<rparr>"
      using a1(1) a2(1) ap(2) ins(1) v1 by simp
    note kt = t_kept [of tx, unfolded kept_tx_def] and ke = l_kept [of entry, unfolded kept_entry_def]
    have "t_resultBalance (stored_t tx) = Some (w_balance w)" using kt tx by simp
    then have po: "posts (stored_t tx) (stored_e entry)"
      using kt ke tx en by (simp add: posts_def moves_def)
    have "\<forall>r \<in> set (v_ledger (view s')). entry_inv (lr_Entry r)"
      using ok [OF a2(2)] by (simp add: view_ok_def)
    then have ei: "entry_inv (stored_e entry)" unfolding v by simp
    have "books (view s')"
      unfolding v
      by (rule opening_books [OF assms(2) none _ _ _ _ _ _ po])
        (use kw kt ke w tx en zz ei in simp_all)
    moreover have "grows (view s) (view s')"
      unfolding v using none by (auto simp: grows_def same_owner_def intro: continues_refl)
    ultimately show ?thesis using a2(2) v by simp
  qed
  then show "I s'" "books (view s')" "v_wallets (view s) (w_id w) = None"
    "v_wallets (view s') (w_id w) = Some (stored_w w)"
    "grows (view s) (view s')"
    using none by blast+
qed

end

end
