(* ===== verification/PostgresContract.thy ===== *)
theory PostgresContract
  imports PostgresStore Books
begin

text \<open>
  The laws of the transaction, ledger and event repositories for the PostgreSQL model, and the
  interpretation of the locale \<^verbatim>\<open>database\<close> on \<^const>\<open>pgStore\<close>.
\<close>

subsection \<open>Rows and transactions\<close>

lemma derefStr_Some: "derefStr x \<noteq> '''' \<Longrightarrow> x = Some p \<longleftrightarrow> derefStr x = p"
  by (cases x) (auto simp: derefStr_def)

lemma reversal_kind: "Kind_string k \<in> {''REFUND'', ''ROLLBACK''} \<longleftrightarrow> IsReversal k"
  by (cases k) (simp_all add: IsReversal_def)

lemma status_strings:
  "Status_string s = ''PROCESSED'' \<longleftrightarrow> s = StatusProcessed"
  "Status_string s = ''PENDING_REFERENCE'' \<longleftrightarrow> s = StatusPendingReference"
  "Status_string s \<notin> {''PROCESSED'', ''REJECTED'', ''FAILED''} \<longleftrightarrow> \<not> IsTerminal s"
  by (cases s; simp add: IsTerminal_def)+

lemma origin_external: "Origin_string q = ''EXTERNAL'' \<longleftrightarrow> q = OriginExternal"
  by (cases q) simp_all

lemma opening_kind: "Kind_string k = ''OPENING'' \<longleftrightarrow> k = KindOpening"
  by (cases k) simp_all

lemma reversal_row_iff:
  "transactionRepo_scan r = Inr t \<Longrightarrow>
    reversal_row r \<longleftrightarrow> t_status t = StatusProcessed \<and> IsReversal (t_kind t)"
  unfolding reversal_row_def
  by (simp only: scan_tx_facts status_strings reversal_kind)

lemma external_filled:
  "tx_inv t \<Longrightarrow> t_origin t = OriginExternal \<Longrightarrow>
    t_providerID t \<noteq> '''' \<and> t_idempotencyKey t \<noteq> '''' \<and> t_externalTransactionID t \<noteq> ''''"
  by (simp add: tx_inv_def metadata_shape_def)

lemma pg_tx_row:
  assumes "pg_ok d" and "r \<in> set (db_txs d)"
  shows "transactionRepo_scan r = Inr (row_tx r)" and "storable_tx (row_tx r)"
    and "row_of_snapshot (Snapshot_of (row_tx r)) = r" and "tx_inv (row_tx r)"
    and "row_tx r \<in> set (v_txs (pg_view d))" and "texts_ok (row_texts r)"
  using assms by (auto simp: pg_ok_def tx_row_ok_def storable_tx_def pg_view_def)

lemma key_cond:
  assumes "pg_ok d" and "r \<in> set (db_txs d)"
  shows "tr_origin r = ''EXTERNAL'' \<and> tr_provider_id r = Some p \<and> tr_idempotency_key r = Some k \<longleftrightarrow>
      t_origin (row_tx r) = OriginExternal \<and> t_providerID (row_tx r) = p \<and>
      t_idempotencyKey (row_tx r) = k"
    and "tr_origin r = ''EXTERNAL'' \<and> tr_provider_id r = Some p \<and>
      tr_external_transaction_id r = Some k \<longleftrightarrow>
      t_origin (row_tx r) = OriginExternal \<and> t_providerID (row_tx r) = p \<and>
      t_externalTransactionID (row_tx r) = k"
proof -
  note f = scan_tx_facts [OF pg_tx_row(1) [OF assms]]
  note e = external_filled [OF pg_tx_row(4) [OF assms]]
  show "tr_origin r = ''EXTERNAL'' \<and> tr_provider_id r = Some p \<and> tr_idempotency_key r = Some k \<longleftrightarrow>
      t_origin (row_tx r) = OriginExternal \<and> t_providerID (row_tx r) = p \<and>
      t_idempotencyKey (row_tx r) = k"
    using f(2,3,5) e origin_external derefStr_Some by metis
  show "tr_origin r = ''EXTERNAL'' \<and> tr_provider_id r = Some p \<and>
      tr_external_transaction_id r = Some k \<longleftrightarrow>
      t_origin (row_tx r) = OriginExternal \<and> t_providerID (row_tx r) = p \<and>
      t_externalTransactionID (row_tx r) = k"
    using f(2,3,4) e origin_external derefStr_Some by metis
qed

lemma due_cond:
  assumes "pg_ok d" and "r \<in> set (db_txs d)"
  shows "due_row (pg_time now) r \<longleftrightarrow> due now (row_tx r)"
    and "tr_next_retry_at r = t_nextReferenceRetryAt (row_tx r)"
proof -
  note f = scan_tx_facts [OF pg_tx_row(1) [OF assms]]
  have "tr_next_retry_at r = map_option pg_time (t_nextReferenceRetryAt (row_tx r))"
    by (subst pg_tx_row(3) [OF assms, symmetric]) (simp add: row_of_snapshot_def Snapshot_of_def)
  then have al: "tr_next_retry_at r = map_option pg_time (tr_next_retry_at r)"
    unfolding f(10) .
  have "pg_time n = n" if "tr_next_retry_at r = Some n" for n
    using al unfolding that by simp
  then show "due_row (pg_time now) r \<longleftrightarrow> due now (row_tx r)"
    unfolding due_row_def due_def f(8) f(10) status_strings
    by (cases "tr_next_retry_at r") (auto simp: pg_time_le_iff)
  show "tr_next_retry_at r = t_nextReferenceRetryAt (row_tx r)" using f(10) by simp
qed

subsection \<open>The queries\<close>

lemma find_cong_on: "(\<And>x. x \<in> set xs \<Longrightarrow> P x = Q x) \<Longrightarrow> find P xs = find Q xs"
  by (induction xs) auto

lemma pg_query:
  assumes "pg_ok d" and "\<And>r. r \<in> set (db_txs d) \<Longrightarrow> cond r = P (row_tx r)"
  shows "query_tx ps cond d =
    (if texts_ok ps then
       (case find P (v_txs (pg_view d)) of
          None \<Rightarrow> (Inl ErrTransactionNotFound, d) | Some t \<Rightarrow> (Inr t, d))
     else (Inl text_error, d))"
proof -
  have "find P (v_txs (pg_view d)) = map_option row_tx (find cond (db_txs d))"
    unfolding pg_view_def View.simps find_map
    using find_cong_on [of "db_txs d" cond "\<lambda>r. P (row_tx r)"] assms(2) by simp
  then show ?thesis
    using pg_tx_row(1) [OF assms(1)]
    by (auto simp: query_tx_def split: option.splits dest!: find_SomeD)
qed

lemma reads_query:
  assumes "\<And>d r. pg_ok d \<Longrightarrow> r \<in> set (db_txs d) \<Longrightarrow> cond r = P (row_tx r)"
  shows "reads pg_ok pg_view (query_tx ps cond) (\<lambda>v t. find P (v_txs v) = Some t)
    ErrTransactionNotFound (\<lambda>v. find P (v_txs v) = None)"
  unfolding reads_def
proof (intro allI impI, elim conjE)
  fix d r d' assume ok: "pg_ok d" and q: "query_tx ps cond d = (r, d')"
  have e: "query_tx ps cond d =
    (if texts_ok ps then
       (case find P (v_txs (pg_view d)) of
          None \<Rightarrow> (Inl ErrTransactionNotFound, d) | Some t \<Rightarrow> (Inr t, d))
     else (Inl text_error, d))"
    by (rule pg_query [OF ok]) (rule assms [OF ok])
  show "(\<forall>a. r = Inr a \<longrightarrow> find P (v_txs (pg_view d)) = Some a \<and> pg_ok d' \<and> pg_view d' = pg_view d) \<and>
     (r = Inl ErrTransactionNotFound \<longrightarrow>
       find P (v_txs (pg_view d)) = None \<and> pg_ok d' \<and> pg_view d' = pg_view d)"
    using q [unfolded e] ok by (auto simp: text_error_def split: option.splits if_splits)
qed

lemma pg_t_get:
  "reads pg_ok pg_view (transactionRepo_Get i) (\<lambda>v t. by_id v i = Some t)
     ErrTransactionNotFound (\<lambda>v. by_id v i = None)"
  unfolding transactionRepo_Get_def by_id_def
  by (rule reads_query) (use scan_tx_facts(1) pg_tx_row(1) in metis)

lemma pg_t_by_key:
  "reads pg_ok pg_view (transactionRepo_FindByIdempotencyKey p k) (\<lambda>v t. by_key v p k = Some t)
     ErrTransactionNotFound (\<lambda>v. by_key v p k = None)"
  unfolding transactionRepo_FindByIdempotencyKey_def by_key_def by (rule reads_query) (rule key_cond(1))

lemma pg_t_by_ext:
  "reads pg_ok pg_view (transactionRepo_FindByExternalID p x) (\<lambda>v t. by_ext v p x = Some t)
     ErrTransactionNotFound (\<lambda>v. by_ext v p x = None)"
  unfolding transactionRepo_FindByExternalID_def by_ext_def by (rule reads_query) (rule key_cond(2))

lemma pg_t_reversal:
  "reads pg_ok pg_view (transactionRepo_HasProcessedReversal i)
     (\<lambda>v b. b = (\<exists>t \<in> set (v_txs v). reverses i t)) ErrTransactionNotFound (\<lambda>v. True)"
  unfolding reads_def
proof (intro allI impI, elim conjE)
  fix d r d' assume ok: "pg_ok d" and q: "transactionRepo_HasProcessedReversal i d = (r, d')"
  have "tr_reference_id u = Some i \<and> reversal_row u \<longleftrightarrow> reverses i (row_tx u)"
    if "u \<in> set (db_txs d)" for u
    using reversal_row_iff [OF pg_tx_row(1) [OF ok that]] scan_tx_facts(9) [OF pg_tx_row(1) [OF ok that]]
    by (auto simp: reverses_def)
  then have "(\<exists>u \<in> set (db_txs d). tr_reference_id u = Some i \<and> reversal_row u) =
      (\<exists>t \<in> set (v_txs (pg_view d)). reverses i t)"
    by (auto simp: pg_view_def)
  then show "(\<forall>a. r = Inr a \<longrightarrow> a = (\<exists>t \<in> set (v_txs (pg_view d)). reverses i t) \<and> pg_ok d' \<and>
      pg_view d' = pg_view d) \<and> (r = Inl ErrTransactionNotFound \<longrightarrow> True \<and> pg_ok d' \<and> pg_view d' = pg_view d)"
    using q ok by (auto simp: transactionRepo_HasProcessedReversal_def)
qed

lemma earliest_None: "earliest rs = None \<longleftrightarrow> rs = []"
  by (cases rs) (auto split: option.splits)

lemma earliest_Some:
  "earliest rs = Some q \<Longrightarrow> q \<in> set rs \<and>
    (\<forall>r \<in> set rs. the (tr_next_retry_at q) \<le> the (tr_next_retry_at r))"
proof (induction rs arbitrary: q)
  case (Cons r rs)
  show ?case
  proof (cases "earliest rs")
    case None
    then show ?thesis using Cons.prems by (simp add: earliest_None)
  next
    case (Some x)
    then show ?thesis using Cons.IH [OF Some] Cons.prems by (auto split: if_splits)
  qed
qed simp

lemma pg_t_claim:
  "reads pg_ok pg_view (claim_due_skipping locked now)
     (\<lambda>v t. t \<in> set (v_txs v) \<and> due now t \<and> t_id t \<notin> set locked \<and>
       (\<forall>u \<in> set (v_txs v). due now u \<and> t_id u \<notin> set locked \<longrightarrow>
         the (t_nextReferenceRetryAt t) \<le> the (t_nextReferenceRetryAt u)))
     ErrTransactionNotFound (\<lambda>v. \<forall>t \<in> set (v_txs v). \<not> (due now t \<and> t_id t \<notin> set locked))"
  unfolding reads_def
proof (intro allI impI, elim conjE)
  fix d r d' assume ok: "pg_ok d" and q: "claim_due_skipping locked now d = (r, d')"
  let ?due = "filter (\<lambda>r. due_row (pg_time now) r \<and> tr_id r \<notin> set locked) (db_txs d)"
  note c = due_cond [OF ok]
  have i: "t_id (row_tx x) = tr_id x" if "x \<in> set (db_txs d)" for x
    using scan_tx_facts(1) [OF pg_tx_row(1) [OF ok that]] .
  show "(\<forall>a. r = Inr a \<longrightarrow> (a \<in> set (v_txs (pg_view d)) \<and> due now a \<and> t_id a \<notin> set locked \<and>
       (\<forall>u \<in> set (v_txs (pg_view d)). due now u \<and> t_id u \<notin> set locked \<longrightarrow>
         the (t_nextReferenceRetryAt a) \<le> the (t_nextReferenceRetryAt u))) \<and> pg_ok d' \<and>
       pg_view d' = pg_view d) \<and>
     (r = Inl ErrTransactionNotFound \<longrightarrow>
       (\<forall>t \<in> set (v_txs (pg_view d)). \<not> (due now t \<and> t_id t \<notin> set locked)) \<and> pg_ok d' \<and>
       pg_view d' = pg_view d)"
  proof (cases "earliest ?due")
    case None
    then have "\<forall>u \<in> set (db_txs d). \<not> (due_row (pg_time now) u \<and> tr_id u \<notin> set locked)"
      by (auto simp: earliest_None filter_empty_conv)
    then show ?thesis
      using q ok None c(1) i by (auto simp: claim_due_skipping_def pg_view_def)
  next
    case (Some x)
    note e = earliest_Some [OF Some]
    then have x: "x \<in> set (db_txs d)" "due_row (pg_time now) x" "tr_id x \<notin> set locked" by auto
    have "\<forall>u \<in> set (v_txs (pg_view d)). due now u \<and> t_id u \<notin> set locked \<longrightarrow>
        the (t_nextReferenceRetryAt (row_tx x)) \<le> the (t_nextReferenceRetryAt u)"
      using e c x(1) i by (auto simp: pg_view_def)
    then show ?thesis
      using q ok Some x c(1) [OF x(1)] i [OF x(1)] pg_tx_row [OF ok x(1)]
      by (auto simp: claim_due_skipping_def)
  qed
qed

subsection \<open>Writing a transaction\<close>

lemma filled_inject:
  assumes "transactionRepo_scan r = Inr x" and "transactionRepo_scan u = Inr y" and "tx_inv x" and "tx_inv y"
    and "t_origin x = OriginExternal" and "t_origin y = OriginExternal"
  shows "t_providerID y = t_providerID x \<longleftrightarrow> tr_provider_id u = tr_provider_id r"
    and "t_idempotencyKey y = t_idempotencyKey x \<longleftrightarrow> tr_idempotency_key u = tr_idempotency_key r"
    and "t_externalTransactionID y = t_externalTransactionID x \<longleftrightarrow>
      tr_external_transaction_id u = tr_external_transaction_id r"
  using external_filled [OF assms(3,5)] external_filled [OF assms(4,6)]
    scan_tx_facts(3-5) [OF assms(1)] scan_tx_facts(3-5) [OF assms(2)]
  by (metis derefStr_Some)+

lemma no_clash_rows:
  assumes "tx_conflict r others = None" and "u \<in> set others"
    and "transactionRepo_scan r = Inr x" and "transactionRepo_scan u = Inr y"
    and "tx_inv x" and "tx_inv y"
  shows "no_clash x y"
proof -
  note fx = scan_tx_facts [OF assms(3)] and fy = scan_tx_facts [OF assms(4)]
  note rx = reversal_row_iff [OF assms(3)] and ry = reversal_row_iff [OF assms(4)]
  have a: "tr_id u \<noteq> tr_id r"
    and b: "tr_origin r = ''EXTERNAL'' \<and> tr_origin u = ''EXTERNAL'' \<longrightarrow>
      \<not> (tr_provider_id u = tr_provider_id r \<and> tr_idempotency_key u = tr_idempotency_key r)"
    and c: "tr_origin r = ''EXTERNAL'' \<and> tr_origin u = ''EXTERNAL'' \<longrightarrow>
      \<not> (tr_provider_id u = tr_provider_id r \<and>
         tr_external_transaction_id u = tr_external_transaction_id r)"
    and e: "tr_kind r = ''OPENING'' \<and> tr_kind u = ''OPENING'' \<longrightarrow> tr_wallet_id u \<noteq> tr_wallet_id r"
    and g: "reversal_row r \<and> tr_reference_id r \<noteq> None \<and> reversal_row u \<longrightarrow>
      tr_reference_id u \<noteq> tr_reference_id r"
    using assms(1,2) unfolding tx_conflict_def by (auto split: if_splits)
  show ?thesis
    unfolding no_clash_def
  proof (intro conjI impI)
    show "t_id y \<noteq> t_id x" using a fx(1) fy(1) by simp
  next
    assume o: "t_origin x = OriginExternal \<and> t_origin y = OriginExternal"
    then have "tr_origin r = ''EXTERNAL'' \<and> tr_origin u = ''EXTERNAL''"
      using fx(2) fy(2) by simp
    with b have "\<not> (tr_provider_id u = tr_provider_id r \<and> tr_idempotency_key u = tr_idempotency_key r)"
      by blast
    then show "(t_providerID y, t_idempotencyKey y) \<noteq> (t_providerID x, t_idempotencyKey x)"
      using filled_inject [OF assms(3-6)] o by auto
  next
    assume o: "t_origin x = OriginExternal \<and> t_origin y = OriginExternal"
    then have "tr_origin r = ''EXTERNAL'' \<and> tr_origin u = ''EXTERNAL''"
      using fx(2) fy(2) by simp
    with c have "\<not> (tr_provider_id u = tr_provider_id r \<and>
        tr_external_transaction_id u = tr_external_transaction_id r)" by blast
    then show "(t_providerID y, t_externalTransactionID y) \<noteq> (t_providerID x, t_externalTransactionID x)"
      using filled_inject [OF assms(3-6)] o by auto
  next
    assume "t_kind x = KindOpening \<and> t_kind y = KindOpening"
    then show "t_walletID y \<noteq> t_walletID x" using e fx(6,7) fy(6,7) by simp
  next
    assume "t_status x = StatusProcessed \<and> IsReversal (t_kind x) \<and> t_referenceID x \<noteq> None \<and>
      t_status y = StatusProcessed \<and> IsReversal (t_kind y)"
    then show "t_referenceID y \<noteq> t_referenceID x" using g rx ry fx(9) fy(9) by simp
  qed
qed

lemma pg_ok_txs:
  assumes "pg_ok d" and "\<And>r. r \<in> set rs \<Longrightarrow> tx_row_ok r" and "txs_unique (map row_tx rs)"
  shows "pg_ok (d\<lparr>db_txs := rs\<rparr>)"
    and "pg_view (d\<lparr>db_txs := rs\<rparr>) = (pg_view d)\<lparr>v_txs := map row_tx rs\<rparr>"
proof -
  show v: "pg_view (d\<lparr>db_txs := rs\<rparr>) = (pg_view d)\<lparr>v_txs := map row_tx rs\<rparr>"
    by (simp add: pg_view_def)
  have "view_ok (pg_view d)" using assms(1) by (simp add: pg_ok_def)
  moreover have "tx_inv t" if "t \<in> set (map row_tx rs)" for t
    using that assms(2) by (auto simp: tx_row_ok_def storable_tx_def)
  ultimately have "view_ok (pg_view (d\<lparr>db_txs := rs\<rparr>))"
    unfolding v using assms(3) by (rule view_ok_txs)
  then show "pg_ok (d\<lparr>db_txs := rs\<rparr>)" using assms(1,2) by (simp add: pg_ok_def)
qed

lemma row_again: "row_of_snapshot (Snapshot_of (stored_tx t)) = row_of_snapshot (Snapshot_of t)"
  by (simp add: row_of_snapshot_def Snapshot_of_def stored_tx_def option.map_comp comp_def)

lemma written_row:
  assumes "storable_tx t" and "violated (tx_checks (row_of_snapshot (Snapshot_of t))) = None"
    and "texts_ok (row_texts (row_of_snapshot (Snapshot_of t)))"
  shows "transactionRepo_scan (row_of_snapshot (Snapshot_of t)) = Inr (stored_tx t)"
    and "row_tx (row_of_snapshot (Snapshot_of t)) = stored_tx t"
    and "tx_row_ok (row_of_snapshot (Snapshot_of t))"
proof -
  have "currencyPattern (m_currency (t_money t))"
    using assms(2) by (simp add: violated_None tx_checks_def row_of_snapshot_def Snapshot_of_def)
  then show s: "transactionRepo_scan (row_of_snapshot (Snapshot_of t)) = Inr (stored_tx t)"
    by (rule scan_tx [OF assms(1)])
  then show r: "row_tx (row_of_snapshot (Snapshot_of t)) = stored_tx t" by (simp add: row_tx_def)
  show "tx_row_ok (row_of_snapshot (Snapshot_of t))"
    unfolding tx_row_ok_def r by (simp add: s stored_tx_inv [OF assms(1)] row_again assms(3))
qed

lemma pg_t_insert:
  "writes pg_ok pg_view (transactionRepo_Insert t) (\<lambda>v. storable_tx t)
     (\<lambda>v _ v'. v' = v\<lparr>v_txs := v_txs v @ [stored_tx t]\<rparr>)"
  unfolding writes_def
proof (intro allI impI, elim conjE)
  fix d a d' assume ok: "pg_ok d" and st: "storable_tx t" and i: "transactionRepo_Insert t d = (Inr a, d')"
  define r where "r = row_of_snapshot (Snapshot_of t)"
  have run: "violated (tx_checks r) = None" "tx_conflict r (db_txs d) = None"
      "d' = d\<lparr>db_txs := db_txs d @ [r]\<rparr>" "texts_ok (row_texts r)"
    using i unfolding transactionRepo_Insert_def r_def [symmetric] sql_insert_tx_def
    by (auto split: option.splits if_splits)
  note w = written_row [OF st, folded r_def, OF run(1,4)]
  have "no_clash (stored_tx t) (row_tx u)" if "u \<in> set (db_txs d)" for u
    using no_clash_rows [OF run(2) that w(1) pg_tx_row(1) [OF ok that] _ pg_tx_row(4) [OF ok that]]
      stored_tx_inv [OF st] by (simp add: storable_tx_def)
  moreover have "txs_unique (map row_tx (db_txs d))"
    using ok view_ok_unique [of "pg_view d"] by (simp add: pg_ok_def pg_view_def)
  ultimately have "txs_unique (map row_tx (db_txs d @ [r]))"
    using txs_unique_snoc [of "map row_tx (db_txs d)" "stored_tx t"] w(2) by auto
  moreover have "tx_row_ok u" if "u \<in> set (db_txs d @ [r])" for u
    using that ok w(3) by (auto simp: pg_ok_def)
  ultimately show "pg_ok d' \<and> pg_view d' = (pg_view d)\<lparr>v_txs := v_txs (pg_view d) @ [stored_tx t]\<rparr>"
    using pg_ok_txs [OF ok, of "db_txs d @ [r]"] run(3) w(2) by (simp add: pg_view_def)
qed

lemma update_row_eq:
  assumes "same_identity old t"
  shows "update_row (Snapshot_of t) (row_of_snapshot (Snapshot_of old)) = row_of_snapshot (Snapshot_of t)"
  using assms by (simp add: update_row_def row_of_snapshot_def Snapshot_of_def same_identity_def)

lemma pg_t_update:
  "writes pg_ok pg_view (transactionRepo_Update t)
     (\<lambda>v. storable_tx t \<and> (\<forall>u \<in> set (v_txs v). t_id u = t_id t \<longrightarrow> same_identity u t))
     (\<lambda>v _ v'. v' = v\<lparr>v_txs := map (\<lambda>u. if t_id u = t_id t then stored_tx t else u) (v_txs v)\<rparr> \<and>
       (\<exists>u \<in> set (v_txs v). t_id u = t_id t \<and> \<not> IsTerminal (t_status u)))"
  unfolding writes_def
proof (intro allI impI, elim conjE)
  fix d a d'
  assume ok: "pg_ok d" and st: "storable_tx t"
    and same: "\<forall>u \<in> set (v_txs (pg_view d)). t_id u = t_id t \<longrightarrow> same_identity u t"
    and i: "transactionRepo_Update t d = (Inr a, d')"
  define new where "new = row_of_snapshot (Snapshot_of t)"
  obtain old where old: "find (\<lambda>u. tr_id u = t_id t) (db_txs d) = Some old"
    using i unfolding transactionRepo_Update_def sql_update_tx_def
    by (auto split: option.splits)
  note o = find_SomeD [OF old]
  note sc = scan_tx_facts [OF pg_tx_row(1) [OF ok conjunct1 [OF o]]]
  have "same_identity (row_tx old) t"
    using same pg_tx_row(5) [OF ok conjunct1 [OF o]] sc(1) o by simp
  then have up: "update_row (Snapshot_of t) old = new"
    using update_row_eq [of "row_tx old" t] pg_tx_row(3) [OF ok conjunct1 [OF o]] by (simp add: new_def)
  let ?others = "filter (\<lambda>u. tr_id u \<noteq> t_id t) (db_txs d)"
  let ?rows = "map (\<lambda>u. if tr_id u = t_id t then new else u) (db_txs d)"
  have run: "guard_trigger old" "violated (tx_checks new) = None" "tx_conflict new ?others = None"
      "d' = d\<lparr>db_txs := ?rows\<rparr>" "texts_ok (row_texts new)"
    using i unfolding transactionRepo_Update_def sql_update_tx_def old Let_def up option.case
    by (auto split: option.splits if_splits)
  note w = written_row [OF st, folded new_def, OF run(2,5)]
  have id: "tr_id u = t_id (row_tx u)" if "u \<in> set (db_txs d)" for u
    using scan_tx_facts(1) [OF pg_tx_row(1) [OF ok that]] by simp
  have sid: "t_id (stored_tx t) = t_id t" by (simp add: stored_tx_def)
  have m: "map row_tx ?rows = map (\<lambda>u. if t_id u = t_id t then stored_tx t else u) (map row_tx (db_txs d))"
    using id w(2) by simp
  have "no_clash (stored_tx t) (row_tx u)" if "u \<in> set (db_txs d)" "t_id (row_tx u) \<noteq> t_id t" for u
    using no_clash_rows [OF run(3) _ w(1) pg_tx_row(1) [OF ok that(1)] _ pg_tx_row(4) [OF ok that(1)]]
      that id [OF that(1)] stored_tx_inv [OF st] by (simp add: storable_tx_def)
  then have "txs_unique (map row_tx ?rows)"
    unfolding m using txs_unique_replace [of "map row_tx (db_txs d)" "stored_tx t"]
      ok view_ok_unique [of "pg_view d"] sid by (auto simp: pg_ok_def pg_view_def)
  moreover have "tx_row_ok u" if "u \<in> set ?rows" for u
    using that ok w(3) by (auto simp: pg_ok_def split: if_splits)
  ultimately have p: "pg_ok d'" "pg_view d' = (pg_view d)\<lparr>v_txs := map row_tx ?rows\<rparr>"
    using pg_ok_txs [OF ok, of ?rows] run(4) by blast+
  have v: "v_txs (pg_view d) = map row_tx (db_txs d)" by (simp add: pg_view_def)
  have "\<not> IsTerminal (t_status (row_tx old))"
    using run(1) unfolding guard_trigger_def sc(8) status_strings .
  then have "\<exists>u \<in> set (v_txs (pg_view d)). t_id u = t_id t \<and> \<not> IsTerminal (t_status u)"
    using pg_tx_row(5) [OF ok conjunct1 [OF o]] sc(1) o by auto
  then show "pg_ok d' \<and>
     pg_view d' = (pg_view d)\<lparr>v_txs := map (\<lambda>u. if t_id u = t_id t then stored_tx t else u)
       (v_txs (pg_view d))\<rparr> \<and>
     (\<exists>u \<in> set (v_txs (pg_view d)). t_id u = t_id t \<and> \<not> IsTerminal (t_status u))"
    using p unfolding m v by blast
qed

lemma stored_tx_kept: "kept_tx t (stored_tx t)"
  by (cases "t_resultBalance t") (auto simp: kept_tx_def stored_tx_def)

subsection \<open>The ledger\<close>

lemma pg_ledger_row:
  assumes "pg_ok d" and "r \<in> set (db_ledger d)"
  shows "ledgerRepo_scan r = Inr (row_record r)" and "sint (gr_seq r) \<le> sint (db_seq d)"
    and "row_record r \<in> set (v_ledger (pg_view d))"
  using assms by (auto simp: pg_ok_def pg_view_def)

lemma pg_l_append:
  "writes pg_ok pg_view (ledgerRepo_Append e)
     (\<lambda>v. entry_inv e \<and> clock_ok (l_createdAt e) \<and> currencyPattern (m_currency (l_amount e)))
     (\<lambda>v _ v'. \<exists>q. v' = v\<lparr>v_ledger := v_ledger v @ [\<lparr>lr_Seq = q, lr_Entry = stored_entry e\<rparr>]\<rparr>)"
  unfolding writes_def
proof (intro allI impI, elim conjE)
  fix d a d' assume ok: "pg_ok d" and e: "entry_inv e" "clock_ok (l_createdAt e)"
      "currencyPattern (m_currency (l_amount e))"
    and i: "ledgerRepo_Append e d = (Inr a, d')"
  define q where "q = db_seq d + 1"
  define r where "r = \<lparr>gr_seq = q, gr_id = l_id e, gr_wallet_id = l_walletID e,
         gr_transaction_id = l_transactionID e, gr_direction = Direction_string (l_direction e),
         gr_amount_minor = m_minor (l_amount e), gr_before_minor = m_minor (l_balanceBefore e),
         gr_after_minor = m_minor (l_balanceAfter e), gr_currency = m_currency (l_amount e),
         gr_created_at = pg_time (l_createdAt e)\<rparr>"
  have run: "db_seq d \<noteq> MaxInt64" "ledger_conflict r (db_ledger d) = None"
      "ledger_foreign r (db_wallets d) (db_txs d) = None"
      "d' = d\<lparr>db_ledger := db_ledger d @ [r], db_seq := q\<rparr>"
    using i unfolding ledgerRepo_Append_def sql_insert_ledger_def Let_def r_def q_def
    by (auto split: option.splits if_splits)
  note sc = scan_ledger [OF e, of q, folded r_def]
  then have rr: "row_record r = \<lparr>lr_Seq = q, lr_Entry = stored_entry e\<rparr>" by (simp add: row_record_def)
  have "sint (db_seq d) < max_int64"
    using run(1) sint64_le [of "db_seq d"] sint_inject64 [of "db_seq d" MaxInt64] by fastforce
  then have sq: "sint q = sint (db_seq d) + 1" and pos: "0 < sint q"
    using sint_add64 [of "db_seq d" 1] ok by (auto simp: q_def fits64_def pg_ok_def)
  have v: "pg_view d' = (pg_view d)\<lparr>v_ledger := v_ledger (pg_view d) @
      [\<lparr>lr_Seq = q, lr_Entry = stored_entry e\<rparr>]\<rparr>"
    by (simp add: run(4) pg_view_def rr)
  have ei: "entry_inv (stored_entry e)" using scan_ledger_facts(7) [OF sc] by simp
  have "view_ok (pg_view d')"
    unfolding v
  proof (rule view_ok_ledger [OF _ ei pos])
    show "view_ok (pg_view d)" using ok by (simp add: pg_ok_def)
  next
    fix x assume "x \<in> set (v_ledger (pg_view d))"
    then obtain u where u: "u \<in> set (db_ledger d)" "x = row_record u" by (auto simp: pg_view_def)
    note f = scan_ledger_facts [OF pg_ledger_row(1) [OF ok u(1)]]
    show "sint (lr_Seq x) < sint q" using f(1) pg_ledger_row(2) [OF ok u(1)] u(2) sq by simp
    show "(l_walletID (lr_Entry x), l_transactionID (lr_Entry x)) \<noteq>
        (l_walletID (stored_entry e), l_transactionID (stored_entry e))"
      using f(3,4) u run(2) by (auto simp: ledger_conflict_def r_def stored_entry_def split: if_splits)
  qed
  then have "pg_ok d'"
    using ok sc rr sq run(4) by (auto simp: pg_ok_def r_def)
  then show "pg_ok d' \<and> (\<exists>q. pg_view d' = (pg_view d)\<lparr>v_ledger := v_ledger (pg_view d) @
      [\<lparr>lr_Seq = q, lr_Entry = stored_entry e\<rparr>]\<rparr>)"
    using v by blast
qed

lemma scan_all_ok:
  "(\<And>r. r \<in> set rs \<Longrightarrow> f r = Inr (g r)) \<Longrightarrow> scan_all f rs = Inr (map g rs)"
  by (induction rs) auto

lemma pg_l_list:
  "reads pg_ok pg_view (ledgerRepo_List i after limit)
     (\<lambda>v rs. rs = take (nat (sint limit))
       (filter (\<lambda>r. l_walletID (lr_Entry r) = i \<and> sint after < sint (lr_Seq r)) (v_ledger v)))
     ErrWalletNotFound (\<lambda>v. True)"
  unfolding reads_def
proof (intro allI impI, elim conjE)
  fix d r d' assume ok: "pg_ok d" and q: "ledgerRepo_List i after limit d = (r, d')"
  let ?rows = "filter (\<lambda>r. gr_wallet_id r = i \<and> sint after < sint (gr_seq r)) (db_ledger d)"
  note f = scan_ledger_facts [OF pg_ledger_row(1) [OF ok]]
  have "sorted_wrt (\<lambda>a b. sint (lr_Seq a) < sint (lr_Seq b)) (map row_record (db_ledger d))"
    using ok by (simp add: pg_ok_def view_ok_def pg_view_def)
  then have "sorted_wrt (\<lambda>a b. sint (gr_seq a) \<le> sint (gr_seq b)) (db_ledger d)"
    unfolding sorted_wrt_map by (rule sorted_wrt_mono_rel [rotated]) (simp add: f(1))
  then have "sorted (map (\<lambda>r. sint (gr_seq r)) ?rows)"
    by (simp add: sorted_map sorted_wrt_filter)
  then have s: "sort_key (\<lambda>r. sint (gr_seq r)) ?rows = ?rows" by (rule sort_key_id_if_sorted)
  have "scan_all ledgerRepo_scan (take (nat (sint limit)) ?rows) =
      Inr (map row_record (take (nat (sint limit)) ?rows))"
    by (rule scan_all_ok) (auto dest!: in_set_takeD pg_ledger_row(1) [OF ok])
  note sc = this
  have "map row_record ?rows =
      filter (\<lambda>r. l_walletID (lr_Entry r) = i \<and> sint after < sint (lr_Seq r)) (v_ledger (pg_view d))"
    unfolding pg_view_def View.simps filter_map comp_def
    by (intro arg_cong [where f = "map row_record"] filter_cong) (auto simp: f(1,3))
  note m = this
  show "(\<forall>a. r = Inr a \<longrightarrow> a = take (nat (sint limit))
       (filter (\<lambda>r. l_walletID (lr_Entry r) = i \<and> sint after < sint (lr_Seq r)) (v_ledger (pg_view d))) \<and>
       pg_ok d' \<and> pg_view d' = pg_view d) \<and>
     (r = Inl ErrWalletNotFound \<longrightarrow> True \<and> pg_ok d' \<and> pg_view d' = pg_view d)"
    using q ok by (auto simp: ledgerRepo_List_def s sc m [symmetric] take_map split: if_splits)
qed

lemma direction_strings:
  "Direction_string x = ''CREDIT'' \<longleftrightarrow> x = Credit" "Direction_string x = ''DEBIT'' \<longleftrightarrow> x = Debit"
  by (cases x; simp)+

lemma sum_minor_signed:
  "(\<And>r. r \<in> set rs \<Longrightarrow> ledgerRepo_scan r = Inr (row_record r)) \<Longrightarrow>
    sum_minor ''CREDIT'' rs - sum_minor ''DEBIT'' rs =
      sum_list (map (\<lambda>r. signed_amount (lr_Entry (row_record r))) rs) \<and>
    0 \<le> sum_minor ''CREDIT'' rs \<and> 0 \<le> sum_minor ''DEBIT'' rs"
proof (induction rs)
  case (Cons r rs)
  note f = scan_ledger_facts [OF Cons.prems [of r, simplified]]
  have pos: "0 < sint (gr_amount_minor r)" using f(6,7) by (auto simp: entry_inv_def)
  show ?case
    using Cons.IH Cons.prems pos f(5,6)
    by (cases "l_direction (lr_Entry (row_record r))") (auto simp: sum_minor_def signed_amount_def)
qed (simp add: sum_minor_def)

lemma pg_l_totals:
  "reads pg_ok pg_view (ledgerRepo_Totals i)
     (\<lambda>v t. sint (lt_Credits t) - sint (lt_Debits t) = sum_list (map signed_amount (entries v i)) \<and>
       0 \<le> sint (lt_Credits t) \<and> 0 \<le> sint (lt_Debits t) \<and>
       lt_Count t = word_of_int (int (length (entries v i))))
     ErrWalletNotFound (\<lambda>v. True)"
  unfolding reads_def
proof (intro allI impI, elim conjE)
  fix d r d' assume ok: "pg_ok d" and q: "ledgerRepo_Totals i d = (r, d')"
  let ?rows = "filter (\<lambda>r. gr_wallet_id r = i) (db_ledger d)"
  note f = scan_ledger_facts [OF pg_ledger_row(1) [OF ok]]
  have e: "entries (pg_view d) i = map (\<lambda>r. lr_Entry (row_record r)) ?rows"
    unfolding entries_def pg_view_def View.simps map_map filter_map comp_def
    by (intro arg_cong [where f = "map _"] filter_cong) (auto simp: f(3))
  have "ledgerRepo_scan r = Inr (row_record r)" if "r \<in> set ?rows" for r
    using that pg_ledger_row(1) [OF ok] by auto
  note s = sum_minor_signed [of ?rows, OF this]
  show "(\<forall>t. r = Inr t \<longrightarrow>
       (sint (lt_Credits t) - sint (lt_Debits t) = sum_list (map signed_amount (entries (pg_view d) i)) \<and>
        0 \<le> sint (lt_Credits t) \<and> 0 \<le> sint (lt_Debits t) \<and>
        lt_Count t = word_of_int (int (length (entries (pg_view d) i)))) \<and>
       pg_ok d' \<and> pg_view d' = pg_view d) \<and>
     (r = Inl ErrWalletNotFound \<longrightarrow> True \<and> pg_ok d' \<and> pg_view d' = pg_view d)"
    using q ok s by (auto simp: ledgerRepo_Totals_def Let_def e comp_def sint_of_int64 split: if_splits)
qed

subsection \<open>Outbox and inbox\<close>

lemma Marshal_Inr: "Marshal ev = Inr p \<Longrightarrow> p = ev"
  by (simp add: Marshal_def split: if_splits)

lemma pg_o_add:
  "writes pg_ok pg_view (outboxRepo_Add ev) (\<lambda>v. True)
     (\<lambda>v _ v'. v' = v\<lparr>v_outbox := v_outbox v @ [ev]\<rparr>)"
  unfolding writes_def
proof (intro allI impI, elim conjE)
  fix d a d' assume ok: "pg_ok d" and i: "outboxRepo_Add ev d = (Inr a, d')"
  define row where "row =
    \<lparr>xr_event_id = ev_EventID ev, xr_aggregate_type = ev_AggregateType ev,
     xr_aggregate_id = ev_AggregateID ev, xr_event_type = ev_EventType ev, xr_payload = ev,
     xr_occurred_at = pg_time (ev_OccurredAt ev), xr_created_at = db_now d, xr_attempts = 0,
     xr_next_attempt_at = db_now d, xr_locked_by = None, xr_locked_until = None,
     xr_published_at = None, xr_last_error = None\<rparr>"
  have run: "xr_payload row = ev" "xr_event_id row = ev_EventID ev"
      "\<forall>u \<in> set (db_outbox d). xr_event_id u \<noteq> ev_EventID ev"
      "d' = d\<lparr>db_outbox := db_outbox d @ [row]\<rparr>"
    using i unfolding outboxRepo_Add_def row_def
    by (auto split: sum.splits if_splits dest!: Marshal_Inr)
  have v: "pg_view d' = (pg_view d)\<lparr>v_outbox := v_outbox (pg_view d) @ [ev]\<rparr>"
    by (simp add: run(1,4) pg_view_def)
  have fresh: "ev_EventID ev \<notin> ev_EventID ` set (v_outbox (pg_view d))"
    using ok run(3) by (auto simp: pg_ok_def pg_view_def)
  have "view_ok (pg_view d')"
    unfolding v by (rule view_ok_outbox [OF _ fresh]) (use ok in \<open>simp add: pg_ok_def\<close>)
  then have "pg_ok d'" using ok run by (auto simp: pg_ok_def)
  then show "pg_ok d' \<and> pg_view d' = (pg_view d)\<lparr>v_outbox := v_outbox (pg_view d) @ [ev]\<rparr>"
    using v by blast
qed

lemma pg_i_record:
  "writes pg_ok pg_view (inboxRepo_Record c m h now) (\<lambda>v. True)
     (\<lambda>v r v'. if ir_Inserted r
       then v_inbox v (c, m) = None \<and> v' = v\<lparr>v_inbox := (v_inbox v)((c, m) \<mapsto> h)\<rparr>
       else v_inbox v (c, m) = Some (ir_ExistingHash r) \<and> v' = v)"
  unfolding writes_def
proof (intro allI impI, elim conjE)
  fix d r d' assume ok: "pg_ok d" and i: "inboxRepo_Record c m h now d = (Inr r, d')"
  have tx: "texts_ok [c, m, h]" using i by (auto simp: inboxRepo_Record_def split: if_splits)
  show "pg_ok d' \<and> (if ir_Inserted r
       then v_inbox (pg_view d) (c, m) = None \<and>
         pg_view d' = (pg_view d)\<lparr>v_inbox := (v_inbox (pg_view d))((c, m) \<mapsto> h)\<rparr>
       else v_inbox (pg_view d) (c, m) = Some (ir_ExistingHash r) \<and> pg_view d' = pg_view d)"
  proof (cases "find (\<lambda>r. nr_consumer r = c \<and> nr_message_id r = m) (db_inbox d)")
    case (Some x)
    then show ?thesis using i ok tx by (auto simp: inboxRepo_Record_def pg_view_def)
  next
    case None
    define row where "row = \<lparr>nr_consumer = c, nr_message_id = m, nr_payload_hash = h,
      nr_received_at = pg_time now, nr_completed_at = pg_time now\<rparr>"
    have d': "d' = d\<lparr>db_inbox := db_inbox d @ [row]\<rparr>" "ir_Inserted r"
      using i None tx by (auto simp: inboxRepo_Record_def row_def)
    have "map_option nr_payload_hash (find (\<lambda>r. nr_consumer r = a \<and> nr_message_id r = b)
        (db_inbox d @ [row])) = ((v_inbox (pg_view d))((c, m) \<mapsto> h)) (a, b)" for a b
      using None by (auto simp: find_snoc pg_view_def row_def split: option.splits)
    then have v: "pg_view d' = (pg_view d)\<lparr>v_inbox := (v_inbox (pg_view d))((c, m) \<mapsto> h)\<rparr>"
      by (auto simp: d'(1) pg_view_def fun_eq_iff)
    moreover have "v_inbox (pg_view d) (c, m) = None" using None by (simp add: pg_view_def)
    moreover have "view_ok (pg_view d')"
      unfolding v by (rule view_ok_inbox) (use ok in \<open>simp add: pg_ok_def\<close>)
    ultimately show ?thesis using ok d' by (auto simp: pg_ok_def)
  qed
qed

subsection \<open>The contract holds\<close>

lemmas pgStore_simps = pgStore_def Store.simps

lemmas contended_simps = contended_def pgStore_simps

lemma pg_database:
  "database (contended locked) pg_ok pg_view stored_wallet stored_tx stored_entry (\<lambda>t. t_id t \<notin> set locked)"
proof unfold_locales
  fix d t assume ok: "pg_ok d" and t: "t \<in> set (v_txs (pg_view d))"
  then obtain r where "r \<in> set (db_txs d)" "t = row_tx r" by (auto simp: pg_view_def)
  then show "canonical_code (t_failureCode t) \<and> clock_ok (t_createdAt t) \<and> clock_ok (t_updatedAt t) \<and>
      (\<forall>b. t_resultBalance t = Some b \<longrightarrow> m_valid b)"
    using pg_tx_row(2) [OF ok] by (simp add: storable_tx_def)
next
  show "\<And>w. kept_wallet w (stored_wallet w)" by (simp add: kept_wallet_def stored_wallet_def)
  show "\<And>t. kept_tx t (stored_tx t)" by (rule stored_tx_kept)
  show "\<And>e. kept_entry e (stored_entry e)" by (simp add: kept_entry_def stored_entry_def)
  show "\<And>d. pg_ok d \<Longrightarrow> view_ok (pg_view d)" by (simp add: pg_ok_def)
qed (unfold contended_simps lock_is_get,
    (rule pg_w_create pg_w_get pg_w_update pg_t_insert pg_t_update pg_t_get pg_t_by_key pg_t_by_ext
       pg_t_reversal pg_t_claim pg_l_append pg_l_list pg_l_totals pg_o_add pg_i_record)+)

text \<open>The store while others hold locks, and the store alone.\<close>

interpretation pgc: database "contended locked" pg_ok pg_view stored_wallet stored_tx stored_entry
    "\<lambda>t. t_id t \<notin> set locked" for locked
  by (rule pg_database)

interpretation pg: database pgStore pg_ok pg_view stored_wallet stored_tx stored_entry "\<lambda>_. True"
  using pg_database [of "[]"] by simp

end
