(* ===== verification/Broker.thy ===== *)
theory Broker
  imports WalletOps "HOL-Library.AList" "HOL-Library.Sublist"
begin

text \<open>
  \<^verbatim>\<open>internal/adapters/sqs/client.go\<close> and \<^verbatim>\<open>publisher.go\<close>: the message broker as the service
  sees it. The AWS client is not part of the repository: every call of it is recorded in a log
  with its answer, and a \<^verbatim>\<open>Broker\<close> is any function from the log so far to the answer of the
  next call. A process that talks to the broker and to the database runs on a \<^verbatim>\<open>World\<close>: the
  database, the log, and the caches of the client. What a process reads of its environment, the
  clock, the faults of its SQL transactions, whether its context has ended and in which order a
  map is iterated, comes from a \<^verbatim>\<open>Tape\<close>, one reading per position.
\<close>

subsection \<open>Messages and calls\<close>

text \<open>A body is the payload of an event or the text of a received message.\<close>

datatype Body = EventBody Envelope | TextBody "string option"

record SendMessageInput =
  sm_QueueUrl :: string
  sm_MessageBody :: Body
  sm_MessageGroupId :: string
  sm_MessageDeduplicationId :: string
  sm_MessageAttributes :: "(string \<times> string) list"

record BatchEntry =
  be_Id :: string
  be_MessageBody :: Body
  be_MessageGroupId :: string
  be_MessageDeduplicationId :: string
  be_MessageAttributes :: "(string \<times> string) list"

text \<open>The answer of \<^verbatim>\<open>SendMessageBatch\<close>: the ids of the accepted entries, and the refused
  ones with the error made of their code and message.\<close>

record BatchOutput =
  bo_Successful :: "string list"
  bo_Failed :: "(string \<times> error) list"

record Message =
  ms_MessageId :: "string option"
  ms_ReceiptHandle :: "string option"
  ms_Body :: "string option"
  ms_ApproximateReceiveCount :: "string option"
  ms_MessageGroupId :: "string option"

datatype Call =
    SendMessage SendMessageInput "error option"
  | SendMessageBatch string "BatchEntry list" "error + BatchOutput"
  | DeleteMessage string string "error option"
  | ChangeMessageVisibility string string int64 "error option"
  | ReceiveMessage string int64 int64 int64 "error + Message list"
  | GetQueueUrl string "error + string"
  | GetQueueAttributes string "error option"

record Broker =
  bk_send :: "Call list \<Rightarrow> SendMessageInput \<Rightarrow> error option"
  bk_batch :: "Call list \<Rightarrow> string \<Rightarrow> BatchEntry list \<Rightarrow> error + BatchOutput"
  bk_delete :: "Call list \<Rightarrow> string \<Rightarrow> string \<Rightarrow> error option"
  bk_visibility :: "Call list \<Rightarrow> string \<Rightarrow> string \<Rightarrow> int64 \<Rightarrow> error option"
  bk_receive :: "Call list \<Rightarrow> string \<Rightarrow> int64 \<Rightarrow> int64 \<Rightarrow> int64 \<Rightarrow> error + Message list"
  bk_url :: "Call list \<Rightarrow> string \<Rightarrow> error + string"
  bk_attributes :: "Call list \<Rightarrow> string \<Rightarrow> error option"

subsection \<open>The world of a process\<close>

record Tape =
  tp_now :: "nat \<Rightarrow> time"
  tp_faults :: "nat \<Rightarrow> Faults"
  tp_ctx :: "nat \<Rightarrow> error option"
  tp_order :: "nat \<Rightarrow> uuid \<Rightarrow> nat"

record 's World =
  wd_db :: 's
  wd_log :: "Call list"
  wd_urls :: "string \<Rightarrow> string option"
  wd_queueURL :: string
  wd_tick :: nat

definition result_of :: "error option \<Rightarrow> error + unit" where
  "result_of e = (case e of None \<Rightarrow> Inr () | Some e \<Rightarrow> Inl e)"

definition now_of :: "Tape \<Rightarrow> ('s World, time) op" where
  "now_of tp w = (Inr (tp_now tp (wd_tick w)), w\<lparr>wd_tick := Suc (wd_tick w)\<rparr>)"

definition ctx_of :: "Tape \<Rightarrow> ('s World, error option) op" where
  "ctx_of tp w = (Inr (tp_ctx tp (wd_tick w)), w\<lparr>wd_tick := Suc (wd_tick w)\<rparr>)"

text \<open>\<^verbatim>\<open>for k, v := range m\<close> visits the pairs of a map in an order of its own each time.\<close>

definition range_of :: "Tape \<Rightarrow> (uuid \<times> 'v) list \<Rightarrow> ('s World, (uuid \<times> 'v) list) op" where
  "range_of tp m w =
    (Inr (sort_key (\<lambda>(k, v). tp_order tp (wd_tick w) k) m), w\<lparr>wd_tick := Suc (wd_tick w)\<rparr>)"

definition in_db :: "Tape \<Rightarrow> ('s, 'a) op \<Rightarrow> ('s World, 'a) op" where
  "in_db tp m w =
    (case uow_Do (tp_faults tp (wd_tick w)) m (wd_db w) of
       (r, s) \<Rightarrow> (r, w\<lparr>wd_db := s, wd_tick := Suc (wd_tick w)\<rparr>))"

definition call_send :: "Broker \<Rightarrow> SendMessageInput \<Rightarrow> ('s World, unit) op" where
  "call_send bk m w =
    (let e = bk_send bk (wd_log w) m
     in (result_of e, w\<lparr>wd_log := wd_log w @ [SendMessage m e]\<rparr>))"

definition call_batch :: "Broker \<Rightarrow> string \<Rightarrow> BatchEntry list \<Rightarrow> ('s World, BatchOutput) op" where
  "call_batch bk url es w =
    (let r = bk_batch bk (wd_log w) url es
     in (r, w\<lparr>wd_log := wd_log w @ [SendMessageBatch url es r]\<rparr>))"

definition call_delete :: "Broker \<Rightarrow> string \<Rightarrow> string \<Rightarrow> ('s World, unit) op" where
  "call_delete bk url receipt w =
    (let e = bk_delete bk (wd_log w) url receipt
     in (result_of e, w\<lparr>wd_log := wd_log w @ [DeleteMessage url receipt e]\<rparr>))"

definition call_visibility :: "Broker \<Rightarrow> string \<Rightarrow> string \<Rightarrow> int64 \<Rightarrow> ('s World, unit) op" where
  "call_visibility bk url receipt secs w =
    (let e = bk_visibility bk (wd_log w) url receipt secs
     in (result_of e, w\<lparr>wd_log := wd_log w @ [ChangeMessageVisibility url receipt secs e]\<rparr>))"

definition call_receive ::
  "Broker \<Rightarrow> string \<Rightarrow> int64 \<Rightarrow> int64 \<Rightarrow> int64 \<Rightarrow> ('s World, Message list) op" where
  "call_receive bk url maxMessages waitSeconds visibility w =
    (let r = bk_receive bk (wd_log w) url maxMessages waitSeconds visibility
     in (r, w\<lparr>wd_log := wd_log w @ [ReceiveMessage url maxMessages waitSeconds visibility r]\<rparr>))"

definition call_url :: "Broker \<Rightarrow> string \<Rightarrow> ('s World, string) op" where
  "call_url bk name w =
    (let r = bk_url bk (wd_log w) name
     in (r, w\<lparr>wd_log := wd_log w @ [GetQueueUrl name r]\<rparr>))"

definition call_attributes :: "Broker \<Rightarrow> string \<Rightarrow> ('s World, unit) op" where
  "call_attributes bk url w =
    (let e = bk_attributes bk (wd_log w) url
     in (result_of e, w\<lparr>wd_log := wd_log w @ [GetQueueAttributes url e]\<rparr>))"

subsection \<open>The client\<close>

definition QueueURL :: "Broker \<Rightarrow> string \<Rightarrow> ('s World, string) op" where
  "QueueURL bk name w =
    (case wd_urls w name of
       Some u \<Rightarrow> (Inr u, w)
     | None \<Rightarrow>
         obind (call_url bk name)
           (\<lambda>u w. (Inr u, w\<lparr>wd_urls := (wd_urls w)(name \<mapsto> u)\<rparr>)) w)"

fun Resolve :: "Broker \<Rightarrow> string list \<Rightarrow> ('s World, unit) op" where
  "Resolve bk [] = ok ()"
| "Resolve bk (n # names) = obind (QueueURL bk n) (\<lambda>_. Resolve bk names)"

definition Client_Ready :: "Broker \<Rightarrow> string \<Rightarrow> ('s World, unit) op" where
  "Client_Ready bk queue = obind (QueueURL bk queue) (\<lambda>url. call_attributes bk url)"

definition contains :: "string \<Rightarrow> string \<Rightarrow> bool" where
  "contains s t \<longleftrightarrow> list_ex (\<lambda>u. prefix t u) (suffixes s)"

text \<open>\<^verbatim>\<open>sqs.IsTransient\<close>: an API error by its code, a context error and every other error.\<close>

definition Sqs_IsTransient :: "error option \<Rightarrow> bool" where
  "Sqs_IsTransient err =
    (case err of
       None \<Rightarrow> False
     | Some e \<Rightarrow>
         if e = ErrDeadlineExceeded \<or> e = ErrCanceled then True
         else (case e of
             ErrApi code \<Rightarrow> list_ex (contains code)
               [''Throttl'', ''ServiceUnavailable'', ''InternalError'', ''RequestTimeout'']
           | _ \<Rightarrow> True))"

subsection \<open>The publisher\<close>

text \<open>\<^verbatim>\<open>p.queueURL\<close>, resolved on first use.\<close>

definition publisher_url :: "Broker \<Rightarrow> string \<Rightarrow> ('s World, string) op" where
  "publisher_url bk queue w =
    (if wd_queueURL w \<noteq> '''' then (Inr (wd_queueURL w), w)
     else obind (QueueURL bk queue) (\<lambda>u w. (Inr u, w\<lparr>wd_queueURL := u\<rparr>)) w)"

definition event_attributes :: "(uuid \<Rightarrow> string) \<Rightarrow> OutboxRecord \<Rightarrow> (string \<times> string) list" where
  "event_attributes us rec =
    [(''eventType'', or_EventType rec), (''eventId'', us (or_EventID rec))]"

definition event_message :: "(uuid \<Rightarrow> string) \<Rightarrow> string \<Rightarrow> OutboxRecord \<Rightarrow> SendMessageInput" where
  "event_message us url rec =
    \<lparr>sm_QueueUrl = url, sm_MessageBody = EventBody (or_Payload rec),
     sm_MessageGroupId = us (or_AggregateID rec), sm_MessageDeduplicationId = us (or_EventID rec),
     sm_MessageAttributes = event_attributes us rec\<rparr>"

definition Publish :: "Broker \<Rightarrow> (uuid \<Rightarrow> string) \<Rightarrow> string \<Rightarrow> OutboxRecord \<Rightarrow> ('s World, unit) op" where
  "Publish bk us queue rec =
    obind (publisher_url bk queue) (\<lambda>url. call_send bk (event_message us url rec))"

text \<open>\<^verbatim>\<open>fmt.Sprintf("e%d", i)\<close>.\<close>

definition entry_id :: "nat \<Rightarrow> string" where "entry_id i = CHR ''e'' # nat_str i"

definition batch_entry :: "(uuid \<Rightarrow> string) \<Rightarrow> nat \<Rightarrow> OutboxRecord \<Rightarrow> BatchEntry" where
  "batch_entry us i rec =
    \<lparr>be_Id = entry_id i, be_MessageBody = EventBody (or_Payload rec),
     be_MessageGroupId = us (or_AggregateID rec), be_MessageDeduplicationId = us (or_EventID rec),
     be_MessageAttributes = event_attributes us rec\<rparr>"

text \<open>\<^verbatim>\<open>byID[id]\<close>: an id that was never sent reads as the nil UUID.\<close>

definition batch_id :: "OutboxRecord list \<Rightarrow> string \<Rightarrow> uuid" where
  "batch_id recs i =
    (case find (\<lambda>n. entry_id n = i) [0..<length recs] of
       None \<Rightarrow> uuid_Nil
     | Some n \<Rightarrow> or_EventID (recs ! n))"

definition PublishBatch ::
  "Broker \<Rightarrow> (uuid \<Rightarrow> string) \<Rightarrow> string \<Rightarrow> OutboxRecord list
    \<Rightarrow> ('s World, uuid list \<times> (uuid \<times> error) list) op" where
  "PublishBatch bk us queue recs =
    (if recs = [] then ok ([], [])
     else if length recs > 10 then fail ErrBatchTooLarge
     else
       obind (publisher_url bk queue) (\<lambda>url.
       obind (call_batch bk url (map2 (batch_entry us) [0..<length recs] recs)) (\<lambda>out.
       ok (map (batch_id recs) (bo_Successful out),
           fold (\<lambda>(i, e) errs. AList.update (batch_id recs i) e errs) (bo_Failed out) []))))"

end
