(* ===== verification/Consumer.thy ===== *)
theory Consumer
  imports Broker PostgresLog
begin

text \<open>
  \<^verbatim>\<open>internal/adapters/sqs/consumer.go\<close>: the consumer of provider operations, and
  \<^verbatim>\<open>ToRequest\<close> of \<^verbatim>\<open>internal/adapters/httpapi/handlers.go\<close>, which it shares with the HTTP
  handler. \<^verbatim>\<open>uuid.Parse\<close> is a library's, so a parameter, and so is the decoding of a body into
  the envelope, \<^verbatim>\<open>json.Unmarshal\<close>.
\<close>

subsection \<open>The shared request\<close>

record TransactionRequest =
  in_ProviderID :: string
  in_ExternalTransactionID :: string
  in_PlayerID :: string
  in_WalletID :: string
  in_RoundID :: string
  in_GameID :: string
  in_Kind :: string
  in_Money :: MoneyJSON
  in_ReferenceExternalTransactionID :: string

definition ToRequest ::
  "(string \<Rightarrow> uuid option) \<Rightarrow> TransactionRequest \<Rightarrow> error + ExternalRequest" where
  "ToRequest parse i =
    (case parse (in_PlayerID i) of
       None \<Rightarrow> Inl ErrValidation
     | Some playerID \<Rightarrow>
         (case parse (in_WalletID i) of
            None \<Rightarrow> Inl ErrValidation
          | Some walletID \<Rightarrow>
              (case FromJSON (in_Money i) of
                 Inl _ \<Rightarrow> Inl ErrValidation
               | Inr m \<Rightarrow>
                   NewExternalRequest (in_ProviderID i) (in_ExternalTransactionID i) playerID walletID
                     (in_RoundID i) (in_GameID i) (in_Kind i) m
                     (in_ReferenceExternalTransactionID i))))"

subsection \<open>The message\<close>

abbreviation MessageType :: string where "MessageType \<equiv> ''WagerTransactionRequested''"

record Payload =
  py_Request :: TransactionRequest
  py_IdempotencyKey :: string

record SqsEnvelope =
  qe_MessageID :: string
  qe_Type :: string
  qe_Occurred :: time
  qe_Data :: Payload

text \<open>\<^verbatim>\<open>CrashAfterCommit\<close> is a hook that ends the process; its presence is what matters.\<close>

record ConsumerConfig =
  QueueName :: string
  DLQName :: string
  ConsumerName :: string
  WaitTime :: int64
  VisibilityTimeout :: int64
  MaxMessages :: int64
  Workers :: int64
  CrashAfterCommit :: bool

record 's Consumer =
  cn_service :: Service
  cn_store :: "'s Store"
  cn_broker :: Broker
  cn_parse :: "string \<Rightarrow> uuid option"
  cn_unmarshal :: "string \<Rightarrow> SqsEnvelope option"
  cn_cfg :: ConsumerConfig
  cn_queueURL :: string
  cn_dlqURL :: string

definition NewConsumer ::
  "Service \<Rightarrow> 's Store \<Rightarrow> Broker \<Rightarrow> (string \<Rightarrow> uuid option) \<Rightarrow> (string \<Rightarrow> SqsEnvelope option)
    \<Rightarrow> ConsumerConfig \<Rightarrow> 's Consumer" where
  "NewConsumer sv st bk parse unmarshal cfg =
    (let cfg = (if sint (Workers cfg) < 1 then cfg\<lparr>Workers := 1\<rparr> else cfg);
         cfg = (if sint (MaxMessages cfg) < 1 then cfg\<lparr>MaxMessages := 10\<rparr> else cfg);
         cfg = (if sint (WaitTime cfg) \<le> 0 then cfg\<lparr>WaitTime := 5 * Second\<rparr> else cfg)
     in \<lparr>cn_service = sv, cn_store = st, cn_broker = bk, cn_parse = parse,
         cn_unmarshal = unmarshal, cn_cfg = cfg, cn_queueURL = '''', cn_dlqURL = ''''\<rparr>)"

text \<open>\<^verbatim>\<open>Start\<close>: the URLs of both queues, or the error that ends the start.\<close>

definition Start :: "'s Consumer \<Rightarrow> ('s World, 's Consumer) op" where
  "Start c =
    obind (QueueURL (cn_broker c) (QueueName (cn_cfg c))) (\<lambda>q.
    obind (QueueURL (cn_broker c) (DLQName (cn_cfg c))) (\<lambda>d.
    ok (c\<lparr>cn_queueURL := q, cn_dlqURL := d\<rparr>)))"

definition bodyHash :: "Service \<Rightarrow> ExternalRequest \<Rightarrow> string \<Rightarrow> string" where
  "bodyHash sv req key =
    sv_sha256_hex sv (PayloadHash (sv_uuid_string sv) (sv_sha256_hex sv) req @ ''|'' @ key)"

text \<open>The callback of the unit of work.\<close>

definition consumeIn ::
  "Service \<Rightarrow> 's Store \<Rightarrow> string \<Rightarrow> string \<Rightarrow> string \<Rightarrow> time \<Rightarrow> env \<Rightarrow> ProcessCommand
    \<Rightarrow> ('s, ProcessResult) op" where
  "consumeIn sv st consumer messageID hash receivedAt en cmd =
    obind (Inbox_Record st consumer messageID hash receivedAt) (\<lambda>i.
    if \<not> ir_Inserted i then
      (if ir_ExistingHash i \<noteq> hash then fail ErrValidation else fail ErrAlreadyProcessed)
    else ProcessIn sv st en cmd)"

subsection \<open>The decision\<close>

datatype outcome = outcomeDone | outcomeTransient | outcomePermanent

definition classify :: "error option \<Rightarrow> outcome" where
  "classify err =
    (if err = None \<or> err = Some ErrAlreadyProcessed then outcomeDone
     else if the err \<in> {ErrValidation, ErrIdempotencyConflict, ErrExternalIDConflict, ErrWalletNotFound}
       then outcomePermanent
     else if the err \<in> {ErrDuplicateTransaction, ErrConcurrentModification} then outcomeTransient
     else if IsTransient err then outcomeTransient
     else outcomeTransient)"

fun visibility_loop :: "nat \<Rightarrow> int64 \<Rightarrow> int64" where
  "visibility_loop 0 d = d"
| "visibility_loop (Suc n) d =
    (if sint d < sint (5 * Minute) then visibility_loop n (d * 2) else d)"

definition visibilityBackoff :: "int64 \<Rightarrow> int64" where
  "visibilityBackoff receiveCount =
    (let d = visibility_loop (nat (sint receiveCount - 1)) (2 * Second)
     in if sint d > sint (5 * Minute) then 5 * Minute else d)"

text \<open>\<^verbatim>\<open>n, _ := strconv.Atoi(s)\<close>: the value that comes with an error is 0 for a text that is not
  a number and the nearest int64 for a number out of range.\<close>

definition Atoi_value :: "string \<Rightarrow> int64" where
  "Atoi_value s =
    (case ParseInt s of
       Inr n \<Rightarrow> n
     | Inl _ \<Rightarrow>
         (case s of
            [] \<Rightarrow> 0
          | c # cs \<Rightarrow>
              let ds = (if c = CHR ''-'' \<or> c = CHR ''+'' then cs else s) in
              if ds = [] \<or> \<not> list_all is_digit ds then 0
              else if c = CHR ''-'' then word_of_int min_int64 else word_of_int max_int64))"

subsection \<open>Handling one message\<close>

definition ToString :: "string option \<Rightarrow> string" where
  "ToString p = (case p of None \<Rightarrow> '''' | Some s \<Rightarrow> s)"

definition delete_message :: "'s Consumer \<Rightarrow> string \<Rightarrow> ('s World, unit) op" where
  "delete_message c receipt =
    obind (otry (call_delete (cn_broker c) (cn_queueURL c) receipt)) (\<lambda>_. ok ())"

definition dead_letter :: "'s Consumer \<Rightarrow> Message \<Rightarrow> string \<Rightarrow> SendMessageInput" where
  "dead_letter c m reason =
    (let group = ToString (ms_MessageGroupId m) in
     \<lparr>sm_QueueUrl = cn_dlqURL c, sm_MessageBody = TextBody (ms_Body m),
      sm_MessageGroupId = (if group = '''' then ''unknown'' else group),
      sm_MessageDeduplicationId = ToString (ms_MessageId m),
      sm_MessageAttributes = [(''dlqReason'', reason)]\<rparr>)"

definition deadLetter :: "'s Consumer \<Rightarrow> Message \<Rightarrow> string \<Rightarrow> ('s World, unit) op" where
  "deadLetter c m reason =
    obind (otry (call_send (cn_broker c) (dead_letter c m reason))) (\<lambda>r.
    case r of
      Inl _ \<Rightarrow> ok ()
    | Inr _ \<Rightarrow> delete_message c (ToString (ms_ReceiptHandle m)))"

text \<open>What happens after the unit of work, by its error.\<close>

definition conclude :: "'s Consumer \<Rightarrow> Message \<Rightarrow> error option \<Rightarrow> ('s World, unit) op" where
  "conclude c m err =
    (case classify err of
       outcomeDone \<Rightarrow>
         if CrashAfterCommit (cn_cfg c) then ok () else delete_message c (ToString (ms_ReceiptHandle m))
     | outcomePermanent \<Rightarrow> deadLetter c m ''permanent_error''
     | outcomeTransient \<Rightarrow>
         obind (otry (call_visibility (cn_broker c) (cn_queueURL c) (ToString (ms_ReceiptHandle m))
           (quot64 (visibilityBackoff (Atoi_value (ToString (ms_ApproximateReceiveCount m)))) Second)))
           (\<lambda>_. ok ()))"

text \<open>The command of a message, or the reason why it has none.\<close>

definition command_of :: "'s Consumer \<Rightarrow> Message \<Rightarrow> string + (string \<times> ProcessCommand)" where
  "command_of c m =
    (case cn_unmarshal c (ToString (ms_Body m)) of
       None \<Rightarrow> Inl ''invalid_envelope''
     | Some e \<Rightarrow>
         if qe_MessageID e = '''' \<or> qe_Type e \<noteq> MessageType then Inl ''invalid_envelope''
         else if py_IdempotencyKey (qe_Data e) = '''' then Inl ''missing_idempotency_key''
         else
           (case ToRequest (cn_parse c) (py_Request (qe_Data e)) of
              Inl _ \<Rightarrow> Inl ''invalid_payload''
            | Inr req \<Rightarrow>
                Inr (qe_MessageID e,
                  \<lparr>pc_Request = req, pc_IdempotencyKey = py_IdempotencyKey (qe_Data e),
                   pc_CorrelationID = qe_MessageID e, pc_Source = ''sqs''\<rparr>)))"

definition consume ::
  "'s Consumer \<Rightarrow> string \<Rightarrow> time \<Rightarrow> env \<Rightarrow> ProcessCommand \<Rightarrow> ('s, ProcessResult) op" where
  "consume c messageID receivedAt en cmd =
    consumeIn (cn_service c) (cn_store c) (ConsumerName (cn_cfg c)) messageID
      (bodyHash (cn_service c) (pc_Request cmd) (pc_IdempotencyKey cmd)) receivedAt en cmd"

definition handle :: "'s Consumer \<Rightarrow> Tape \<Rightarrow> env \<Rightarrow> Message \<Rightarrow> ('s World, unit) op" where
  "handle c tp en m =
    (case command_of c m of
       Inl reason \<Rightarrow> deadLetter c m reason
     | Inr (messageID, cmd) \<Rightarrow>
         obind (now_of tp) (\<lambda>receivedAt.
         obind (otry (in_db tp (consume c messageID receivedAt en cmd))) (\<lambda>r.
         conclude c m (case r of Inl e \<Rightarrow> Some e | Inr _ \<Rightarrow> None))))"

text \<open>One worker: receive, handle every message in turn, until the context ends. The bound counts
  the iterations; None is a worker that is still running.\<close>

fun handle_all ::
  "'s Consumer \<Rightarrow> Tape \<Rightarrow> (nat \<Rightarrow> env) \<Rightarrow> Message list \<Rightarrow> ('s World, unit) op" where
  "handle_all c tp envs [] = ok ()"
| "handle_all c tp envs (m # ms) =
    (\<lambda>w. obind (handle c tp (envs (wd_tick w)) m) (\<lambda>_. handle_all c tp envs ms) w)"

definition receive :: "'s Consumer \<Rightarrow> ('s World, Message list) op" where
  "receive c =
    call_receive (cn_broker c) (cn_queueURL c) (MaxMessages (cn_cfg c))
      (quot64 (WaitTime (cn_cfg c)) Second) (quot64 (VisibilityTimeout (cn_cfg c)) Second)"

fun worker_loop ::
  "nat \<Rightarrow> 's Consumer \<Rightarrow> Tape \<Rightarrow> (nat \<Rightarrow> env) \<Rightarrow> 's World \<Rightarrow> 's World option" where
  "worker_loop 0 c tp envs w = None"
| "worker_loop (Suc n) c tp envs w =
    (case ctx_of tp w of
       (Inr None, w) \<Rightarrow>
         (case receive c w of
            (Inl _, w) \<Rightarrow> worker_loop n c tp envs w
          | (Inr ms, w) \<Rightarrow> worker_loop n c tp envs (snd (handle_all c tp envs ms w)))
     | (_, w) \<Rightarrow> Some w)"

end
