(* ===== verification/Outbox.thy ===== *)
theory Outbox
  imports Broker
begin

text \<open>
  \<^verbatim>\<open>internal/workers\<close>: the outbox publisher (\<^verbatim>\<open>outbox.go\<close>) and the pending reference
  worker (\<^verbatim>\<open>pending.go\<close>). The publisher is the one of the theory Broker; the text of an error,
  which \<^verbatim>\<open>reschedule\<close> stores, is a parameter. A hook that ends the process stops the
  operation where it stands: the operations return whether the process still runs.
\<close>

record OutboxConfig =
  ob_PublisherID :: string
  ob_PollInterval :: int64
  ob_BatchSize :: int64
  ob_Lease :: int64
  ob_BaseBackoff :: int64
  ob_MaxBackoff :: int64
  ob_CrashAfterClaim :: bool
  ob_CrashAfterPublish :: bool

record 's OutboxPublisher =
  op_store :: "'s Store"
  op_broker :: Broker
  op_uuid_string :: "uuid \<Rightarrow> string"
  op_error_text :: "error \<Rightarrow> string"
  op_queue :: string
  op_cfg :: OutboxConfig

abbreviation sqsBatchLimit :: nat where "sqsBatchLimit \<equiv> 10"

text \<open>\<^verbatim>\<open>fresh\<close> is what \<^verbatim>\<open>uuid.NewString\<close> gives.\<close>

definition NewOutboxConfig :: "string \<Rightarrow> OutboxConfig \<Rightarrow> OutboxConfig" where
  "NewOutboxConfig fresh cfg =
    (let cfg = (if ob_PublisherID cfg = '''' then cfg\<lparr>ob_PublisherID := fresh\<rparr> else cfg);
         cfg = (if sint (ob_PollInterval cfg) \<le> 0 then cfg\<lparr>ob_PollInterval := 500000000\<rparr> else cfg);
         cfg = (if sint (ob_BatchSize cfg) \<le> 0 then cfg\<lparr>ob_BatchSize := 50\<rparr> else cfg);
         cfg = (if sint (ob_Lease cfg) \<le> 0 then cfg\<lparr>ob_Lease := 30 * Second\<rparr> else cfg);
         cfg = (if sint (ob_BaseBackoff cfg) \<le> 0 then cfg\<lparr>ob_BaseBackoff := Second\<rparr> else cfg);
         cfg = (if sint (ob_MaxBackoff cfg) \<le> 0 then cfg\<lparr>ob_MaxBackoff := Minute\<rparr> else cfg)
     in cfg)"

definition outbox_backoff :: "OutboxConfig \<Rightarrow> int64 \<Rightarrow> int64" where
  "outbox_backoff cfg attempt =
    (let d = backoff_loop (nat (sint attempt - 1)) (ob_MaxBackoff cfg) (ob_BaseBackoff cfg)
     in if sint d > sint (ob_MaxBackoff cfg) then ob_MaxBackoff cfg else d)"

subsection \<open>Publishing\<close>

definition reschedule ::
  "'s OutboxPublisher \<Rightarrow> Tape \<Rightarrow> uuid \<Rightarrow> int64 \<Rightarrow> error \<Rightarrow> ('s World, unit) op" where
  "reschedule p tp eventID attempts cause =
    obind (now_of tp) (\<lambda>now.
    obind (otry (in_db tp (Outbox_Reschedule (op_store p) eventID
        (now + sint (outbox_backoff (op_cfg p) attempts)) (op_error_text p cause)))) (\<lambda>_. ok ()))"

text \<open>The results tell whether the process still runs: False is the crash hook.\<close>

definition publishOne :: "'s OutboxPublisher \<Rightarrow> Tape \<Rightarrow> OutboxRecord \<Rightarrow> ('s World, bool) op" where
  "publishOne p tp rec =
    obind (otry (Publish (op_broker p) (op_uuid_string p) (op_queue p) rec)) (\<lambda>r.
    case r of
      Inl e \<Rightarrow> obind (reschedule p tp (or_EventID rec) (or_Attempts rec) e) (\<lambda>_. ok True)
    | Inr _ \<Rightarrow>
        if ob_CrashAfterPublish (op_cfg p) then ok False
        else
          obind (now_of tp) (\<lambda>now.
          obind (otry (in_db tp (Outbox_MarkPublished (op_store p) (or_EventID rec) now))) (\<lambda>_.
          ok True)))"

fun publishEach :: "'s OutboxPublisher \<Rightarrow> Tape \<Rightarrow> OutboxRecord list \<Rightarrow> ('s World, bool) op" where
  "publishEach p tp [] = ok True"
| "publishEach p tp (rec # recs) =
    obind (publishOne p tp rec) (\<lambda>running. if running then publishEach p tp recs else ok False)"

text \<open>\<^verbatim>\<open>byID[id]\<close>, which is the zero record for an id that is not in the chunk.\<close>

definition record_of :: "OutboxRecord list \<Rightarrow> uuid \<Rightarrow> uuid \<times> int64" where
  "record_of recs i =
    (case find (\<lambda>r. or_EventID r = i) (rev recs) of
       None \<Rightarrow> (uuid_Nil, 0)
     | Some r \<Rightarrow> (or_EventID r, or_Attempts r))"

fun rescheduleAll ::
  "'s OutboxPublisher \<Rightarrow> Tape \<Rightarrow> OutboxRecord list \<Rightarrow> (uuid \<times> error) list \<Rightarrow> ('s World, unit) op" where
  "rescheduleAll p tp recs [] = ok ()"
| "rescheduleAll p tp recs ((i, e) # failed) =
    obind (reschedule p tp (fst (record_of recs i)) (snd (record_of recs i)) e)
      (\<lambda>_. rescheduleAll p tp recs failed)"

definition publishChunk :: "'s OutboxPublisher \<Rightarrow> Tape \<Rightarrow> OutboxRecord list \<Rightarrow> ('s World, bool) op" where
  "publishChunk p tp recs =
    (if length recs = 1 then publishOne p tp (hd recs)
     else
       obind (otry (PublishBatch (op_broker p) (op_uuid_string p) (op_queue p) recs)) (\<lambda>r.
       case r of
         Inl _ \<Rightarrow> publishEach p tp recs
       | Inr (published, failed) \<Rightarrow>
           obind (range_of tp failed) (\<lambda>failed.
           obind (rescheduleAll p tp recs failed) (\<lambda>_.
           if published = [] then ok True
           else if ob_CrashAfterPublish (op_cfg p) then ok False
           else
             obind (now_of tp) (\<lambda>now.
             obind (otry (in_db tp (Outbox_MarkPublishedBatch (op_store p) published now))) (\<lambda>_.
             ok True))))))"

text \<open>The chunks of a batch, until the context ends; the result is whether every chunk was
  reached.\<close>

fun publishChunks ::
  "nat \<Rightarrow> 's OutboxPublisher \<Rightarrow> Tape \<Rightarrow> OutboxRecord list \<Rightarrow> ('s World, bool) op" where
  "publishChunks 0 p tp recs = ok True"
| "publishChunks (Suc n) p tp recs =
    (if recs = [] then ok True
     else
       obind (ctx_of tp) (\<lambda>e.
       if e \<noteq> None then ok False
       else
         obind (publishChunk p tp (take sqsBatchLimit recs)) (\<lambda>running.
         if running then publishChunks n p tp (drop sqsBatchLimit recs) else ok False)))"

definition claimIn :: "'s OutboxPublisher \<Rightarrow> time \<Rightarrow> ('s, OutboxRecord list) op" where
  "claimIn p now =
    obind (Outbox_Claim (op_store p) (ob_PublisherID (op_cfg p)) now (ob_Lease (op_cfg p))
        (ob_BatchSize (op_cfg p))) (\<lambda>batch.
    obind (Outbox_Lag (op_store p) now) (\<lambda>_.
    ok batch))"

text \<open>\<^verbatim>\<open>tick\<close>: whether more work may be pending. The number of chunks is at most the number of
  records.\<close>

definition outbox_tick :: "'s OutboxPublisher \<Rightarrow> Tape \<Rightarrow> ('s World, bool) op" where
  "outbox_tick p tp =
    obind (now_of tp) (\<lambda>now.
    obind (otry (in_db tp (claimIn p now))) (\<lambda>r.
    case r of
      Inl _ \<Rightarrow> ok False
    | Inr batch \<Rightarrow>
        if batch = [] then ok False
        else if ob_CrashAfterClaim (op_cfg p) then ok False
        else
          obind (publishChunks (length batch) p tp batch) (\<lambda>reached.
          ok (reached \<and> int (length batch) = sint (ob_BatchSize (op_cfg p))))))"

subsection \<open>The pending reference worker\<close>

definition pending_tick ::
  "nat \<Rightarrow> Service \<Rightarrow> 's Store \<Rightarrow> (nat \<Rightarrow> Iteration) \<Rightarrow> 's \<Rightarrow> (bool \<times> 's) option" where
  "pending_tick n sv st its s =
    map_option (\<lambda>(handled, e, s'). (False, s')) (ResolvePendingReferences n sv st its 0 s)"

text \<open>\<^verbatim>\<open>loop\<close>: the delay before the next tick.\<close>

definition next_delay :: "int64 \<Rightarrow> bool \<Rightarrow> int64" where
  "next_delay interval pending = (if pending then 0 else interval)"

end
