(* ===== verification/System.thy ===== *)
theory System
  imports PostgresContract Consumer Outbox
begin

text \<open>
  The service over its database. A step of the system is one unit of work of any of its processes
  (the HTTP handlers, the SQS consumer, the pending reference worker, the outbox publisher),
  committed or not, or the passing of time; the state is the PostgreSQL model. Units of work run
  one after the other, which the row lock taken by \<^verbatim>\<open>GetForUpdate\<close> provides in the code (the theory
  Interleaving); a claim passes over the rows that other transactions have locked, so it runs on
  \<^verbatim>\<open>contended locked\<close> for any list of such rows.
\<close>

definition after :: "Faults \<Rightarrow> (db, 'a) op \<Rightarrow> db \<Rightarrow> db" where
  "after f m d = snd (uow_Do f m d)"

inductive sys_step :: "Service \<Rightarrow> db \<Rightarrow> db \<Rightarrow> bool" for sv where
  processed: "clock_ok (e_now en) \<Longrightarrow> sys_step sv d (after f (ProcessIn sv pgStore en cmd) d)"
| consumed: "clock_ok (e_now en) \<Longrightarrow>
    sys_step sv d (after f (consumeIn sv pgStore consumer messageID
      (bodyHash sv (pc_Request cmd) (pc_IdempotencyKey cmd)) receivedAt en cmd) d)"
| resolved: "clock_ok (e_now en) \<Longrightarrow> 
    sys_step sv d (after f (resolveOne sv (contended locked) claimNow en) d)"
| opened: "clock_ok (e_now en) \<Longrightarrow>
    Open i (oc_PlayerID cmd) (oc_InitialBalance cmd) (e_now en) = Inr w \<Longrightarrow>
    sys_step sv d (after f (openIn sv pgStore en cmd w) d)"
| claimed: "op_store p = contended locked \<Longrightarrow> sys_step sv d (after f (claimIn p now) d)"
| published: "sys_step sv d (after f (Outbox_MarkPublished pgStore i now) d)"
| batch_published: "sys_step sv d (after f (Outbox_MarkPublishedBatch pgStore ids now) d)"
| rescheduled: "sys_step sv d (after f (Outbox_Reschedule pgStore i next text) d)"
| time_passes: "sys_step sv d (d\<lparr>db_now := now\<rparr>)"

definition reachable :: "Service \<Rightarrow> db \<Rightarrow> bool" where
  "reachable sv d \<longleftrightarrow> (\<exists>now. (sys_step sv)\<^sup>*\<^sup>* (empty_db now) d)"

definition sound :: "db \<Rightarrow> bool" where
  "sound d \<longleftrightarrow> pg_ok d \<and> books (pg_view d)"

subsection \<open>Every step keeps the books\<close>

lemma after_cases:
  assumes "P d" and "\<And>a d'. m d = (Inr a, d') \<Longrightarrow> P d'"
  shows "P (after f m d)"
  using assms by (auto simp: after_def uow_Do_def split: option.splits prod.splits sum.splits)

lemma pg_outbox_map:
  assumes "pg_ok d" and "\<And>r. xr_event_id (f r) = xr_event_id r" and "\<And>r. xr_payload (f r) = xr_payload r"
  shows "pg_ok (d\<lparr>db_outbox := map f (db_outbox d)\<rparr>)"
    and "pg_view (d\<lparr>db_outbox := map f (db_outbox d)\<rparr>) = pg_view d"
proof -
  have x: "(xr_payload \<circ> f) = xr_payload" using assms(3) by auto
  show v: "pg_view (d\<lparr>db_outbox := map f (db_outbox d)\<rparr>) = pg_view d"
    by (simp add: pg_view_def x)
  show "pg_ok (d\<lparr>db_outbox := map f (db_outbox d)\<rparr>)"
    using assms unfolding pg_ok_def v by auto
qed

lemma pg_now: "pg_ok (d\<lparr>db_now := now\<rparr>) = pg_ok d" "pg_view (d\<lparr>db_now := now\<rparr>) = pg_view d"
  by (simp_all add: pg_ok_def pg_view_def)

definition outbox_only :: "db \<Rightarrow> db \<Rightarrow> bool" where
  "outbox_only d d' \<longleftrightarrow> (\<exists>f. (\<forall>r. xr_event_id (f r) = xr_event_id r \<and> xr_payload (f r) = xr_payload r) \<and>
    d' = d\<lparr>db_outbox := map f (db_outbox d)\<rparr>)"

lemma outbox_only_refl [simp]: "outbox_only d d"
  unfolding outbox_only_def by (rule exI [of _ id]) simp

lemma outbox_only_map:
  "(\<And>r. xr_event_id (f r) = xr_event_id r \<and> xr_payload (f r) = xr_payload r) \<Longrightarrow>
    outbox_only d (d\<lparr>db_outbox := map f (db_outbox d)\<rparr>)"
  unfolding outbox_only_def by blast

lemma outbox_only_sound:
  "outbox_only d d' \<Longrightarrow> sound d \<Longrightarrow> sound d' \<and> pg_view d' = pg_view d"
  using pg_outbox_map by (auto simp: outbox_only_def sound_def)

lemma claim_skipping_outbox: "claim_skipping locked pid now lease limit d = (r, d1) \<Longrightarrow> outbox_only d d1"
  by (auto simp: claim_skipping_def Let_def lease_row_def intro!: outbox_only_map split: if_splits)

lemma outbox_ops:
  "outboxRepo_MarkPublished i now d = (r1, d1) \<Longrightarrow> outbox_only d d1"
  "outboxRepo_MarkPublishedBatch ids now d = (r1, d1) \<Longrightarrow> outbox_only d d1"
  "outboxRepo_Reschedule i now txt d = (r1, d1) \<Longrightarrow> outbox_only d d1"
  "outboxRepo_Claim pid now lease limit d = (r2, d1) \<Longrightarrow> outbox_only d d1"
  "outboxRepo_Lag now d = (r3, d1) \<Longrightarrow> d1 = d"
  by (auto simp: outboxRepo_MarkPublished_def outboxRepo_MarkPublishedBatch_def outboxRepo_Reschedule_def
      outboxRepo_Claim_eq outboxRepo_Lag_def Let_def publish_row_def lease_row_def
      intro!: outbox_only_map split: if_splits list.splits)

lemma claimIn_outbox:
  "op_store p = contended locked \<Longrightarrow> claimIn p now d = (r, d') \<Longrightarrow> outbox_only d d'"
  by (auto simp: claimIn_def contended_simps obind_apply dest: claim_skipping_outbox outbox_ops(5) split: prod.splits sum.splits)

lemma ProcessIn_sound:
  assumes "sound d" and "clock_ok (e_now en)" and "ProcessIn sv pgStore en cmd d = (Inr res, d')"
  shows "sound d'" and "grows (pg_view d) (pg_view d')"
proof -
  have ok: "pg_ok d" and b: "books (pg_view d)" using assms(1) by (auto simp: sound_def)
  note p = pg.ProcessIn_Inr [OF ok assms(2,3)]
  have v: "view_ok (pg_view d)" "view_ok (pg_view d')" using ok p(1) by (auto simp: pg_ok_def)
  have "books (pg_view d') \<and> grows (pg_view d) (pg_view d')"
    using p(2)
  proof
    assume "replay_step (pg_view d)
      (PayloadHash (sv_uuid_string sv) (sv_sha256_hex sv) (pc_Request cmd)) cmd res (pg_view d')"
    then show ?thesis using b by (auto simp: replay_step_def)
  next
    assume n: "new_step stored_wallet stored_tx stored_entry sv en (pg_view d)
      (PayloadHash (sv_uuid_string sv) (sv_sha256_hex sv) (pc_Request cmd)) cmd res (pg_view d')"
    show ?thesis
      using new_step_books [OF n v b pg.t_kept pg.w_kept pg.l_kept]
        new_step_grows [OF n v(1) pg.w_kept] by blast
  qed
  then show "sound d'" "grows (pg_view d) (pg_view d')" using p(1) by (auto simp: sound_def)
qed

lemma resolveOne_sound:
  assumes "sound d" and "clock_ok (e_now en)" and "resolveOne sv (contended locked) claimNow en d = (Inr found, d')"
  shows "sound d'" and "grows (pg_view d) (pg_view d')"
proof -
  have ok: "pg_ok d" and b: "books (pg_view d)" using assms(1) by (auto simp: sound_def)
  have now: "e_now en \<noteq> 0" using assms(2) by (auto simp: clock_ok_def)
  note p = pgc.resolveOne_Inr [OF ok assms(2,3)]
  have v: "view_ok (pg_view d)" "view_ok (pg_view d')" using ok p(1) by (auto simp: pg_ok_def)
  have "books (pg_view d') \<and> grows (pg_view d) (pg_view d')"
  proof (cases found)
    case True
    then have r: "retry_step stored_wallet stored_tx stored_entry (\<lambda>t. t_id t \<notin> set locked) sv en (pg_view d) claimNow (pg_view d')"
      using p(2) by simp
    show ?thesis
      using retry_step_books [OF r v b now pg.t_kept pg.w_kept pg.l_kept]
        retry_step_grows [OF r v(1) now pg.t_kept pg.w_kept] by blast
  next
    case False
    then show ?thesis using p(2) b by simp
  qed
  then show "sound d'" "grows (pg_view d) (pg_view d')" using p(1) by (auto simp: sound_def)
qed

lemma openIn_sound:
  assumes "sound d" and "clock_ok (e_now en)"
    and "Open i (oc_PlayerID cmd) (oc_InitialBalance cmd) (e_now en) = Inr w"
    and "openIn sv pgStore en cmd w d = (Inr u, d')"
  shows "sound d'" and "grows (pg_view d) (pg_view d')"
  using pg.openIn_books [OF _ _ assms(3,2) refl assms(4)] assms(1) by (auto simp: sound_def)

text \<open>The inbox belongs to no other part of the content.\<close>

lemma inbox_sound:
  assumes "sound d" and "Inbox_Record pgStore c m h now d = (Inr r, d')"
  shows "sound d'" and "grows (pg_view d) (pg_view d')"
proof -
  have ok: "pg_ok d" using assms(1) by (simp add: sound_def)
  note w = writesD [OF pg.i_record ok TrueI assms(2)]
  have "\<exists>ib. pg_view d' = (pg_view d)\<lparr>v_inbox := ib\<rparr> \<and> v_inbox (pg_view d) \<subseteq>\<^sub>m ib"
  proof (cases "ir_Inserted r")
    case True
    then show ?thesis
      using w(1) by (intro exI [of _ "(v_inbox (pg_view d))((c, m) \<mapsto> h)"]) (auto simp: map_le_def)
  next
    case False
    then show ?thesis using w(1) by (intro exI [of _ "v_inbox (pg_view d)"]) simp
  qed
  then obtain ib where v: "pg_view d' = (pg_view d)\<lparr>v_inbox := ib\<rparr>" "v_inbox (pg_view d) \<subseteq>\<^sub>m ib"
    by blast
  have "books (pg_view d') = books (pg_view d)"
    unfolding v by (simp add: books_def balanced_def owned_def posted_def reversals_sound_def
        entries_def opened_def ledger_entries_def)
  then show "sound d'" "grows (pg_view d) (pg_view d')"
    using w(2) assms(1) v by (auto simp: sound_def grows_def same_owner_def intro: continues_refl)
qed

lemma consumeIn_Inr:
  assumes "consumeIn sv st c m h t en cmd s = (Inr res, s')"
  obtains s1 r where "Inbox_Record st c m h t s = (Inr r, s1)" and "ir_Inserted r"
    and "ProcessIn sv st en cmd s1 = (Inr res, s')"
  using assms by (auto simp: consumeIn_def obind_Inr_iff split: if_splits)

lemma consumeIn_sound:
  assumes "sound d" and "clock_ok (e_now en)" and "consumeIn sv pgStore c m h t en cmd d = (Inr res, d')"
  shows "sound d'" and "grows (pg_view d) (pg_view d')"
proof -
  obtain d1 r where i: "Inbox_Record pgStore c m h t d = (Inr r, d1)"
    and p: "ProcessIn sv pgStore en cmd d1 = (Inr res, d')"
    using assms(3) by (rule consumeIn_Inr)
  note s1 = inbox_sound [OF assms(1) i]
  note s2 = ProcessIn_sound [OF s1(1) assms(2) p]
  show "sound d'" "grows (pg_view d) (pg_view d')"
    using s2 grows_trans [OF s1(2) s2(2)] by blast+
qed

lemma sys_step_sound:
  assumes "sys_step sv d d'" and "sound d"
  shows "sound d' \<and> grows (pg_view d) (pg_view d')"
  using assms(1)
proof cases
  case (processed en f cmd)
  show ?thesis
    unfolding processed(1)
    by (rule after_cases) (use assms(2) ProcessIn_sound [OF assms(2) processed(2)] in auto)
next
  case (consumed en f consumer messageID receivedAt cmd)
  show ?thesis
    unfolding consumed(1)
    by (rule after_cases) (use assms(2) consumeIn_sound [OF assms(2) consumed(2)] in auto)
next
  case (resolved en f locked claimNow)
  show ?thesis
    unfolding resolved(1)
    by (rule after_cases) (use assms(2) resolveOne_sound [OF assms(2) resolved(2)] in auto)
next
  case (opened en i cmd w f)
  show ?thesis
    unfolding opened(1)
    by (rule after_cases) (use assms(2) openIn_sound [OF assms(2) opened(2,3)] in auto)
next
  case (claimed p locked f now)
  show ?thesis
    unfolding claimed(1)
    by (rule after_cases)
      (use assms(2) claimIn_outbox [OF claimed(2)] outbox_only_sound in fastforce)+
next
  case (published f i now)
  show ?thesis
    unfolding published
    by (rule after_cases)
      (use assms(2) outbox_ops(1) outbox_only_sound in \<open>fastforce simp: pgStore_simps\<close>)+
next
  case (batch_published f ids now)
  show ?thesis
    unfolding batch_published
    by (rule after_cases)
      (use assms(2) outbox_ops(2) outbox_only_sound in \<open>fastforce simp: pgStore_simps\<close>)+
next
  case (rescheduled f i "next" "text")
  show ?thesis
    unfolding rescheduled
    by (rule after_cases)
      (use assms(2) outbox_ops(3) outbox_only_sound in \<open>fastforce simp: pgStore_simps\<close>)+
next
  case (time_passes now)
  then show ?thesis using assms(2) by (simp add: sound_def pg_now)
qed

lemma steps_sound:
  "(sys_step sv)\<^sup>*\<^sup>* d d' \<Longrightarrow> sound d \<Longrightarrow> sound d' \<and> grows (pg_view d) (pg_view d')"
proof (induction rule: rtranclp_induct)
  case base
  then show ?case by simp
next
  case (step d' d'')
  then show ?case using sys_step_sound grows_trans by blast
qed

lemma empty_sound: "sound (empty_db now)"
  using empty_db_ok
  by (simp add: sound_def empty_db_def pg_view_def books_def balanced_def owned_def posted_def
      reversals_sound_def ledger_entries_def)

lemma reachable_sound: "reachable sv d \<Longrightarrow> sound d"
  using steps_sound empty_sound by (auto simp: reachable_def)

lemma reachable_steps: "reachable sv d \<Longrightarrow> (sys_step sv)\<^sup>*\<^sup>* d d' \<Longrightarrow> reachable sv d'"
  unfolding reachable_def by (meson rtranclp_trans)

end
