(* ===== verification/Demo.thy ===== *)
theory Demo
  imports System
begin

text \<open>
  A short run of the service on concrete values, evaluated step by step, for the witnesses: a
  wallet is opened with 100.00 BRL, a bet of 30.00 is placed, a refund of a transaction that has
  not arrived waits for its reference, and a refund undoes the bet. The digest and the text of an identifier are concrete functions.
\<close>

definition demo_sv :: Service where
  "demo_sv = NewService (\<lambda>i. if i = 7 then ''w'' else ''p'') (\<lambda>s. nat_str (length s)) DefaultConfig"

definition demo_env :: "time \<Rightarrow> uuid \<Rightarrow> env" where
  "demo_env now i =
    \<lparr>e_now = now, e_txID = i, e_entryID = i + 1,
     e_balanceGen = \<lparr>g_eventID = Inr (i + 2), g_string = ''g''\<rparr>,
     e_outcomeGen = \<lparr>g_eventID = Inr (i + 3), g_string = ''g''\<rparr>\<rparr>"

definition brl :: "int64 \<Rightarrow> Money" where
  "brl n = \<lparr>m_minor = n, m_currency = ''BRL'', m_valid = True\<rparr>"

definition demo_open :: OpenWalletCommand where
  "demo_open = \<lparr>oc_PlayerID = 5, oc_InitialBalance = brl 10000, oc_CorrelationID = ''c''\<rparr>"

definition demo_request :: "string \<Rightarrow> Kind \<Rightarrow> int64 \<Rightarrow> string \<Rightarrow> ExternalRequest" where
  "demo_request x kind n ref =
    \<lparr>er_ProviderID = ''prov'', er_ExternalTransactionID = x, er_PlayerID = 5, er_WalletID = 7,
     er_RoundID = ''r'', er_GameID = ''g'', er_Kind = kind, er_Money = brl n, er_Reference = ref\<rparr>"

definition demo_cmd :: "string \<Rightarrow> Kind \<Rightarrow> int64 \<Rightarrow> string \<Rightarrow> ProcessCommand" where
  "demo_cmd x kind n ref =
    \<lparr>pc_Request = demo_request x kind n ref, pc_IdempotencyKey = x, pc_CorrelationID = ''c'',
     pc_Source = ''http''\<rparr>"

definition demo_wallet :: Wallet where
  "demo_wallet = \<lparr>w_id = 7, w_playerID = 5, w_currency = ''BRL'', w_balance = brl 10000,
     w_version = 1, w_createdAt = 1000000000, w_updatedAt = 1000000000\<rparr>"

subsection \<open>The tables after each step\<close>

definition demo_tx1 :: tx_row where
  "demo_tx1 =
    \<lparr>tr_id = 10, tr_origin = ''INTERNAL'', tr_provider_id = None,
     tr_external_transaction_id = None, tr_idempotency_key = None, tr_payload_hash = None,
     tr_wallet_id = 7, tr_player_id = 5, tr_round_id = None, tr_game_id = None, tr_kind =
     ''OPENING'', tr_amount_minor = 10000, tr_currency = ''BRL'', tr_reference_external = None,
     tr_reference_id = None, tr_status = ''PROCESSED'', tr_failure_code = None,
     tr_result_balance_minor = Some 10000, tr_reference_attempts = 0, tr_next_retry_at = None,
     tr_correlation_id = Some ''c'', tr_created_at = 1000000000, tr_updated_at = 1000000000,
     tr_processed_at = Some 1000000000\<rparr>"

definition demo_tx2 :: tx_row where
  "demo_tx2 =
    \<lparr>tr_id = 20, tr_origin = ''EXTERNAL'', tr_provider_id = Some ''prov'',
     tr_external_transaction_id = Some ''x'', tr_idempotency_key = Some ''x'', tr_payload_hash
     = Some ''163'', tr_wallet_id = 7, tr_player_id = 5, tr_round_id = Some ''r'', tr_game_id =
     Some ''g'', tr_kind = ''BET'', tr_amount_minor = 3000, tr_currency = ''BRL'',
     tr_reference_external = None, tr_reference_id = None, tr_status = ''PROCESSED'',
     tr_failure_code = None, tr_result_balance_minor = Some 7000, tr_reference_attempts = 0,
     tr_next_retry_at = None, tr_correlation_id = Some ''c'', tr_created_at = 2000000000,
     tr_updated_at = 2000000000, tr_processed_at = Some 2000000000\<rparr>"

definition demo_tx3 :: tx_row where
  "demo_tx3 =
    \<lparr>tr_id = 30, tr_origin = ''EXTERNAL'', tr_provider_id = Some ''prov'',
     tr_external_transaction_id = Some ''y'', tr_idempotency_key = Some ''y'', tr_payload_hash
     = Some ''204'', tr_wallet_id = 7, tr_player_id = 5, tr_round_id = Some ''r'', tr_game_id =
     Some ''g'', tr_kind = ''REFUND'', tr_amount_minor = 1000, tr_currency = ''BRL'',
     tr_reference_external = Some ''zz'', tr_reference_id = None, tr_status =
     ''PENDING_REFERENCE'', tr_failure_code = None, tr_result_balance_minor = None,
     tr_reference_attempts = 1, tr_next_retry_at = Some 4000000000, tr_correlation_id = Some
     ''c'', tr_created_at = 3000000000, tr_updated_at = 3000000000, tr_processed_at =
     None\<rparr>"

definition demo_entry1 :: ledger_row where
  "demo_entry1 =
    \<lparr>gr_seq = 1, gr_id = 11, gr_wallet_id = 7, gr_transaction_id = 10, gr_direction =
     ''CREDIT'', gr_amount_minor = 10000, gr_before_minor = 0, gr_after_minor = 10000,
     gr_currency = ''BRL'', gr_created_at = 1000000000\<rparr>"

definition demo_entry2 :: ledger_row where
  "demo_entry2 =
    \<lparr>gr_seq = 2, gr_id = 21, gr_wallet_id = 7, gr_transaction_id = 20, gr_direction =
     ''DEBIT'', gr_amount_minor = 3000, gr_before_minor = 10000, gr_after_minor = 7000,
     gr_currency = ''BRL'', gr_created_at = 2000000000\<rparr>"

definition demo_event1 :: outbox_row where
  "demo_event1 =
    \<lparr>xr_event_id = 13, xr_aggregate_type = ''WagerTransaction'', xr_aggregate_id = 10,
     xr_event_type = TypeWagerTransactionProcessed, xr_payload = \<lparr>ev_EventID = 13,
     ev_EventType = TypeWagerTransactionProcessed, ev_AggregateType = ''WagerTransaction'',
     ev_AggregateID = 10, ev_CorrelationID = ''c'', ev_CausationID = ''p'', ev_OccurredAt =
     1000000000, ev_Version = 1, ev_Data = ProcessedData \<lparr>pd_TransactionID = 10,
     pd_Origin = ''INTERNAL'', pd_ProviderID = '''', pd_ExternalTransactionID = '''',
     pd_WalletID = 7, pd_PlayerID = 5, pd_RoundID = '''', pd_GameID = '''', pd_Kind =
     ''OPENING'', pd_Money = \<lparr>j_amount = ''100.00'', j_currency = ''BRL''\<rparr>,
     pd_Balance = \<lparr>j_amount = ''100.00'', j_currency = ''BRL''\<rparr>,
     pd_ReferenceTransactionID = None, pd_ProcessedAt = 1000000000\<rparr>\<rparr>,
     xr_occurred_at = 1000000000, xr_created_at = 1000000000, xr_attempts = 0,
     xr_next_attempt_at = 1000000000, xr_locked_by = None, xr_locked_until = None,
     xr_published_at = None, xr_last_error = None\<rparr>"

definition demo_event2 :: outbox_row where
  "demo_event2 =
    \<lparr>xr_event_id = 12, xr_aggregate_type = ''Wallet'', xr_aggregate_id = 7,
     xr_event_type = TypeWalletBalanceChanged, xr_payload = \<lparr>ev_EventID = 12,
     ev_EventType = TypeWalletBalanceChanged, ev_AggregateType = ''Wallet'', ev_AggregateID =
     7, ev_CorrelationID = ''c'', ev_CausationID = ''p'', ev_OccurredAt = 1000000000,
     ev_Version = 1, ev_Data = BalanceChangedData \<lparr>bd_WalletID = 7, bd_TransactionID =
     10, bd_Direction = ''CREDIT'', bd_Money = \<lparr>j_amount = ''100.00'', j_currency =
     ''BRL''\<rparr>, bd_BalanceBefore = \<lparr>j_amount = ''0.00'', j_currency =
     ''BRL''\<rparr>, bd_BalanceAfter = \<lparr>j_amount = ''100.00'', j_currency =
     ''BRL''\<rparr>, bd_WalletVersion = 1\<rparr>\<rparr>, xr_occurred_at = 1000000000,
     xr_created_at = 1000000000, xr_attempts = 0, xr_next_attempt_at = 1000000000, xr_locked_by
     = None, xr_locked_until = None, xr_published_at = None, xr_last_error = None\<rparr>"

definition demo_event3 :: outbox_row where
  "demo_event3 =
    \<lparr>xr_event_id = 22, xr_aggregate_type = ''Wallet'', xr_aggregate_id = 7,
     xr_event_type = TypeWalletBalanceChanged, xr_payload = \<lparr>ev_EventID = 22,
     ev_EventType = TypeWalletBalanceChanged, ev_AggregateType = ''Wallet'', ev_AggregateID =
     7, ev_CorrelationID = ''c'', ev_CausationID = ''p'', ev_OccurredAt = 2000000000,
     ev_Version = 1, ev_Data = BalanceChangedData \<lparr>bd_WalletID = 7, bd_TransactionID =
     20, bd_Direction = ''DEBIT'', bd_Money = \<lparr>j_amount = ''30.00'', j_currency =
     ''BRL''\<rparr>, bd_BalanceBefore = \<lparr>j_amount = ''100.00'', j_currency =
     ''BRL''\<rparr>, bd_BalanceAfter = \<lparr>j_amount = ''70.00'', j_currency =
     ''BRL''\<rparr>, bd_WalletVersion = 2\<rparr>\<rparr>, xr_occurred_at = 2000000000,
     xr_created_at = 1000000000, xr_attempts = 0, xr_next_attempt_at = 1000000000, xr_locked_by
     = None, xr_locked_until = None, xr_published_at = None, xr_last_error = None\<rparr>"

definition demo_event4 :: outbox_row where
  "demo_event4 =
    \<lparr>xr_event_id = 23, xr_aggregate_type = ''WagerTransaction'', xr_aggregate_id = 20,
     xr_event_type = TypeWagerTransactionProcessed, xr_payload = \<lparr>ev_EventID = 23,
     ev_EventType = TypeWagerTransactionProcessed, ev_AggregateType = ''WagerTransaction'',
     ev_AggregateID = 20, ev_CorrelationID = ''c'', ev_CausationID = ''p'', ev_OccurredAt =
     2000000000, ev_Version = 1, ev_Data = ProcessedData \<lparr>pd_TransactionID = 20,
     pd_Origin = ''EXTERNAL'', pd_ProviderID = ''prov'', pd_ExternalTransactionID = ''x'',
     pd_WalletID = 7, pd_PlayerID = 5, pd_RoundID = ''r'', pd_GameID = ''g'', pd_Kind =
     ''BET'', pd_Money = \<lparr>j_amount = ''30.00'', j_currency = ''BRL''\<rparr>, pd_Balance
     = \<lparr>j_amount = ''70.00'', j_currency = ''BRL''\<rparr>, pd_ReferenceTransactionID =
     None, pd_ProcessedAt = 2000000000\<rparr>\<rparr>, xr_occurred_at = 2000000000,
     xr_created_at = 1000000000, xr_attempts = 0, xr_next_attempt_at = 1000000000, xr_locked_by
     = None, xr_locked_until = None, xr_published_at = None, xr_last_error = None\<rparr>"

definition demo_event5 :: outbox_row where
  "demo_event5 =
    \<lparr>xr_event_id = 33, xr_aggregate_type = ''WagerTransaction'', xr_aggregate_id = 30,
     xr_event_type = TypeWagerTransactionPendingReference, xr_payload = \<lparr>ev_EventID =
     33, ev_EventType = TypeWagerTransactionPendingReference, ev_AggregateType =
     ''WagerTransaction'', ev_AggregateID = 30, ev_CorrelationID = ''c'', ev_CausationID =
     ''p'', ev_OccurredAt = 3000000000, ev_Version = 1, ev_Data = PendingReferenceData
     \<lparr>qd_TransactionID = 30, qd_ProviderID = ''prov'', qd_ExternalTransactionID = ''y'',
     qd_ReferenceExternalTransactionID = ''zz'', qd_WalletID = 7, qd_Kind = ''REFUND'',
     qd_Money = \<lparr>j_amount = ''10.00'', j_currency = ''BRL''\<rparr>, qd_Attempt = 1,
     qd_NextRetryAt = 4000000000\<rparr>\<rparr>, xr_occurred_at = 3000000000, xr_created_at =
     1000000000, xr_attempts = 0, xr_next_attempt_at = 1000000000, xr_locked_by = None,
     xr_locked_until = None, xr_published_at = None, xr_last_error = None\<rparr>"

definition db0 :: db where "db0 = empty_db 1000000000"

definition db1 :: db where
  "db1 =
    \<lparr>db_wallets =
    [\<lparr>wr_id = 7, wr_player_id = 5, wr_currency = ''BRL'', wr_balance_minor = 10000,
     wr_version = 1, wr_created_at = 1000000000, wr_updated_at = 1000000000\<rparr>],
     db_txs = [demo_tx1],
     db_ledger = [demo_entry1],
     db_seq = 1,
     db_outbox = [demo_event1, demo_event2],
     db_inbox = [], db_now = 1000000000\<rparr>"

definition db2 :: db where
  "db2 =
    \<lparr>db_wallets =
    [\<lparr>wr_id = 7, wr_player_id = 5, wr_currency = ''BRL'', wr_balance_minor = 7000,
     wr_version = 2, wr_created_at = 1000000000, wr_updated_at = 2000000000\<rparr>],
     db_txs = [demo_tx1, demo_tx2],
     db_ledger = [demo_entry1, demo_entry2],
     db_seq = 2,
     db_outbox = [demo_event1, demo_event2, demo_event3, demo_event4],
     db_inbox = [], db_now = 1000000000\<rparr>"

definition db3 :: db where
  "db3 =
    \<lparr>db_wallets =
    [\<lparr>wr_id = 7, wr_player_id = 5, wr_currency = ''BRL'', wr_balance_minor = 7000,
     wr_version = 2, wr_created_at = 1000000000, wr_updated_at = 2000000000\<rparr>],
     db_txs = [demo_tx1, demo_tx2, demo_tx3],
     db_ledger = [demo_entry1, demo_entry2],
     db_seq = 2,
     db_outbox = [demo_event1, demo_event2, demo_event3, demo_event4, demo_event5],
     db_inbox = [], db_now = 1000000000\<rparr>"

definition demo_tx4 :: tx_row where
  "demo_tx4 =
    \<lparr>tr_id = 40, tr_origin = ''EXTERNAL'', tr_provider_id = Some ''prov'',
     tr_external_transaction_id = Some ''z'', tr_idempotency_key = Some ''z'', tr_payload_hash
     = Some ''203'', tr_wallet_id = 7, tr_player_id = 5, tr_round_id = Some ''r'', tr_game_id =
     Some ''g'', tr_kind = ''REFUND'', tr_amount_minor = 3000, tr_currency = ''BRL'',
     tr_reference_external = Some ''x'', tr_reference_id = Some 20, tr_status = ''PROCESSED'',
     tr_failure_code = None, tr_result_balance_minor = Some 10000, tr_reference_attempts = 0,
     tr_next_retry_at = None, tr_correlation_id = Some ''c'', tr_created_at = 4000000000,
     tr_updated_at = 4000000000, tr_processed_at = Some 4000000000\<rparr>"

definition demo_entry3 :: ledger_row where
  "demo_entry3 =
    \<lparr>gr_seq = 3, gr_id = 41, gr_wallet_id = 7, gr_transaction_id = 40, gr_direction =
     ''CREDIT'', gr_amount_minor = 3000, gr_before_minor = 7000, gr_after_minor = 10000,
     gr_currency = ''BRL'', gr_created_at = 4000000000\<rparr>"

definition demo_event6 :: outbox_row where
  "demo_event6 =
    \<lparr>xr_event_id = 42, xr_aggregate_type = ''Wallet'', xr_aggregate_id = 7,
     xr_event_type = TypeWalletBalanceChanged, xr_payload = \<lparr>ev_EventID = 42,
     ev_EventType = TypeWalletBalanceChanged, ev_AggregateType = ''Wallet'', ev_AggregateID =
     7, ev_CorrelationID = ''c'', ev_CausationID = ''p'', ev_OccurredAt = 4000000000,
     ev_Version = 1, ev_Data = BalanceChangedData \<lparr>bd_WalletID = 7, bd_TransactionID =
     40, bd_Direction = ''CREDIT'', bd_Money = \<lparr>j_amount = ''30.00'', j_currency =
     ''BRL''\<rparr>, bd_BalanceBefore = \<lparr>j_amount = ''70.00'', j_currency =
     ''BRL''\<rparr>, bd_BalanceAfter = \<lparr>j_amount = ''100.00'', j_currency =
     ''BRL''\<rparr>, bd_WalletVersion = 3\<rparr>\<rparr>, xr_occurred_at = 4000000000,
     xr_created_at = 1000000000, xr_attempts = 0, xr_next_attempt_at = 1000000000, xr_locked_by
     = None, xr_locked_until = None, xr_published_at = None, xr_last_error = None\<rparr>"

definition demo_event7 :: outbox_row where
  "demo_event7 =
    \<lparr>xr_event_id = 43, xr_aggregate_type = ''WagerTransaction'', xr_aggregate_id = 40,
     xr_event_type = TypeWagerTransactionProcessed, xr_payload = \<lparr>ev_EventID = 43,
     ev_EventType = TypeWagerTransactionProcessed, ev_AggregateType = ''WagerTransaction'',
     ev_AggregateID = 40, ev_CorrelationID = ''c'', ev_CausationID = ''p'', ev_OccurredAt =
     4000000000, ev_Version = 1, ev_Data = ProcessedData \<lparr>pd_TransactionID = 40,
     pd_Origin = ''EXTERNAL'', pd_ProviderID = ''prov'', pd_ExternalTransactionID = ''z'',
     pd_WalletID = 7, pd_PlayerID = 5, pd_RoundID = ''r'', pd_GameID = ''g'', pd_Kind =
     ''REFUND'', pd_Money = \<lparr>j_amount = ''30.00'', j_currency = ''BRL''\<rparr>,
     pd_Balance = \<lparr>j_amount = ''100.00'', j_currency = ''BRL''\<rparr>,
     pd_ReferenceTransactionID = Some 20, pd_ProcessedAt = 4000000000\<rparr>\<rparr>,
     xr_occurred_at = 4000000000, xr_created_at = 1000000000, xr_attempts = 0,
     xr_next_attempt_at = 1000000000, xr_locked_by = None, xr_locked_until = None,
     xr_published_at = None, xr_last_error = None\<rparr>"

definition db4 :: db where
  "db4 =
    \<lparr>db_wallets =
    [\<lparr>wr_id = 7, wr_player_id = 5, wr_currency = ''BRL'', wr_balance_minor = 10000,
     wr_version = 3, wr_created_at = 1000000000, wr_updated_at = 4000000000\<rparr>],
     db_txs = [demo_tx1, demo_tx2, demo_tx3, demo_tx4],
     db_ledger = [demo_entry1, demo_entry2, demo_entry3],
     db_seq = 3,
     db_outbox = [demo_event1, demo_event2, demo_event3, demo_event4, demo_event5, demo_event6, demo_event7],
     db_inbox = [], db_now = 1000000000\<rparr>"

lemma demo_opens: "Open 7 5 (brl 10000) 1000000000 = Inr demo_wallet"
  by code_simp

lemma db1_run:
  "openIn demo_sv pgStore (demo_env 1000000000 10) demo_open demo_wallet db0 = (Inr (), db1)"
  by code_simp

definition ends_in :: "(error + ProcessResult) \<times> db \<Rightarrow> bool \<Rightarrow> db \<Rightarrow> bool" where
  "ends_in r replay d = (case r of (Inl e, _) \<Rightarrow> False
    | (Inr x, d') \<Rightarrow> pr_IdempotentReplay x = replay \<and> d' = d)"

lemma ends_inE:
  assumes "ends_in r replay d"
  obtains x where "r = (Inr x, d)" and "pr_IdempotentReplay x = replay"
  using assms by (cases r) (auto simp: ends_in_def split: sum.splits)

lemma db2_run:
  "ends_in (ProcessIn demo_sv pgStore (demo_env 2000000000 20) (demo_cmd ''x'' KindBet 3000 '''') db1)
     False db2"
  by code_simp

lemma db3_run:
  "ends_in (ProcessIn demo_sv pgStore (demo_env 3000000000 30) (demo_cmd ''y'' KindRefund 1000 ''zz'') db2)
     False db3"
  by code_simp

lemma db4_run:
  "ends_in (ProcessIn demo_sv pgStore (demo_env 4000000000 40) (demo_cmd ''z'' KindRefund 3000 ''x'') db3)
     False db4"
  by code_simp

subsection \<open>The run\<close>

lemma demo_clock: "clock_ok (e_now (demo_env now i)) \<longleftrightarrow> 1000 \<le> now"
  by (simp add: demo_env_def clock_ok_def)

lemma db1_step: "sys_step demo_sv db0 db1"
  using sys_step.opened [of "demo_env 1000000000 10" 7 demo_open demo_wallet demo_sv db0 no_faults]
    demo_opens db1_run
  by (simp add: demo_clock after_def uow_Do_def) (simp add: demo_env_def demo_open_def)

lemma db2_step: "sys_step demo_sv db1 db2"
proof -
  obtain x where "ProcessIn demo_sv pgStore (demo_env 2000000000 20) (demo_cmd ''x'' KindBet 3000 '''') db1
      = (Inr x, db2)"
    by (rule ends_inE [OF db2_run])
  then show ?thesis
    using sys_step.processed [of "demo_env 2000000000 20" demo_sv db1 no_faults
        "demo_cmd ''x'' KindBet 3000 ''''"]
    by (simp add: demo_clock after_def uow_Do_def)
qed

lemma db3_step: "sys_step demo_sv db2 db3"
proof -
  obtain x where "ProcessIn demo_sv pgStore (demo_env 3000000000 30)
      (demo_cmd ''y'' KindRefund 1000 ''zz'') db2 = (Inr x, db3)"
    by (rule ends_inE [OF db3_run])
  then show ?thesis
    using sys_step.processed [of "demo_env 3000000000 30" demo_sv db2 no_faults
        "demo_cmd ''y'' KindRefund 1000 ''zz''"]
    by (simp add: demo_clock after_def uow_Do_def)
qed

lemma db4_step: "sys_step demo_sv db3 db4"
proof -
  obtain x where "ProcessIn demo_sv pgStore (demo_env 4000000000 40)
      (demo_cmd ''z'' KindRefund 3000 ''x'') db3 = (Inr x, db4)"
    by (rule ends_inE [OF db4_run])
  then show ?thesis
    using sys_step.processed [of "demo_env 4000000000 40" demo_sv db3 no_faults
        "demo_cmd ''z'' KindRefund 3000 ''x''"]
    by (simp add: demo_clock after_def uow_Do_def)
qed

lemma db1_reachable: "reachable demo_sv db1"
  unfolding reachable_def using r_into_rtranclp [where r = "sys_step demo_sv", OF db1_step]
  by (auto simp: db0_def)

lemma db2_reachable: "reachable demo_sv db2"
proof -
  have "(sys_step demo_sv)\<^sup>*\<^sup>* db0 db2"
    by (rule rtranclp.rtrancl_into_rtrancl [where b = db1, OF r_into_rtranclp [where r = "sys_step demo_sv"]])
      (rule db1_step db2_step)+
  then show ?thesis unfolding reachable_def db0_def by blast
qed

lemma db3_reachable: "reachable demo_sv db3"
  using reachable_steps [OF db2_reachable] db3_step by auto

lemma db4_reachable: "reachable demo_sv db4"
  using reachable_steps [OF db3_reachable] db4_step by auto

lemma demo_steps: "(sys_step demo_sv)\<^sup>*\<^sup>* db2 db3"
  using db3_step by auto


end
