(* ===== verification/Queries.thy ===== *)
theory Queries
  imports Demo
begin

text \<open>
  What the reads of the PostgreSQL repositories return, as functions of the content: a contract
  says only what a successful read means, here is also when it succeeds. The queries of
  \<^verbatim>\<open>internal/app/wallets.go\<close> follow.
\<close>

lemma soundD:
  assumes "sound d"
  shows "pg_ok d" "books (pg_view d)" "view_ok (pg_view d)" "balanced (pg_view d)"
    "posted (pg_view d)" "owned (pg_view d)" "reversals_sound (pg_view d)"
  using assms by (auto simp: sound_def books_def pg_ok_def)

lemma pg_Get_eq:
  assumes "pg_ok d"
  shows "walletRepo_Get i d = (case v_wallets (pg_view d) i of
    None \<Rightarrow> (Inl ErrWalletNotFound, d) | Some w \<Rightarrow> (Inr w, d))"
proof (cases "find (\<lambda>r. wr_id r = i) (db_wallets d)")
  case None
  then show ?thesis by (simp add: walletRepo_Get_def pg_view_def)
next
  case (Some q)
  then show ?thesis
    using pg_wallet_row [OF assms, of q] find_SomeD [OF Some] by (auto simp: walletRepo_Get_def)
qed

lemma pg_by_key_eq:
  assumes "pg_ok d"
  shows "transactionRepo_FindByIdempotencyKey p k d =
    (if texts_ok [p, k] then
       (case by_key (pg_view d) p k of
          None \<Rightarrow> (Inl ErrTransactionNotFound, d) | Some t \<Rightarrow> (Inr t, d))
     else (Inl text_error, d))"
  unfolding transactionRepo_FindByIdempotencyKey_def by_key_def
  by (rule pg_query [OF assms]) (rule key_cond(1) [OF assms])

lemma pg_by_ext_eq:
  assumes "pg_ok d"
  shows "transactionRepo_FindByExternalID p x d =
    (if texts_ok [p, x] then
       (case by_ext (pg_view d) p x of
          None \<Rightarrow> (Inl ErrTransactionNotFound, d) | Some t \<Rightarrow> (Inr t, d))
     else (Inl text_error, d))"
  unfolding transactionRepo_FindByExternalID_def by_ext_def
  by (rule pg_query [OF assms]) (rule key_cond(2) [OF assms])

lemma pg_get_tx_eq:
  assumes "pg_ok d"
  shows "transactionRepo_Get i d = (case by_id (pg_view d) i of
    None \<Rightarrow> (Inl ErrTransactionNotFound, d) | Some t \<Rightarrow> (Inr t, d))"
proof -
  have "transactionRepo_Get i d =
    (if texts_ok [] then
       (case find (\<lambda>t. t_id t = i) (v_txs (pg_view d)) of
          None \<Rightarrow> (Inl ErrTransactionNotFound, d) | Some t \<Rightarrow> (Inr t, d))
     else (Inl text_error, d))"
    unfolding transactionRepo_Get_def
    by (rule pg_query [OF assms]) (simp add: scan_tx_facts(1) [OF pg_tx_row(1) [OF assms]])
  then show ?thesis by (simp add: by_id_def texts_ok_def)
qed

subsection \<open>The totals of a ledger\<close>

definition moved_total :: "Direction \<Rightarrow> LedgerEntry list \<Rightarrow> int" where
  "moved_total dir es = sum_list (map (\<lambda>e. units (l_amount e)) (filter (\<lambda>e. l_direction e = dir) es))"

lemma moved_total_signed:
  "moved_total Credit es - moved_total Debit es = sum_list (map signed_amount es)"
  by (induction es) (auto simp: moved_total_def signed_amount_def, case_tac "l_direction a", auto)

lemma moved_total_pos:
  "(\<And>e. e \<in> set es \<Longrightarrow> entry_inv e) \<Longrightarrow> 0 \<le> moved_total dir es"
  unfolding moved_total_def by (rule sum_list_nonneg) (force simp: entry_inv_def)

lemma pg_ledger_entries:
  assumes "pg_ok d"
  shows "entries (pg_view d) i =
    map (\<lambda>r. lr_Entry (row_record r)) (filter (\<lambda>r. gr_wallet_id r = i) (db_ledger d))"
  unfolding entries_def pg_view_def View.simps map_map filter_map comp_def
  by (intro arg_cong [where f = "map _"] filter_cong)
    (auto simp: scan_ledger_facts(3) [OF pg_ledger_row(1) [OF assms]])

lemma sum_minor_moved:
  assumes "\<And>r. r \<in> set rs \<Longrightarrow> ledgerRepo_scan r = Inr (row_record r)"
  shows "sum_minor (Direction_string dir) rs = moved_total dir (map (\<lambda>r. lr_Entry (row_record r)) rs)"
  using assms
proof (induction rs)
  case (Cons r rs)
  note f = scan_ledger_facts [OF Cons.prems [of r, simplified]]
  have "Direction_string x = Direction_string y \<longleftrightarrow> x = y" for x y by (cases x; cases y) simp_all
  then show ?case using Cons.IH Cons.prems f(5,6) by (auto simp: sum_minor_def moved_total_def)
qed (simp add: sum_minor_def moved_total_def)

lemma pg_totals_eq:
  assumes "pg_ok d"
  shows "ledgerRepo_Totals i d =
    (let es = entries (pg_view d) i in
     if fits64 (moved_total Credit es) \<and> fits64 (moved_total Debit es)
     then (Inr \<lparr>lt_Credits = word_of_int (moved_total Credit es),
                lt_Debits = word_of_int (moved_total Debit es),
                lt_Count = word_of_int (int (length es))\<rparr>, d)
     else (Inl (ErrPg ''22003'' ''''), d))"
proof -
  have "sum_minor (Direction_string dir) (filter (\<lambda>r. gr_wallet_id r = i) (db_ledger d)) =
      moved_total dir (entries (pg_view d) i)" for dir
    unfolding pg_ledger_entries [OF assms] using pg_ledger_row(1) [OF assms]
    by (intro sum_minor_moved) auto
  from this [of Credit] this [of Debit] show ?thesis
    unfolding ledgerRepo_Totals_def Let_def pg_ledger_entries [OF assms] by simp
qed

subsection \<open>The queries change nothing\<close>

lemma uow_ok: "m d = (Inr a, d') \<Longrightarrow> uow_Do no_faults m d = (Inr a, d')"
  by (simp add: uow_Do_def)

lemma uow_same:
  assumes "uow_Do f m d = (r, d')" and "\<And>a d'. m d = (Inr a, d') \<Longrightarrow> d' = d"
  shows "d' = d"
  using assms(1,2) by (auto simp: uow_Do_def split: option.splits prod.splits sum.splits if_splits)

end
