(* ===== verification/Integrity.thy ===== *)
theory Integrity
  imports Queries
begin

text \<open>
  What every reachable database satisfies: balances, ledger, transactions and reversals, and what
  the queries report of them.
\<close>

lemma get_wallet:
  assumes "sound d" and "GetWallet pgStore f i d = (Inr w, d')"
  shows "d' = d" and "v_wallets (pg_view d) i = Some w" and "wallet_inv w" and "w_id w = i"
    and "currencyPattern (w_currency w)"
proof -
  have ok: "pg_ok d" "view_ok (pg_view d)" using soundD [OF assms(1)] by auto
  have g: "walletRepo_Get i d = (Inr w, d')"
    using assms(2) by (simp add: GetWallet_def uow_Do_Inr pgStore_simps)
  then show "d' = d" "v_wallets (pg_view d) i = Some w"
    by (auto simp: pg_Get_eq [OF ok(1)] split: option.splits)
  then show "wallet_inv w" "w_id w = i" "currencyPattern (w_currency w)"
    using ok(2) by (auto simp: view_ok_def)
qed

lemma entries_inv: "view_ok v \<Longrightarrow> e \<in> set (entries v i) \<Longrightarrow> entry_inv e"
  by (auto simp: view_ok_def entries_def)

lemma wallet_balance:
  assumes "sound d" and "v_wallets (pg_view d) i = Some w"
  shows "chain 0 (entries (pg_view d) i) (units (w_balance w))"
    and "units (w_balance w) = sum_list (map signed_amount (entries (pg_view d) i))"
    and "\<forall>e \<in> set (entries (pg_view d) i). m_currency (l_amount e) = w_currency w"
    and "sint (w_version w) + (if opened (pg_view d) i then 1 else 0) =
      1 + int (length (entries (pg_view d) i))"
proof -
  have b: "balanced (pg_view d)" "view_ok (pg_view d)" using soundD [OF assms(1)] by auto
  then show c: "chain 0 (entries (pg_view d) i) (units (w_balance w))"
    and "\<forall>e \<in> set (entries (pg_view d) i). m_currency (l_amount e) = w_currency w"
    and "sint (w_version w) + (if opened (pg_view d) i then 1 else 0) =
      1 + int (length (entries (pg_view d) i))"
    using assms(2) by (auto simp: balanced_def)
  show "units (w_balance w) = sum_list (map signed_amount (entries (pg_view d) i))"
    using chain_sum [OF c] entries_inv [OF b(2)] by auto
qed

text \<open>C1. The balance of a wallet is its ledger. In every reachable database, whatever requests,
  messages, retries and failures led to it, the wallet that \<^verbatim>\<open>GetWallet\<close> reports has the
  balance that its ledger entries add up to, which is not negative; the entries form a chain, each
  starting at the balance the one before left, from zero to the balance of the wallet; they are
  in the wallet's currency; and the version counts the changes of the balance since the wallet
  was opened.\<close>

theorem balance_is_ledger:
  assumes "reachable sv d" and "GetWallet pgStore f i d = (Inr w, d')"
  shows "units (w_balance w) = sum_list (map signed_amount (entries (pg_view d) i)) \<and>
    0 \<le> units (w_balance w) \<and>
    chain 0 (entries (pg_view d) i) (units (w_balance w)) \<and>
    (\<forall>e \<in> set (entries (pg_view d) i). m_currency (l_amount e) = w_currency w) \<and>
    sint (w_version w) + (if opened (pg_view d) i then 1 else 0) =
      1 + int (length (entries (pg_view d) i))"
proof -
  note s = reachable_sound [OF assms(1)]
  note g = get_wallet [OF s assms(2)]
  show ?thesis using wallet_balance [OF s g(2)] g(3) by (simp add: wallet_inv_def)
qed

theorem balance_is_ledger_witness:
  "units (w_balance (row_wallet (hd (db_wallets db2)))) = 10000 - 3000"
proof -
  have g: "GetWallet pgStore no_faults 7 db2 = (Inr (row_wallet (hd (db_wallets db2))), db2)"
    by code_simp
  have e: "map signed_amount (entries (pg_view db2) 7) = [10000, - 3000]" by code_simp
  show ?thesis using balance_is_ledger [OF db2_reachable g] unfolding e by simp
qed

text \<open>C24. The reconciliation tells the truth. In every reachable database, for a wallet whose
  credits over its whole life add up to at most the largest int64, \<^verbatim>\<open>Reconcile\<close> succeeds and
  reports a consistent wallet: the calculated balance is the stored one, the difference is zero,
  and the number of checked entries is that of the wallet's ledger. For any other wallet the sum
  does not fit the BIGINT that the query casts it to, and \<^verbatim>\<open>Reconcile\<close> returns PostgreSQL's error
  22003. Either way it changes nothing, and never reports a difference.\<close>

theorem Reconcile_exact:
  assumes "reachable sv d" and "GetWallet pgStore no_faults i d = (Inr w, d)"
  shows "Reconcile pgStore no_faults i d =
    (if moved_total Credit (entries (pg_view d) i) \<le> max_int64
     then Inr \<lparr>rc_WalletID = i, rc_StoredBalance = w_balance w, rc_CalculatedBalance = w_balance w,
            rc_Difference = \<lparr>m_minor = 0, m_currency = w_currency w, m_valid = True\<rparr>,
            rc_Consistent = True,
            rc_CheckedEntries = word_of_int (int (length (entries (pg_view d) i)))\<rparr>
     else Inl (ErrPg ''22003'' ''''), d)"
proof (cases "moved_total Credit (entries (pg_view d) i) \<le> max_int64")
  case False
  note ok = soundD(1) [OF reachable_sound [OF assms(1)]]
  have "walletRepo_Get i d = (Inr w, d)"
    using get_wallet(2) [OF reachable_sound [OF assms(1)] assms(2)] by (simp add: pg_Get_eq [OF ok])
  moreover have "ledgerRepo_Totals i d = (Inl (ErrPg ''22003'' ''''), d)"
    using pg_totals_eq [OF ok, of i] False by (simp add: Let_def fits64_def)
  ultimately show ?thesis using False by (simp add: Reconcile_def pgStore_simps uow_Do_def obind_apply)
next
  case small: True
  note s = reachable_sound [OF assms(1)]
  note g = get_wallet [OF s assms(2)]
  let ?es = "entries (pg_view d) i"
  let ?c = "moved_total Credit ?es" and ?d = "moved_total Debit ?es"
  have inv: "\<And>e. e \<in> set ?es \<Longrightarrow> entry_inv e"
    using entries_inv soundD(3) [OF s] by blast
  have pos: "0 \<le> ?c" "0 \<le> ?d" using moved_total_pos inv by blast+
  have bal: "units (w_balance w) = ?c - ?d"
    using wallet_balance(2) [OF s g(2)] moved_total_signed [of ?es] by simp
  have w: "m_valid (w_balance w)" "m_currency (w_balance w) = w_currency w" "0 \<le> units (w_balance w)"
    using g(3) by (auto simp: wallet_inv_def)
  have fits: "fits64 ?c" "fits64 ?d" using pos small bal w(3) by (auto simp: fits64_def)
  have sc: "sint (word_of_int ?c :: int64) = ?c" "sint (word_of_int ?d :: int64) = ?d"
    using fits by (simp_all add: sint_of_int64)
  have t: "ledgerRepo_Totals i d = (Inr \<lparr>lt_Credits = word_of_int ?c, lt_Debits = word_of_int ?d,
      lt_Count = word_of_int (int (length ?es))\<rparr>, d)"
    using pg_totals_eq [OF soundD(1) [OF s], of i] fits by (simp add: Let_def)
  have sub: "Money_Sub \<lparr>m_minor = word_of_int ?c, m_currency = w_currency w, m_valid = True\<rparr>
      \<lparr>m_minor = word_of_int ?d, m_currency = w_currency w, m_valid = True\<rparr> = Inr (w_balance w)"
    using w bal sc by (simp add: Money_Sub_Inr)
  have self: "Money_Sub (w_balance w) (w_balance w) =
      Inr \<lparr>m_minor = 0, m_currency = w_currency w, m_valid = True\<rparr>"
    using w by (simp add: Money_Sub_Inr)
  have "walletRepo_Get i d = (Inr w, d)"
    using g(2) by (simp add: pg_Get_eq [OF soundD(1) [OF s]])
  then show ?thesis
    using t sub self g(4,5) small
    by (simp add: Reconcile_def pgStore_simps uow_ok obind_apply FromMinor_eq IsZeroM_def)
qed

theorem Reconcile_exact_witness:
  "map_prod (map_sum id rc_Consistent) id (Reconcile pgStore no_faults 7 db2) = (Inr True, db2)"
proof -
  have g: "GetWallet pgStore no_faults 7 db2 = (Inr (row_wallet (hd (db_wallets db2))), db2)"
    by code_simp
  have c: "moved_total Credit (entries (pg_view db2) 7) = 10000" by code_simp
  show ?thesis using Reconcile_exact [OF db2_reachable g] c by simp
qed

subsection \<open>Transactions and entries\<close>

lemma posts_unique:
  assumes "sound d" and "t \<in> set (v_txs (pg_view d))"
    and "e \<in> set (ledger_entries (pg_view d))" and "l_transactionID e = t_id t"
  shows "posts t e"
proof -
  obtain u where u: "u \<in> set (v_txs (pg_view d))" "posts u e"
    using soundD(5) [OF assms(1)] assms(3) by (auto simp: posted_def)
  have "unique_on (\<lambda>_. True) t_id (v_txs (pg_view d))"
    using soundD(3) [OF assms(1)] by (simp add: view_ok_def)
  then have "u = t" using unique_onD [of "\<lambda>_. True" t_id _ u t] u assms(2,4) by (auto simp: posts_def)
  then show ?thesis using u by simp
qed

lemma entry_unique:
  assumes "sound d" and "e \<in> set (ledger_entries (pg_view d))" and "f \<in> set (ledger_entries (pg_view d))"
    and "posts t e" and "posts t f"
  shows "e = f"
proof -
  have "unique_on (\<lambda>_. True) (\<lambda>e. (l_walletID e, l_transactionID e)) (ledger_entries (pg_view d))"
    using soundD(3) [OF assms(1)] by (simp add: view_ok_def ledger_entries_def)
  then show ?thesis
    by (rule unique_onD [where a = e and b = f]) (use assms in \<open>auto simp: posts_def\<close>)
qed

text \<open>C7. Money moves exactly once per transaction. In every reachable database a transaction
  that \<^verbatim>\<open>GetTransaction\<close> reports has exactly one ledger entry when it is PROCESSED and not a
  LOSS, and none in every other case: a REJECTED, FAILED or waiting transaction and a LOSS never
  touch a balance. The entry is of the transaction's wallet and amount and leaves the balance that
  the transaction reports. And every entry of the ledger is the one of some transaction.\<close>

theorem one_entry_per_movement:
  assumes "reachable sv d" and "GetTransaction pgStore f i d = (Inr t, d')"
  shows "(if moves t then (\<exists>e \<in> set (ledger_entries (pg_view d)). posts t e \<and>
            (\<forall>g \<in> set (ledger_entries (pg_view d)). l_transactionID g = i \<longrightarrow> g = e))
          else (\<forall>g \<in> set (ledger_entries (pg_view d)). l_transactionID g \<noteq> i)) \<and>
    (\<forall>g \<in> set (ledger_entries (pg_view d)). \<exists>u \<in> set (v_txs (pg_view d)). posts u g)"
proof -
  note s = reachable_sound [OF assms(1)]
  have "by_id (pg_view d) i = Some t"
    using assms(2) by (auto simp: GetTransaction_def uow_Do_Inr pgStore_simps
        pg_get_tx_eq [OF soundD(1) [OF s]] split: option.splits)
  then have t: "t \<in> set (v_txs (pg_view d))" "t_id t = i"
    using by_id_Some [OF soundD(3) [OF s]] by auto
  have one: "posts t g" if "g \<in> set (ledger_entries (pg_view d))" "l_transactionID g = i" for g
    using posts_unique [OF s t(1)] that t(2) by simp
  have all: "\<forall>g \<in> set (ledger_entries (pg_view d)). \<exists>u \<in> set (v_txs (pg_view d)). posts u g"
    using soundD(5) [OF s] by (auto simp: posted_def)
  show ?thesis
  proof (cases "moves t")
    case True
    then obtain e where "e \<in> set (ledger_entries (pg_view d))" "posts t e"
      using soundD(5) [OF s] t(1) by (auto simp: posted_def)
    then have "(\<exists>e \<in> set (ledger_entries (pg_view d)). posts t e \<and>
        (\<forall>g \<in> set (ledger_entries (pg_view d)). l_transactionID g = i \<longrightarrow> g = e))"
      using one entry_unique [OF s] by blast
    then show ?thesis using True all by simp
  next
    case False
    then show ?thesis using one all by (auto simp: posts_def)
  qed
qed

theorem one_entry_per_movement_witness:
  "(\<exists>e \<in> set (ledger_entries (pg_view db3)). l_transactionID e = 20) \<and>
   30 \<notin> l_transactionID ` set (ledger_entries (pg_view db3))"
proof -
  have a: "GetTransaction pgStore no_faults 20 db3 = (Inr (row_tx demo_tx2), db3)" by code_simp
  have b: "GetTransaction pgStore no_faults 30 db3 = (Inr (row_tx demo_tx3), db3)" by code_simp
  have m: "moves (row_tx demo_tx2)" "\<not> moves (row_tx demo_tx3)" "t_id (row_tx demo_tx2) = 20" by code_simp+
  have "\<exists>e \<in> set (ledger_entries (pg_view db3)). posts (row_tx demo_tx2) e"
    using conjunct1 [OF one_entry_per_movement [OF db3_reachable a], unfolded if_P [OF m(1)]] by blast
  then have 1: "\<exists>e \<in> set (ledger_entries (pg_view db3)). l_transactionID e = 20"
    unfolding posts_def m(3) by blast
  have 2: "30 \<notin> l_transactionID ` set (ledger_entries (pg_view db3))"
    using conjunct1 [OF one_entry_per_movement [OF db3_reachable b], unfolded if_not_P [OF m(2)]]
    by (metis imageE)
  show ?thesis using 1 2 by (rule conjI)
qed



subsection \<open>What is settled stays\<close>

text \<open>C8. What is settled stays. A transaction that a query reports in a terminal state is
  reported unchanged after any further steps of the system, and the ledger of every wallet only
  grows at its end.\<close>

theorem settled_stays:
  assumes "reachable sv d" and "(sys_step sv)\<^sup>*\<^sup>* d d'"
    and "GetTransaction pgStore f i d = (Inr t, d1)" and "IsTerminal (t_status t)"
  shows "GetTransaction pgStore no_faults i d' = (Inr t, d') \<and>
    prefix (entries (pg_view d) w) (entries (pg_view d') w)"
proof -
  note s = reachable_sound [OF assms(1)]
  note s' = steps_sound [OF assms(2) s]
  have "by_id (pg_view d) i = Some t"
    using assms(3) by (auto simp: GetTransaction_def uow_Do_Inr pgStore_simps
        pg_get_tx_eq [OF soundD(1) [OF s]] split: option.splits)
  then have t: "t \<in> set (v_txs (pg_view d))" "t_id t = i"
    using by_id_Some [OF soundD(3) [OF s]] by auto
  obtain u where "u \<in> set (v_txs (pg_view d'))" "continues t u"
    using grows_txs [OF conjunct2 [OF s'] t(1)] by blast
  then have "by_id (pg_view d') i = Some t"
    using by_id_Some [OF soundD(3) [OF conjunct1 [OF s']]] t(2) assms(4) by (auto simp: continues_def)
  moreover have "prefix (v_ledger (pg_view d)) (v_ledger (pg_view d'))"
    using s' by (simp add: grows_def)
  ultimately show ?thesis
    using pg_get_tx_eq [OF soundD(1) [OF conjunct1 [OF s']], of i]
    by (auto simp: GetTransaction_def pgStore_simps uow_ok prefix_def entries_def)
qed

theorem settled_stays_witness:
  "GetTransaction pgStore no_faults 20 db3 = (Inr (row_tx demo_tx2), db3)"
proof -
  have a: "GetTransaction pgStore no_faults 20 db2 = (Inr (row_tx demo_tx2), db2)" by code_simp
  have t: "IsTerminal (t_status (row_tx demo_tx2))" by code_simp
  show ?thesis using settled_stays [OF db2_reachable demo_steps a t] by simp
qed


subsection \<open>What is stored can be read\<close>

text \<open>C9. What is stored can be read. In every reachable database every row of the transactions, of the
  wallets and of the ledger is read back without error, a transaction and a wallet under its own id,
  as a value that satisfies the invariant of its type: no check of the rehydration ever refuses what
  the program has stored. Reading a transaction loses nothing: the value that is read has the very
  row again as its stored form.\<close>

theorem rows_read_back:
  assumes "reachable sv d"
  shows "(\<forall>r \<in> set (db_txs d). GetTransaction pgStore no_faults (tr_id r) d = (Inr (row_tx r), d) \<and>
      tx_inv (row_tx r) \<and> row_of_snapshot (Snapshot_of (row_tx r)) = r) \<and>
    (\<forall>q \<in> set (db_wallets d). GetWallet pgStore no_faults (wr_id q) d = (Inr (row_wallet q), d) \<and>
      wallet_inv (row_wallet q)) \<and>
    (\<forall>g \<in> set (db_ledger d). ledgerRepo_scan g = Inr (row_record g) \<and>
      entry_inv (lr_Entry (row_record g)) \<and> l_id (lr_Entry (row_record g)) = gr_id g \<and>
      lr_Seq (row_record g) = gr_seq g)"
proof (intro conjI ballI)
  note s = soundD [OF reachable_sound [OF assms]]
  fix r assume r: "r \<in> set (db_txs d)"
  have t: "row_tx r \<in> set (v_txs (pg_view d))" using r by (simp add: pg_view_def)
  have i: "t_id (row_tx r) = tr_id r" using scan_tx_facts(1) [OF pg_tx_row(1) [OF s(1) r]] .
  have "by_id (pg_view d) (tr_id r) = Some (row_tx r)" using by_id_Some [OF s(3)] t i by auto
  then show "GetTransaction pgStore no_faults (tr_id r) d = (Inr (row_tx r), d)"
    by (simp add: GetTransaction_def pgStore_simps uow_Do_def pg_get_tx_eq [OF s(1)])
  show "tx_inv (row_tx r)" "row_of_snapshot (Snapshot_of (row_tx r)) = r" using pg_tx_row [OF s(1) r] by auto
next
  note s = soundD [OF reachable_sound [OF assms]]
  fix q assume q: "q \<in> set (db_wallets d)"
  have v: "v_wallets (pg_view d) (wr_id q) = Some (row_wallet q)" by (rule pg_wallet_row(1) [OF s(1) q])
  then show "GetWallet pgStore no_faults (wr_id q) d = (Inr (row_wallet q), d)"
    by (simp add: GetWallet_def pgStore_simps uow_Do_def pg_Get_eq [OF s(1)])
  show "wallet_inv (row_wallet q)" using v s(3) by (auto simp: view_ok_def)
next
  note s = soundD [OF reachable_sound [OF assms]]
  fix g assume g: "g \<in> set (db_ledger d)"
  note e = pg_ledger_row [OF s(1) g]
  show "ledgerRepo_scan g = Inr (row_record g)" by (rule e(1))
  show "entry_inv (lr_Entry (row_record g))" using e(3) s(3) by (auto simp: view_ok_def)
  show "l_id (lr_Entry (row_record g)) = gr_id g" "lr_Seq (row_record g) = gr_seq g"
    using scan_ledger_facts [OF e(1)] by auto
qed

theorem rows_read_back_witness:
  "GetTransaction pgStore no_faults 40 db4 = (Inr (row_tx demo_tx4), db4) \<and> tx_inv (row_tx demo_tx4) \<and>
   entry_inv (lr_Entry (row_record demo_entry3))"
proof -
  have r: "demo_tx4 \<in> set (db_txs db4)" "tr_id demo_tx4 = 40" "demo_entry3 \<in> set (db_ledger db4)"
    unfolding db4_def by (simp_all add: demo_tx4_def)
  show ?thesis using rows_read_back [OF db4_reachable] r by fastforce
qed

end
