(* ===== verification/Auth.thy ===== *)
theory Auth
  imports GoStrings
begin

text \<open>
  \<^verbatim>\<open>internal/adapters/auth/oidc.go\<close>: the identity of a caller and the bearer header it is read
  from. The checks of a token itself (signature, issuer, audience, expiry) are the OIDC library's:
  \<^verbatim>\<open>IDTokenVerifier.Verify\<close> is the function \<^verbatim>\<open>vf_verify\<close> of a raw text and the decoding of its
  claims is the field \<^verbatim>\<open>it_claims\<close> of what it returns.
\<close>

abbreviation RoleProvider :: string where "RoleProvider \<equiv> ''provider''"
abbreviation RoleInternal :: string where "RoleInternal \<equiv> ''internal''"

record Principal =
  pp_Subject :: string
  pp_ClientID :: string
  pp_ProviderID :: string
  pp_Roles :: "string set"
  pp_ExpiresAt :: time

text \<open>The zero value, which the handlers read when the context carries no principal.\<close>

definition no_principal :: Principal where
  "no_principal =
    \<lparr>pp_Subject = '''', pp_ClientID = '''', pp_ProviderID = '''', pp_Roles = {}, pp_ExpiresAt = 0\<rparr>"

definition HasRole :: "Principal \<Rightarrow> string \<Rightarrow> bool" where
  "HasRole p role \<longleftrightarrow> role \<in> pp_Roles p"

definition IsInternal :: "Principal \<Rightarrow> bool" where
  "IsInternal p \<longleftrightarrow> HasRole p RoleInternal"

definition IsProvider :: "Principal \<Rightarrow> bool" where
  "IsProvider p \<longleftrightarrow> HasRole p RoleProvider \<and> pp_ProviderID p \<noteq> ''''"

subsection \<open>The verifier\<close>

record AuthConfig =
  Issuer :: string
  JWKSURL :: string
  Audience :: string

record Claims =
  cl_ClientID :: string
  cl_ProviderID :: string
  cl_Roles :: "string list"

record IDToken =
  it_Subject :: string
  it_Expiry :: time
  it_claims :: "Claims option"

record Verifier =
  vf_cfg :: AuthConfig
  vf_verify :: "string \<Rightarrow> IDToken option"

text \<open>\<^verbatim>\<open>NewVerifier\<close>, with the library's verifier of a configuration; None is its error.\<close>

definition NewVerifier :: "(AuthConfig \<Rightarrow> string \<Rightarrow> IDToken option) \<Rightarrow> AuthConfig \<Rightarrow> Verifier option" where
  "NewVerifier lib cfg =
    (if Issuer cfg = '''' \<or> JWKSURL cfg = '''' \<or> Audience cfg = '''' then None
     else Some \<lparr>vf_cfg = cfg, vf_verify = lib cfg\<rparr>)"

definition Verify :: "Verifier \<Rightarrow> string \<Rightarrow> error + Principal" where
  "Verify v raw =
    (case vf_verify v raw of
       None \<Rightarrow> Inl ErrInvalidToken
     | Some tok \<Rightarrow>
         (case it_claims tok of
            None \<Rightarrow> Inl ErrInvalidToken
          | Some c \<Rightarrow>
              Inr \<lparr>pp_Subject = it_Subject tok, pp_ClientID = cl_ClientID c,
                   pp_ProviderID = cl_ProviderID c, pp_Roles = set (cl_Roles c),
                   pp_ExpiresAt = it_Expiry tok\<rparr>))"

text \<open>\<^verbatim>\<open>strings.EqualFold(s, t)\<close> for an ASCII text \<^verbatim>\<open>t\<close> without the letters k and s, which are
  the only ones that a character outside ASCII folds to.\<close>

definition EqualFold :: "string \<Rightarrow> string \<Rightarrow> bool" where
  "EqualFold s t \<longleftrightarrow> ToLower s = ToLower t"

text \<open>\<^verbatim>\<open>FromRequest\<close>, on the value of the Authorization header (empty when there is none).\<close>

definition FromRequest :: "Verifier \<Rightarrow> string \<Rightarrow> error + Principal" where
  "FromRequest v h =
    (if h = '''' then Inl ErrMissingToken
     else
       (case Cut h (CHR '' '') of
          (scheme, token, found) \<Rightarrow>
            if \<not> found \<or> \<not> EqualFold scheme ''Bearer'' \<or> TrimSpace token = '''' then Inl ErrMissingToken
            else Verify v (TrimSpace token)))"

subsection \<open>What the header gives\<close>

lemma FromRequest_Inr:
  assumes "FromRequest v h = Inr p"
  obtains raw tok c where "vf_verify v raw = Some tok" and "it_claims tok = Some c" and "raw \<noteq> ''''"
    and "pp_ProviderID p = cl_ProviderID c" and "pp_Roles p = set (cl_Roles c)"
  using assms
  by (auto simp: FromRequest_def Verify_def split: if_splits prod.splits option.splits)

lemma FromRequest_Inl: "FromRequest v h = Inl e \<Longrightarrow> e = ErrMissingToken \<or> e = ErrInvalidToken"
  by (auto simp: FromRequest_def Verify_def split: if_splits prod.splits option.splits)

text \<open>A header in the form that clients send: the scheme in any case, one space, and a token
  without white space at its ends.\<close>

lemma Cut_append: "c \<notin> set s \<Longrightarrow> Cut (s @ c # t) c = (s, t, True)"
  by (induction s) (auto simp: Cut_def)

lemma FromRequest_bearer:
  assumes "EqualFold scheme ''Bearer''" and "TrimSpace token = token" and "token \<noteq> ''''"
  shows "FromRequest v (scheme @ CHR '' '' # token) = Verify v token"
proof -
  have l: "ToLower ''Bearer'' = ''bearer''" and n: "lower_char (CHR '' '') \<notin> set ''bearer''"
    by code_simp+
  have "ToLower scheme = ''bearer''" using assms(1) l unfolding EqualFold_def by (rule trans)
  then have "lower_char ` set scheme = set ''bearer''" unfolding ToLower_def by (metis set_map)
  then have "CHR '' '' \<notin> set scheme" using n by (metis imageI)
  then show ?thesis
    using assms by (simp add: FromRequest_def Cut_append)
qed

end
