(* ===== verification/Http.thy ===== *)
theory Http
  imports Consumer Auth
begin

text \<open>
  \<^verbatim>\<open>internal/adapters/httpapi\<close>: the routes, the middleware, the handlers and the mapping of
  errors. A handler is an operation on the state of the store that always answers. What the
  libraries give is in the \<^verbatim>\<open>Server\<close> (the verifier of tokens, \<^verbatim>\<open>uuid.Parse\<close>, the decoding of
  the first JSON value of a text into a request); what one call draws (fresh identifiers, the
  clock, faults of the database, the state of the dependencies) is in an \<^verbatim>\<open>HttpCall\<close>. A body is
  the value that is encoded, not its JSON text. Metrics and logging are left out.
\<close>

subsection \<open>Requests and responses\<close>

text \<open>The path is the list of its segments, each unescaped, as \<^verbatim>\<open>http.ServeMux\<close> splits a clean
  path; a trailing slash is an empty last segment. \<^verbatim>\<open>rq_Header\<close> and \<^verbatim>\<open>rq_Query\<close> are the
  \<^verbatim>\<open>Get\<close> methods: the first value, or the empty text.\<close>

record Request =
  rq_Method :: string
  rq_Segments :: "string list"
  rq_Header :: "string \<Rightarrow> string"
  rq_Query :: "string \<Rightarrow> string"
  rq_Body :: string

definition URLPath :: "Request \<Rightarrow> string" where
  "URLPath r = concat (map (\<lambda>s. CHR ''/'' # s) (rq_Segments r))"

record OpenWalletRequest =
  ow_PlayerID :: string
  ow_InitialBalance :: MoneyJSON

record walletResponse =
  wj_ID :: uuid
  wj_PlayerID :: uuid
  wj_Balance :: MoneyJSON
  wj_Version :: int64
  wj_CreatedAt :: time
  wj_UpdatedAt :: time

definition toWalletResponse :: "Wallet \<Rightarrow> walletResponse" where
  "toWalletResponse w =
    \<lparr>wj_ID = w_id w, wj_PlayerID = w_playerID w, wj_Balance = ToJSON (w_balance w),
     wj_Version = w_version w, wj_CreatedAt = w_createdAt w, wj_UpdatedAt = w_updatedAt w\<rparr>"

record transactionResponse =
  tj_TransactionID :: uuid
  tj_Status :: string
  tj_Balance :: "MoneyJSON option"
  tj_IdempotentReplay :: bool
  tj_FailureCode :: string
  tj_Kind :: string
  tj_ProviderID :: string
  tj_ExternalTransactionID :: string
  tj_WalletID :: uuid
  tj_PlayerID :: uuid
  tj_RoundID :: string
  tj_GameID :: string
  tj_Money :: MoneyJSON
  tj_ReferenceExternalTransactionID :: string
  tj_ReferenceTransactionID :: "uuid option"
  tj_ReferenceAttempts :: int64
  tj_NextReferenceRetryAt :: "time option"
  tj_CreatedAt :: time
  tj_UpdatedAt :: time
  tj_ProcessedAt :: "time option"

definition toTransactionResponse :: "Transaction \<Rightarrow> bool \<Rightarrow> transactionResponse" where
  "toTransactionResponse tx replay =
    \<lparr>tj_TransactionID = t_id tx, tj_Status = Status_string (t_status tx),
     tj_Balance = map_option ToJSON (t_resultBalance tx), tj_IdempotentReplay = replay,
     tj_FailureCode = FailureCode_string (t_failureCode tx), tj_Kind = Kind_string (t_kind tx),
     tj_ProviderID = t_providerID tx, tj_ExternalTransactionID = t_externalTransactionID tx,
     tj_WalletID = t_walletID tx, tj_PlayerID = t_playerID tx, tj_RoundID = t_roundID tx,
     tj_GameID = t_gameID tx, tj_Money = ToJSON (t_money tx),
     tj_ReferenceExternalTransactionID = t_referenceExternalID tx,
     tj_ReferenceTransactionID = t_referenceID tx, tj_ReferenceAttempts = t_referenceAttempts tx,
     tj_NextReferenceRetryAt = t_nextReferenceRetryAt tx, tj_CreatedAt = t_createdAt tx,
     tj_UpdatedAt = t_updatedAt tx, tj_ProcessedAt = t_processedAt tx\<rparr>"

definition statusCodeFor :: "Transaction \<Rightarrow> nat" where
  "statusCodeFor tx =
    (case t_status tx of
       StatusProcessed \<Rightarrow> 200
     | StatusRejected \<Rightarrow> 422
     | StatusFailed \<Rightarrow> 500
     | _ \<Rightarrow> 202)"

record ledgerEntryResponse =
  lj_ID :: uuid
  lj_wallet :: uuid
  lj_TransactionID :: uuid
  lj_Direction :: string
  lj_Amount :: MoneyJSON
  lj_BalanceBefore :: MoneyJSON
  lj_BalanceAfter :: MoneyJSON
  lj_CreatedAt :: time

definition toLedgerEntryResponse :: "LedgerEntry \<Rightarrow> ledgerEntryResponse" where
  "toLedgerEntryResponse e =
    \<lparr>lj_ID = l_id e, lj_wallet = l_walletID e, lj_TransactionID = l_transactionID e,
     lj_Direction = Direction_string (l_direction e), lj_Amount = ToJSON (l_amount e),
     lj_BalanceBefore = ToJSON (l_balanceBefore e), lj_BalanceAfter = ToJSON (l_balanceAfter e),
     lj_CreatedAt = l_createdAt e\<rparr>"

record reconciliationResponse =
  rj_WalletID :: uuid
  rj_StoredBalance :: MoneyJSON
  rj_CalculatedBalance :: MoneyJSON
  rj_Difference :: MoneyJSON
  rj_Consistent :: bool
  rj_CheckedEntries :: int64

definition toReconciliationResponse :: "Reconciliation \<Rightarrow> reconciliationResponse" where
  "toReconciliationResponse r =
    \<lparr>rj_WalletID = rc_WalletID r, rj_StoredBalance = ToJSON (rc_StoredBalance r),
     rj_CalculatedBalance = ToJSON (rc_CalculatedBalance r), rj_Difference = ToJSON (rc_Difference r),
     rj_Consistent = rc_Consistent r, rj_CheckedEntries = rc_CheckedEntries r\<rparr>"

text \<open>The message of an error body: a fixed text, or a prefix with the text of an error of the
  program, or with the text of the JSON decoder.\<close>

datatype MessageText =
    Literal string
  | ErrorText string error
  | DecoderText string

datatype Body =
    ErrorBody string MessageText
  | WalletBody walletResponse
  | TransactionBody transactionResponse
  | LedgerBody "ledgerEntryResponse list" string
  | ReconciliationBody reconciliationResponse
  | LiveBody
  | ReadyBody bool "(string \<times> error option) list"
  | MetricsBody
  | PlainBody string

record Response =
  rs_Status :: nat
  rs_Headers :: "(string \<times> string) list"
  rs_Body :: Body

definition writeJSON :: "nat \<Rightarrow> Body \<Rightarrow> Response" where
  "writeJSON status v =
    \<lparr>rs_Status = status, rs_Headers = [(''Content-Type'', ''application/json'')], rs_Body = v\<rparr>"

definition add_header :: "string \<Rightarrow> string \<Rightarrow> Response \<Rightarrow> Response" where
  "add_header k v r = r\<lparr>rs_Headers := (k, v) # rs_Headers r\<rparr>"

definition writeError :: "nat \<Rightarrow> string \<Rightarrow> MessageText \<Rightarrow> Response" where
  "writeError status code msg =
    (if status = 503 then add_header ''Retry-After'' ''1'' (writeJSON status (ErrorBody code msg))
     else writeJSON status (ErrorBody code msg))"

definition writeAppError :: "Request \<Rightarrow> error \<Rightarrow> Response" where
  "writeAppError r err =
    (if err \<in> {ErrValidation, ErrInvalidAmount, ErrInvalidCurrency, ErrNegativeAmount, ErrOverflow,
         ErrInvalidCursor}
     then writeError 400 ''VALIDATION_ERROR'' (ErrorText '''' err)
     else if err = ErrWalletNotFound \<and> rq_Method r = ''POST'' \<and> URLPath r = ''/wagering/transactions''
     then writeError 422 ''WALLET_NOT_FOUND'' (ErrorText '''' err)
     else if IsNotFound err then writeError 404 ''NOT_FOUND'' (ErrorText '''' err)
     else if err = ErrWalletExists then writeError 409 ''WALLET_EXISTS'' (ErrorText '''' err)
     else if err = ErrIdempotencyConflict
     then writeError 409 ''IDEMPOTENCY_KEY_CONFLICT'' (ErrorText '''' err)
     else if err = ErrExternalIDConflict
     then writeError 409 ''EXTERNAL_TRANSACTION_ID_CONFLICT'' (ErrorText '''' err)
     else if err = ErrDuplicateTransaction \<or> err = ErrConcurrentModification
     then writeError 409 ''CONCURRENT_UPDATE''
       (Literal ''the operation raced with another writer; retry with the same idempotency key'')
     else if IsTransient (Some err)
     then writeError 503 ''TEMPORARILY_UNAVAILABLE''
       (Literal ''a dependency is unavailable; retry with the same idempotency key'')
     else writeError 500 ''INTERNAL_ERROR'' (Literal ''unexpected failure''))"

subsection \<open>The server and a call\<close>

record 's Server =
  sr_svc :: Service
  sr_store :: "'s Store"
  sr_verifier :: Verifier
  sr_checks :: "string list"
  sr_parseUUID :: "string \<Rightarrow> uuid option"
  sr_jsonOpen :: "string \<Rightarrow> OpenWalletRequest option"
  sr_jsonTransaction :: "string \<Rightarrow> TransactionRequest option"

record HttpCall =
  hc_correlation :: string
  hc_walletID :: uuid
  hc_first :: "Faults \<times> env"
  hc_again :: "Faults \<times> env"
  hc_ready :: "string \<Rightarrow> error option"

record Context =
  cx_principal :: "Principal option"
  cx_correlation :: string

type_synonym 's Handler = "HttpCall \<Rightarrow> Context \<Rightarrow> Request \<Rightarrow> 's \<Rightarrow> Response \<times> 's"

definition PrincipalFrom :: "Context \<Rightarrow> Principal" where
  "PrincipalFrom cx = (case cx_principal cx of None \<Rightarrow> no_principal | Some p \<Rightarrow> p)"

text \<open>\<^verbatim>\<open>decodeJSON\<close> reads one value from at most 1 MiB of the body.\<close>

definition decodeJSON :: "(string \<Rightarrow> 'a option) \<Rightarrow> Request \<Rightarrow> 'a option" where
  "decodeJSON dec r = dec (take 1048576 (rq_Body r))"

definition pathUUID :: "'s Server \<Rightarrow> string \<Rightarrow> error + uuid" where
  "pathUUID s v = (case sr_parseUUID s v of None \<Rightarrow> Inl ErrValidation | Some i \<Rightarrow> Inr i)"

text \<open>The common shape of a handler: call a use case, answer its error or its result.\<close>

definition answer ::
  "Request \<Rightarrow> ('s, 'a) op \<Rightarrow> ('a \<Rightarrow> Response) \<Rightarrow> 's \<Rightarrow> Response \<times> 's" where
  "answer r m k st =
    (case m st of
       (Inl e, st') \<Rightarrow> (writeAppError r e, st')
     | (Inr a, st') \<Rightarrow> (k a, st'))"

subsection \<open>The handlers\<close>

definition openWallet :: "'s Server \<Rightarrow> 's Handler" where
  "openWallet s hc cx r st =
    (case decodeJSON (sr_jsonOpen s) r of
       None \<Rightarrow> (writeError 400 ''VALIDATION_ERROR'' (DecoderText ''invalid JSON body: ''), st)
     | Some i \<Rightarrow>
         (case sr_parseUUID s (ow_PlayerID i) of
            None \<Rightarrow> (writeError 400 ''VALIDATION_ERROR'' (Literal ''playerId must be a UUID''), st)
          | Some playerID \<Rightarrow>
              if playerID = uuid_Nil
              then (writeError 400 ''VALIDATION_ERROR'' (Literal ''playerId must be a UUID''), st)
              else
                (case FromJSON (ow_InitialBalance i) of
                   Inl e \<Rightarrow> (writeError 400 ''VALIDATION_ERROR'' (ErrorText ''initialBalance: '' e), st)
                 | Inr initial \<Rightarrow>
                     answer r
                       (OpenWallet (sr_svc s) (sr_store s) (fst (hc_first hc)) (hc_walletID hc)
                          (snd (hc_first hc))
                          \<lparr>oc_PlayerID = playerID, oc_InitialBalance = initial,
                           oc_CorrelationID = cx_correlation cx\<rparr>)
                       (\<lambda>w. writeJSON 201 (WalletBody (toWalletResponse w))) st)))"

definition getWallet :: "'s Server \<Rightarrow> string \<Rightarrow> 's Handler" where
  "getWallet s walletId hc cx r st =
    (case pathUUID s walletId of
       Inl e \<Rightarrow> (writeAppError r e, st)
     | Inr i \<Rightarrow>
         answer r (GetWallet (sr_store s) (fst (hc_first hc)) i)
           (\<lambda>w. writeJSON 200 (WalletBody (toWalletResponse w))) st)"

definition getLedger :: "'s Server \<Rightarrow> string \<Rightarrow> 's Handler" where
  "getLedger s walletId hc cx r st =
    (case pathUUID s walletId of
       Inl e \<Rightarrow> (writeAppError r e, st)
     | Inr i \<Rightarrow>
         answer r
           (ListLedger (sr_store s) (fst (hc_first hc)) i (rq_Query r ''cursor'')
              (Atoi_value (rq_Query r ''limit'')))
           (\<lambda>p. writeJSON 200
              (LedgerBody (map toLedgerEntryResponse (lp_Entries p)) (lp_NextCursor p))) st)"

definition reconcile :: "'s Server \<Rightarrow> string \<Rightarrow> 's Handler" where
  "reconcile s walletId hc cx r st =
    (case pathUUID s walletId of
       Inl e \<Rightarrow> (writeAppError r e, st)
     | Inr i \<Rightarrow>
         answer r (Reconcile (sr_store s) (fst (hc_first hc)) i)
           (\<lambda>c. writeJSON 200 (ReconciliationBody (toReconciliationResponse c))) st)"

definition postTransaction :: "'s Server \<Rightarrow> 's Handler" where
  "postTransaction s hc cx r st =
    (let key = rq_Header r ''Idempotency-Key'' in
     if key = '''' then
       (writeError 400 ''MISSING_IDEMPOTENCY_KEY'' (Literal ''Idempotency-Key header is required''), st)
     else
       (case decodeJSON (sr_jsonTransaction s) r of
          None \<Rightarrow> (writeError 400 ''VALIDATION_ERROR'' (DecoderText ''invalid JSON body: ''), st)
        | Some i \<Rightarrow>
            if in_ProviderID i \<noteq> pp_ProviderID (PrincipalFrom cx) then
              (writeError 403 ''PROVIDER_MISMATCH''
                 (Literal ''providerId does not match the authenticated provider''), st)
            else
              (case ToRequest (sr_parseUUID s) i of
                 Inl e \<Rightarrow> (writeAppError r e, st)
               | Inr req \<Rightarrow>
                   answer r
                     (Process (sr_svc s) (sr_store s) (hc_first hc) (hc_again hc)
                        \<lparr>pc_Request = req, pc_IdempotencyKey = key,
                         pc_CorrelationID = cx_correlation cx, pc_Source = ''http''\<rparr>)
                     (\<lambda>res. writeJSON (statusCodeFor (pr_Transaction res))
                        (TransactionBody (toTransactionResponse (pr_Transaction res)
                           (pr_IdempotentReplay res)))) st)))"

definition getTransaction :: "'s Server \<Rightarrow> string \<Rightarrow> 's Handler" where
  "getTransaction s transactionId hc cx r st =
    (case pathUUID s transactionId of
       Inl e \<Rightarrow> (writeAppError r e, st)
     | Inr i \<Rightarrow>
         let p = PrincipalFrom cx in
         if \<not> IsInternal p \<and> \<not> IsProvider p then
           (writeError 403 ''FORBIDDEN'' (Literal ''caller lacks the required role''), st)
         else
           answer r (GetTransaction (sr_store s) (fst (hc_first hc)) i)
             (\<lambda>tx. if \<not> IsInternal p \<and> t_providerID tx \<noteq> pp_ProviderID p
                then writeError 404 ''NOT_FOUND'' (ErrorText '''' ErrTransactionNotFound)
                else writeJSON 200 (TransactionBody (toTransactionResponse tx False))) st)"

definition getProviderTransaction :: "'s Server \<Rightarrow> string \<Rightarrow> string \<Rightarrow> 's Handler" where
  "getProviderTransaction s providerId externalId hc cx r st =
    (let p = PrincipalFrom cx in
     if \<not> IsInternal p \<and> \<not> (IsProvider p \<and> pp_ProviderID p = providerId) then
       (writeError 403 ''FORBIDDEN'' (Literal ''provider may only query its own transactions''), st)
     else
       answer r (GetTransactionByExternalID (sr_store s) (fst (hc_first hc)) providerId externalId)
         (\<lambda>tx. writeJSON 200 (TransactionBody (toTransactionResponse tx False))) st)"

definition live :: "'s Handler" where
  "live hc cx r st = (writeJSON 200 LiveBody, st)"

text \<open>\<^verbatim>\<open>ready\<close> asks every dependency and reports each of them.\<close>

definition ready :: "'s Server \<Rightarrow> 's Handler" where
  "ready s hc cx r st =
    (let out = fold (\<lambda>n. AList.update n (hc_ready hc n)) (sr_checks s) [];
         up = list_all (\<lambda>n. hc_ready hc n = None) (sr_checks s)
     in (writeJSON (if up then 200 else 503) (ReadyBody up out), st))"

subsection \<open>The middleware and the routes\<close>

definition authenticate :: "'s Server \<Rightarrow> 's Handler \<Rightarrow> 's Handler" where
  "authenticate s h hc cx r st =
    (case FromRequest (sr_verifier s) (rq_Header r ''Authorization'') of
       Inl e \<Rightarrow>
         (add_header ''WWW-Authenticate'' ''Bearer realm=\"wager\"''
            (writeError 401 (if e = ErrMissingToken then ''MISSING_TOKEN'' else ''INVALID_TOKEN'')
               (Literal ''authentication required'')), st)
     | Inr p \<Rightarrow> h hc (cx\<lparr>cx_principal := Some p\<rparr>) r st)"

definition requireRole :: "string \<Rightarrow> 's Handler \<Rightarrow> 's Handler" where
  "requireRole role h hc cx r st =
    (let p = PrincipalFrom cx in
     if \<not> HasRole p role \<or> (role = RoleProvider \<and> pp_ProviderID p = '''') then
       (writeError 403 ''FORBIDDEN'' (Literal ''caller lacks the required role''), st)
     else h hc cx r st)"

definition correlation :: "'s Handler \<Rightarrow> 's Handler" where
  "correlation h hc cx r st =
    (let c = rq_Header r ''X-Correlation-Id'';
         c = (if c = '''' \<or> length c > 128 then hc_correlation hc else c)
     in case h hc (cx\<lparr>cx_correlation := c\<rparr>) r st of
          (rs, st') \<Rightarrow> (add_header ''X-Correlation-Id'' c rs, st'))"

datatype Route =
    HealthLive
  | HealthReady
  | MetricsRoute
  | OpenWalletRoute
  | GetWalletRoute string
  | GetLedgerRoute string
  | ReconcileRoute string
  | PostTransactionRoute
  | GetTransactionRoute string
  | GetProviderTransactionRoute string string

text \<open>The pattern that a path matches and the method it is registered for. A wildcard takes one
  segment that is not empty.\<close>

definition route :: "string list \<Rightarrow> (string \<times> Route) option" where
  "route segs =
    (if segs = [''health'', ''live''] then Some (''GET'', HealthLive)
     else if segs = [''health'', ''ready''] then Some (''GET'', HealthReady)
     else if segs = [''metrics''] then Some (''GET'', MetricsRoute)
     else if segs = [''wallets''] then Some (''POST'', OpenWalletRoute)
     else if segs = [''wagering'', ''transactions''] then Some (''POST'', PostTransactionRoute)
     else
       (case segs of
          [a, i] \<Rightarrow>
            if a = ''wallets'' \<and> i \<noteq> '''' then Some (''GET'', GetWalletRoute i) else None
        | [a, i, b] \<Rightarrow>
            if a = ''wallets'' \<and> i \<noteq> '''' \<and> b = ''ledger'' then Some (''GET'', GetLedgerRoute i)
            else if a = ''wallets'' \<and> i \<noteq> '''' \<and> b = ''reconciliation''
            then Some (''POST'', ReconcileRoute i)
            else if a = ''wagering'' \<and> i = ''transactions'' \<and> b \<noteq> ''''
            then Some (''GET'', GetTransactionRoute b)
            else None
        | [a, p, b, c, x] \<Rightarrow>
            if a = ''providers'' \<and> p \<noteq> '''' \<and> b = ''wagering'' \<and> c = ''transactions'' \<and> x \<noteq> ''''
            then Some (''GET'', GetProviderTransactionRoute p x) else None
        | _ \<Rightarrow> None))"

fun dispatch :: "'s Server \<Rightarrow> Route \<Rightarrow> 's Handler" where
  "dispatch s HealthLive = live"
| "dispatch s HealthReady = ready s"
| "dispatch s MetricsRoute =
    (\<lambda>hc cx r st. (\<lparr>rs_Status = 200, rs_Headers = [], rs_Body = MetricsBody\<rparr>, st))"
| "dispatch s OpenWalletRoute = authenticate s (requireRole RoleInternal (openWallet s))"
| "dispatch s (GetWalletRoute i) = authenticate s (requireRole RoleInternal (getWallet s i))"
| "dispatch s (GetLedgerRoute i) = authenticate s (requireRole RoleInternal (getLedger s i))"
| "dispatch s (ReconcileRoute i) = authenticate s (requireRole RoleInternal (reconcile s i))"
| "dispatch s PostTransactionRoute = authenticate s (requireRole RoleProvider (postTransaction s))"
| "dispatch s (GetTransactionRoute i) = authenticate s (getTransaction s i)"
| "dispatch s (GetProviderTransactionRoute p x) = authenticate s (getProviderTransaction s p x)"

definition mux :: "'s Server \<Rightarrow> 's Handler" where
  "mux s hc cx r st =
    (case route (rq_Segments r) of
       None \<Rightarrow> (\<lparr>rs_Status = 404, rs_Headers = [], rs_Body = PlainBody ''404 page not found''\<rparr>, st)
     | Some (m, rt) \<Rightarrow>
         if rq_Method r = m \<or> (m = ''GET'' \<and> rq_Method r = ''HEAD'') then dispatch s rt hc cx r st
         else
           (\<lparr>rs_Status = 405,
             rs_Headers = [(''Allow'', if m = ''GET'' then ''GET, HEAD'' else m)],
             rs_Body = PlainBody ''Method Not Allowed''\<rparr>, st))"

text \<open>\<^verbatim>\<open>Handler\<close>: the whole server, on a request with an empty context.\<close>

definition serve :: "'s Server \<Rightarrow> HttpCall \<Rightarrow> Request \<Rightarrow> 's \<Rightarrow> Response \<times> 's" where
  "serve s hc r st =
    correlation (mux s) hc \<lparr>cx_principal = None, cx_correlation = ''''\<rparr> r st"

end
