(* ===== verification/Idempotency.thy ===== *)
theory Idempotency
  imports Queries
begin

text \<open>
  Idempotency, for good: what happens to a command that the database already knows, and that a
  command that went through once is answered from the database ever after.
\<close>

lemma texts_ok_Cons [simp]: "texts_ok (x # xs) \<longleftrightarrow> pg_text_ok x \<and> texts_ok xs"
  by (simp add: texts_ok_def)

lemma texts_ok_Nil [simp]: "texts_ok []"
  by (simp add: texts_ok_def)

lemma pg_text_Nil [simp]: "pg_text_ok ''''"
  by (simp add: pg_text_ok.simps)

lemma tx_texts:
  assumes "sound d" and "t \<in> set (v_txs (pg_view d))"
  shows "pg_text_ok (t_providerID t)" "pg_text_ok (t_idempotencyKey t)"
    "pg_text_ok (t_externalTransactionID t)" "pg_text_ok (t_referenceExternalID t)"
proof -
  obtain r where r: "r \<in> set (db_txs d)" "t = row_tx r" using assms(2) by (auto simp: pg_view_def)
  note ok = pg_tx_row [OF soundD(1) [OF assms(1)] r(1)]
  note f = scan_tx_facts [OF ok(1)]
  show "pg_text_ok (t_providerID t)" "pg_text_ok (t_idempotencyKey t)"
    "pg_text_ok (t_externalTransactionID t)" "pg_text_ok (t_referenceExternalID t)"
    using ok(6) f unfolding r(2) row_texts_def by simp_all
qed

lemma lookup_exact:
  assumes "sound d" and "pg_text_ok p" and "pg_text_ok k"
    and "by_key (pg_view d) p k = None \<Longrightarrow> pg_text_ok x"
    and "p = er_ProviderID (pc_Request cmd)" and "k = pc_IdempotencyKey cmd"
    and "x = er_ExternalTransactionID (pc_Request cmd)"
  shows "lookupExisting pgStore cmd hash d =
    (case by_key (pg_view d) p k of
       Some t \<Rightarrow>
         if t_payloadHash t = hash
         then Inr (Some \<lparr>pr_Transaction = t, pr_IdempotentReplay = True\<rparr>)
         else Inl ErrIdempotencyConflict
     | None \<Rightarrow>
         (case by_ext (pg_view d) p x of Some t \<Rightarrow> Inl ErrExternalIDConflict | None \<Rightarrow> Inr None), d)"
proof -
  note eqs = pg_by_key_eq [OF soundD(1) [OF assms(1)], of p k]
    pg_by_ext_eq [OF soundD(1) [OF assms(1)], of p x]
  have key: "t_idempotencyKey t \<noteq> k"
    if "by_key (pg_view d) p k = None" "by_ext (pg_view d) p x = Some t" for t
  proof -
    have "t \<in> set (v_txs (pg_view d))" "t_origin t = OriginExternal" "t_providerID t = p"
      using by_ext_Some [OF soundD(3) [OF assms(1)]] that(2) by auto
    then show ?thesis using that(1) unfolding by_key_None by blast
  qed
  show ?thesis
    by (cases "by_key (pg_view d) p k"; cases "by_ext (pg_view d) p x")
      (use assms(2-4) key in \<open>simp_all add: lookupExisting_def Let_def obind_apply otry_apply
        pgStore_simps eqs flip: assms(5-7)\<close>)
qed

lemma ProcessIn_known:
  assumes "sound d" and "pg_text_ok p" and "pg_text_ok k"
    and "by_key (pg_view d) p k = None \<Longrightarrow> pg_text_ok x" and "k \<noteq> ''''"
    and "p = er_ProviderID (pc_Request cmd)" and "k = pc_IdempotencyKey cmd"
    and "x = er_ExternalTransactionID (pc_Request cmd)"
    and "by_key (pg_view d) p k \<noteq> None \<or> by_ext (pg_view d) p x \<noteq> None"
  shows "ProcessIn sv pgStore en cmd d =
    (case by_key (pg_view d) p k of
       Some t \<Rightarrow>
         if t_payloadHash t = PayloadHash (sv_uuid_string sv) (sv_sha256_hex sv) (pc_Request cmd)
         then Inr \<lparr>pr_Transaction = t, pr_IdempotentReplay = True\<rparr> else Inl ErrIdempotencyConflict
     | None \<Rightarrow> Inl ErrExternalIDConflict, d)"
proof -
  have k: "pc_IdempotencyKey cmd \<noteq> ''''" using assms(5,7) by simp
  note lk = lookup_exact [OF assms(1-3) _ assms(6-8)]
  let ?h = "PayloadHash (sv_uuid_string sv) (sv_sha256_hex sv) (pc_Request cmd)"
  have run: "lookupExisting pgStore cmd ?h d = (Inl e, d) \<Longrightarrow> ProcessIn sv pgStore en cmd d = (Inl e, d)"
    "lookupExisting pgStore cmd ?h d = (Inr (Some r), d) \<Longrightarrow> ProcessIn sv pgStore en cmd d = (Inr r, d)"
    for e r
    using k by (simp_all add: ProcessIn_def Let_def)
  show ?thesis
  proof (cases "by_key (pg_view d) p k")
    case None
    then obtain t where "by_ext (pg_view d) p x = Some t" using assms(9) by auto
    then have "lookupExisting pgStore cmd ?h d = (Inl ErrExternalIDConflict, d)"
      using lk [OF assms(4)] None by simp
    from run(1) [OF this] show ?thesis using None by simp
  next
    case (Some t)
    then have "lookupExisting pgStore cmd ?h d =
      (if t_payloadHash t = ?h then Inr (Some \<lparr>pr_Transaction = t, pr_IdempotentReplay = True\<rparr>)
       else Inl ErrIdempotencyConflict, d)"
      using lk [OF assms(4)] by simp
    then show ?thesis
      using run(1) [of ErrIdempotencyConflict] run(2) [of "\<lparr>pr_Transaction = t, pr_IdempotentReplay = True\<rparr>"]
        Some by (cases "t_payloadHash t = ?h") simp_all
  qed
qed

text \<open>C3. A known operation is decided by the database alone. In every reachable database, when
  the provider's idempotency key or external transaction id is already taken, \<^verbatim>\<open>Process\<close>
  answers with the stored transaction, marked as a replay, when the key is known with the same
  payload hash; with an idempotency conflict when the key is known with another hash; and with
  an external id conflict when only the external id is known. In all three cases it changes
  nothing, and what the clock and the generators give plays no role.\<close>

theorem known_operation_exact:
  assumes "reachable sv d" and "k \<noteq> ''''" and "texts_ok [p, k, x]"
    and "p = er_ProviderID (pc_Request cmd)" and "k = pc_IdempotencyKey cmd"
    and "x = er_ExternalTransactionID (pc_Request cmd)"
    and "by_key (pg_view d) p k \<noteq> None \<or> by_ext (pg_view d) p x \<noteq> None"
  shows "Process sv pgStore (no_faults, en) second cmd d =
    (case by_key (pg_view d) p k of
       Some t \<Rightarrow>
         if t_payloadHash t = PayloadHash (sv_uuid_string sv) (sv_sha256_hex sv) (pc_Request cmd)
         then Inr \<lparr>pr_Transaction = t, pr_IdempotentReplay = True\<rparr> else Inl ErrIdempotencyConflict
     | None \<Rightarrow> Inl ErrExternalIDConflict, d)"
proof -
  have t: "pg_text_ok p" "pg_text_ok k" "pg_text_ok x" using assms(3) by simp_all
  show ?thesis
    unfolding Process_def Let_def prod.case obind_apply otry_apply uow_Do_def
      ProcessIn_known [OF reachable_sound [OF assms(1)] t(1,2) t(3) assms(2,4-7)]
    by (auto split: option.splits)
qed

theorem known_operation_exact_witness:
  "Process demo_sv pgStore (no_faults, demo_env 9000000000 90) (no_faults, demo_env 9000000000 95)
     (demo_cmd ''x'' KindBet 3000 '''') db3
   = (Inr \<lparr>pr_Transaction = row_tx demo_tx2, pr_IdempotentReplay = True\<rparr>, db3) \<and>
   Process demo_sv pgStore (no_faults, demo_env 9000000000 90) (no_faults, demo_env 9000000000 95)
     (demo_cmd ''x'' KindBet 13000 '''') db3 = (Inl ErrIdempotencyConflict, db3) \<and>
   Process demo_sv pgStore (no_faults, demo_env 9000000000 90) (no_faults, demo_env 9000000000 95)
     ((demo_cmd ''x'' KindBet 3000 '''')\<lparr>pc_IdempotencyKey := ''k''\<rparr>) db3
   = (Inl ErrExternalIDConflict, db3)"
proof -
  have f: "by_key (pg_view db3) ''prov'' ''x'' = Some (row_tx demo_tx2)"
    "by_ext (pg_view db3) ''prov'' ''x'' = Some (row_tx demo_tx2)"
    "by_key (pg_view db3) ''prov'' ''k'' = None" "texts_ok [''prov'', ''x'', ''x'']"
    "texts_ok [''prov'', ''k'', ''x'']" "t_payloadHash (row_tx demo_tx2) = ''163''" by code_simp+
  have h: "PayloadHash (sv_uuid_string demo_sv) (sv_sha256_hex demo_sv)
      (pc_Request (demo_cmd ''x'' KindBet 3000 '''')) = ''163''"
    "PayloadHash (sv_uuid_string demo_sv) (sv_sha256_hex demo_sv)
      (pc_Request (demo_cmd ''x'' KindBet 13000 '''')) = ''164''" by code_simp+
  have c: "er_ProviderID (pc_Request (demo_cmd ''x'' KindBet n '''')) = ''prov''"
    "pc_IdempotencyKey (demo_cmd ''x'' KindBet n '''') = ''x''"
    "er_ExternalTransactionID (pc_Request (demo_cmd ''x'' KindBet n '''')) = ''x''" for n
    by (simp_all add: demo_cmd_def demo_request_def)
  have x: "''x'' \<noteq> ''''" "''k'' \<noteq> ''''" by simp_all
  note known = known_operation_exact [OF db3_reachable, where p = "''prov''" and x = "''x''"
      and en = "demo_env 9000000000 90" and second = "(no_faults, demo_env 9000000000 95)"]
  have 1: "Process demo_sv pgStore (no_faults, demo_env 9000000000 90) (no_faults, demo_env 9000000000 95)
      (demo_cmd ''x'' KindBet 3000 '''') db3
    = (Inr \<lparr>pr_Transaction = row_tx demo_tx2, pr_IdempotentReplay = True\<rparr>, db3)"
    by (subst known [OF x(1) f(4) c [symmetric]]) (simp_all only: f h option.case option.distinct
        if_True simp_thms)
  have 2: "Process demo_sv pgStore (no_faults, demo_env 9000000000 90) (no_faults, demo_env 9000000000 95)
      (demo_cmd ''x'' KindBet 13000 '''') db3 = (Inl ErrIdempotencyConflict, db3)"
    by (subst known [OF x(1) f(4) c [symmetric]]) (simp_all add: f h)
  have 3: "Process demo_sv pgStore (no_faults, demo_env 9000000000 90) (no_faults, demo_env 9000000000 95)
      ((demo_cmd ''x'' KindBet 3000 '''')\<lparr>pc_IdempotencyKey := ''k''\<rparr>) db3
    = (Inl ErrExternalIDConflict, db3)"
    by (subst known [OF x(2) f(5)]) (simp_all add: f(2,3) c)
  show ?thesis using 1 2 3 by blast
qed

subsection \<open>Answered for good\<close>

lemma Process_run:
  assumes "Process sv pgStore first second cmd d = (Inr res, d')"
    and "clock_ok (e_now (snd first))" and "clock_ok (e_now (snd second))"
  obtains en s where "(sys_step sv)\<^sup>*\<^sup>* d s" and "clock_ok (e_now en)"
    and "ProcessIn sv pgStore en cmd s = (Inr res, d')" and "sys_step sv s d'"
proof -
  obtain f1 en1 f2 en2 where fs: "first = (f1, en1)" "second = (f2, en2)" by (cases first; cases second)
  define s where "s = after f1 (ProcessIn sv pgStore en1 cmd) d"
  have step: "sys_step sv d s" unfolding s_def using assms(2) fs by (intro sys_step.processed) simp
  obtain r where r: "uow_Do f1 (ProcessIn sv pgStore en1 cmd) d = (r, s)"
    by (cases "uow_Do f1 (ProcessIn sv pgStore en1 cmd) d") (simp add: s_def after_def)
  note p = assms(1) [unfolded Process_def Let_def fs prod.case obind_apply otry_apply r]
  show ?thesis
  proof (cases r)
    case (Inl e)
    then have "uow_Do f2 (ProcessIn sv pgStore en2 cmd) s = (Inr res, d')"
      using p by (simp split: if_splits)
    then have "ProcessIn sv pgStore en2 cmd s = (Inr res, d')" "after f2 (ProcessIn sv pgStore en2 cmd) s = d'"
      by (simp add: uow_Do_Inr, simp add: after_def)
    then show ?thesis
      using that [of s en2] step assms(3) fs sys_step.processed [of en2 sv s f2 cmd] by auto
  next
    case (Inr x)
    then have "x = res" "s = d'" using p by simp_all
    then have "ProcessIn sv pgStore en1 cmd d = (Inr res, d')" using r Inr by (simp add: uow_Do_Inr)
    then show ?thesis using that [of d en1] step assms(2) fs \<open>s = d'\<close> by auto
  qed
qed

text \<open>The transaction that a processed command leaves in the database.\<close>

lemma ProcessIn_stored:
  assumes "sound d" and "clock_ok (e_now en)" and "ProcessIn sv pgStore en cmd d = (Inr res, d')"
  obtains t where "by_key (pg_view d') (er_ProviderID (pc_Request cmd)) (pc_IdempotencyKey cmd) = Some t"
    and "t_payloadHash t = PayloadHash (sv_uuid_string sv) (sv_sha256_hex sv) (pc_Request cmd)"
    and "kept_tx (pr_Transaction res) t" and "pc_IdempotencyKey cmd \<noteq> ''''"
proof -
  let ?h = "PayloadHash (sv_uuid_string sv) (sv_sha256_hex sv) (pc_Request cmd)"
  note p = pg.ProcessIn_Inr [OF soundD(1) [OF assms(1)] assms(2,3)]
  have v': "view_ok (pg_view d')" using p(1) by (simp add: pg_ok_def)
  have k: "pc_IdempotencyKey cmd \<noteq> ''''" using assms(3) by (rule contrapos_pn) (simp add: ProcessIn_def Let_def)
  show ?thesis
    using p(2)
  proof
    assume "replay_step (pg_view d) ?h cmd res (pg_view d')"
    then obtain t where t: "by_key (pg_view d) (er_ProviderID (pc_Request cmd)) (pc_IdempotencyKey cmd) = Some t"
      "t_payloadHash t = ?h" "pr_Transaction res = t" "pg_view d' = pg_view d"
      unfolding replay_step_def by force
    show ?thesis
      by (rule that [of t]) (use t k in \<open>simp_all add: kept_tx_def\<close>)
  next
    assume "new_step stored_wallet stored_tx stored_entry sv en (pg_view d) ?h cmd res (pg_view d')"
    then obtain w tx entry tx' w' evs where
      n: "NewExternal (e_txID en) (pc_Request cmd) (pc_IdempotencyKey cmd) ?h (pc_CorrelationID cmd)
        (e_now en) = Inr tx"
      and c: "carry_out sv (e_entryID en) tx w (e_now en) (verdict (pg_view d) tx w) = Inr (entry, tx', w')"
      and st: "settled stored_wallet stored_entry
        ((pg_view d)\<lparr>v_txs := v_txs (pg_view d) @ [stored_tx tx']\<rparr>) entry w' evs (pg_view d')"
      and res: "res = \<lparr>pr_Transaction = tx', pr_IdempotentReplay = False\<rparr>"
      unfolding new_step_def by blast
    note f = NewExternal_facts [OF n]
    have same: "same_identity tx tx'" using carry_out_ok [OF c f(1,4)] by (simp add: outcome_ok_def)
    have "stored_tx tx' \<in> set (v_txs (pg_view d'))"
      using st by (auto simp: settled_def split: option.splits)
    then have "by_key (pg_view d') (er_ProviderID (pc_Request cmd)) (pc_IdempotencyKey cmd) =
        Some (stored_tx tx')"
      using by_key_Some [OF v'] same f stored_tx_kept [of tx']
      by (auto simp: same_identity_def kept_tx_def)
    moreover have "t_payloadHash (stored_tx tx') = ?h"
      using same f(12) stored_tx_kept [of tx'] by (auto simp: same_identity_def kept_tx_def)
    ultimately show ?thesis
      by (rule that) (use res stored_tx_kept [of tx'] k in simp_all)
  qed
qed

text \<open>A stored result balance is read in the currency of the transaction.\<close>

lemma read_currency:
  assumes "sound d" and "t \<in> set (v_txs (pg_view d))" and "t_resultBalance t = Some b"
  shows "m_currency b = m_currency (t_money t)"
proof -
  obtain r where r: "r \<in> set (db_txs d)" "t = row_tx r" using assms(2) by (auto simp: pg_view_def)
  have "transactionRepo_scan r = Inr t" using pg_tx_row(1) [OF soundD(1) [OF assms(1)] r(1)] r(2) by simp
  then show ?thesis
    using assms(3) by (auto simp: transactionRepo_scan_def FromMinor_eq Rehydrate_def split: option.splits if_splits)
qed

text \<open>What a later repetition of the command finds.\<close>

lemma answered_again:
  assumes "reachable sv d" and "clock_ok (e_now (snd first))" and "clock_ok (e_now (snd second))"
    and "Process sv pgStore first second cmd d = (Inr res, d1)" and "(sys_step sv)\<^sup>*\<^sup>* d1 d2"
    and "pc_Request cmd' = pc_Request cmd" and "pc_IdempotencyKey cmd' = pc_IdempotencyKey cmd"
  obtains t where
    "ProcessIn sv pgStore en cmd' d2 = (Inr \<lparr>pr_Transaction = t, pr_IdempotentReplay = True\<rparr>, d2)"
    and "t_id t = t_id (pr_Transaction res)"
    and "IsTerminal (t_status (pr_Transaction res)) \<longrightarrow> kept_tx (pr_Transaction res) t"
    and "\<forall>b. t_resultBalance t = Some b \<longrightarrow> m_currency b = m_currency (t_money t)"
proof -
  obtain en' s where s: "(sys_step sv)\<^sup>*\<^sup>* d s" "clock_ok (e_now en')" "sys_step sv s d1"
    and p: "ProcessIn sv pgStore en' cmd s = (Inr res, d1)"
    by (rule Process_run [OF assms(4,2,3)])
  have ss: "sound s" using steps_sound [OF s(1) reachable_sound [OF assms(1)]] by blast
  obtain t where t: "by_key (pg_view d1) (er_ProviderID (pc_Request cmd)) (pc_IdempotencyKey cmd) = Some t"
    "t_payloadHash t = PayloadHash (sv_uuid_string sv) (sv_sha256_hex sv) (pc_Request cmd)"
    "kept_tx (pr_Transaction res) t" "pc_IdempotencyKey cmd \<noteq> ''''"
    by (rule ProcessIn_stored [OF ss s(2) p])
  have s1: "sound d1" using sys_step_sound [OF s(3) ss] by blast
  note s2 = steps_sound [OF assms(5) s1]
  have mem: "t \<in> set (v_txs (pg_view d1))" "t_origin t = OriginExternal"
    "t_providerID t = er_ProviderID (pc_Request cmd)" "t_idempotencyKey t = pc_IdempotencyKey cmd"
    using t(1) by_key_Some [OF soundD(3) [OF s1]] by auto
  obtain u where u: "u \<in> set (v_txs (pg_view d2))" "continues t u"
    using grows_txs [OF conjunct2 [OF s2] mem(1)] by blast
  have bk: "by_key (pg_view d2) (er_ProviderID (pc_Request cmd')) (pc_IdempotencyKey cmd') = Some u"
    using by_key_Some [OF soundD(3) [OF conjunct1 [OF s2]]] u mem assms(6,7) by (simp add: continues_def)
  have tx: "pg_text_ok (er_ProviderID (pc_Request cmd'))" "pg_text_ok (pc_IdempotencyKey cmd')"
    using tx_texts(1,2) [OF conjunct1 [OF s2] u(1)] u(2) mem assms(6,7) by (auto simp: continues_def)
  have "ProcessIn sv pgStore en cmd' d2 = (Inr \<lparr>pr_Transaction = u, pr_IdempotentReplay = True\<rparr>, d2)"
    using ProcessIn_known [OF conjunct1 [OF s2] tx _ _ refl refl refl, of sv en] bk u(2) t(2,4) assms(6,7)
    by (simp add: continues_def)
  moreover have "t_id u = t_id (pr_Transaction res)" "t_status t = t_status (pr_Transaction res)"
    using u(2) t(3) by (auto simp: continues_def kept_tx_def)
  ultimately show ?thesis
    using that u(2) t(3) read_currency [OF conjunct1 [OF s2] u(1)] by (auto simp: continues_def)
qed

lemma Process_first:
  "ProcessIn sv st en cmd s = (Inr res, s') \<Longrightarrow>
    Process sv st (no_faults, en) again cmd s = (Inr res, s')"
  by (simp add: Process_def Let_def obind_apply otry_apply uow_Do_def)



end
