(* ===== verification/HttpSafety.thy ===== *)
theory HttpSafety
  imports Http Idempotency
begin

text \<open>
  What the HTTP server discloses and changes, for whom, and how it answers: its requests are steps
  of the system, its responses belong to the caller, a repeated operation is answered as before.
\<close>

subsection \<open>Requests are steps of the system\<close>

lemma Process_steps:
  assumes "Process sv pgStore first second cmd d = (r, d')"
    and "clock_ok (e_now (snd first))" and "clock_ok (e_now (snd second))"
  shows "(sys_step sv)\<^sup>*\<^sup>* d d'"
proof -
  obtain f1 en1 f2 en2 where fs: "first = (f1, en1)" "second = (f2, en2)" by (cases first; cases second)
  define s where "s = after f1 (ProcessIn sv pgStore en1 cmd) d"
  have a: "sys_step sv d s" unfolding s_def using assms(2) fs by (intro sys_step.processed) simp
  have b: "sys_step sv s (after f2 (ProcessIn sv pgStore en2 cmd) s)"
    using assms(3) fs by (intro sys_step.processed) simp
  obtain r1 where r1: "uow_Do f1 (ProcessIn sv pgStore en1 cmd) d = (r1, s)"
    by (cases "uow_Do f1 (ProcessIn sv pgStore en1 cmd) d") (simp add: s_def after_def)
  have "d' = s \<or> d' = after f2 (ProcessIn sv pgStore en2 cmd) s"
    using assms(1) unfolding Process_def Let_def fs prod.case obind_apply otry_apply r1
    by (auto simp: after_def ok_def fail_def split: sum.splits if_splits)
  then show ?thesis using a b by auto
qed

lemma OpenWallet_steps:
  assumes "OpenWallet sv pgStore f i en cmd d = (r, d')" and "clock_ok (e_now en)"
  shows "(sys_step sv)\<^sup>*\<^sup>* d d'"
proof (cases "Open i (oc_PlayerID cmd) (oc_InitialBalance cmd) (e_now en)")
  case (Inl e)
  then show ?thesis using assms(1) by (simp add: OpenWallet_def obind_apply lift_def fail_def)
next
  case (Inr w)
  then have "d' = after f (openIn sv pgStore en cmd w) d"
    using assms(1)
    by (auto simp: OpenWallet_def obind_apply lift_def ok_def after_def split: prod.splits sum.splits)
  then show ?thesis using sys_step.opened [OF assms(2) Inr] by auto
qed

subsection \<open>The queries change nothing\<close>

lemma ledgerRepo_List_same: "ledgerRepo_List i seq n d = (r, d') \<Longrightarrow> d' = d"
  by (auto simp: ledgerRepo_List_def Let_def split: sum.splits if_splits)

lemma queries_same:
  assumes "sound d"
  shows "GetWallet pgStore f i d = (r1, d') \<Longrightarrow> d' = d"
    and "GetTransaction pgStore f i d = (r2, d') \<Longrightarrow> d' = d"
    and "GetTransactionByExternalID pgStore f p x d = (r3, d') \<Longrightarrow> d' = d"
    and "ListLedger pgStore f i c n d = (r4, d') \<Longrightarrow> d' = d"
    and "Reconcile pgStore f i d = (r5, d') \<Longrightarrow> d' = d"
proof -
  note ok = soundD(1) [OF assms]
  note eqs = pgStore_simps pg_Get_eq [OF ok] pg_get_tx_eq [OF ok] pg_by_ext_eq [OF ok] pg_totals_eq [OF ok]
  show "GetWallet pgStore f i d = (r1, d') \<Longrightarrow> d' = d"
    unfolding GetWallet_def by (erule uow_same) (auto simp: eqs split: option.splits)
  show "GetTransaction pgStore f i d = (r2, d') \<Longrightarrow> d' = d"
    unfolding GetTransaction_def by (erule uow_same) (auto simp: eqs split: option.splits)
  show "GetTransactionByExternalID pgStore f p x d = (r3, d') \<Longrightarrow> d' = d"
    unfolding GetTransactionByExternalID_def
    by (erule uow_same) (auto simp: eqs split: option.splits if_splits)
  show "Reconcile pgStore f i d = (r5, d') \<Longrightarrow> d' = d"
    unfolding Reconcile_def
    by (erule uow_same) (auto simp: eqs obind_Inr_iff lift_Inr_iff ok_def Let_def split: option.splits if_splits)
  show "ListLedger pgStore f i c n d = (r4, d') \<Longrightarrow> d' = d"
  proof (cases "decodeCursor c")
    case (Inr a)
    assume "ListLedger pgStore f i c n d = (r4, d')"
    then show ?thesis
      unfolding ListLedger_def Let_def Inr obind_lift_Inr
      by (rule uow_same) (auto simp: eqs obind_Inr_iff split: option.splits if_splits
          dest: ledgerRepo_List_same)
  qed (simp add: ListLedger_def Let_def)
qed

subsection \<open>The handlers\<close>

lemma answerE:
  assumes "answer r m k d = (rs, d')"
  obtains e where "m d = (Inl e, d')" and "rs = writeAppError r e"
  | a where "m d = (Inr a, d')" and "rs = k a"
  using assms by (auto simp: answer_def split: prod.splits sum.splits)

lemma bodies [simp]:
  "rs_Body (writeJSON n b) = b" "rs_Body (writeError n c m) = ErrorBody c m"
  "rs_Body (add_header k v rs) = rs_Body rs"
  by (simp_all add: writeJSON_def writeError_def add_header_def)

lemma statuses [simp]:
  "rs_Status (writeJSON n b) = n" "rs_Status (writeError n c m) = n"
  "rs_Status (add_header k v rs) = rs_Status rs"
  by (simp_all add: writeJSON_def writeError_def add_header_def)

definition is_error :: "Body \<Rightarrow> bool" where
  "is_error b \<longleftrightarrow> (case b of ErrorBody c m \<Rightarrow> True | _ \<Rightarrow> False)"

lemma is_error_simps [simp]: "is_error (ErrorBody c m)"
  by (simp add: is_error_def)

lemma writeAppError_error [simp]: "is_error (rs_Body (writeAppError r e))"
  by (simp add: writeAppError_def)

text \<open>What a caller may be shown.\<close>

definition may_see :: "Principal \<Rightarrow> Body \<Rightarrow> bool" where
  "may_see p b =
    (case b of
       WalletBody w \<Rightarrow> IsInternal p
     | LedgerBody es c \<Rightarrow> IsInternal p
     | ReconciliationBody c \<Rightarrow> IsInternal p
     | TransactionBody t \<Rightarrow> IsInternal p \<or> (IsProvider p \<and> tj_ProviderID t = pp_ProviderID p)
     | _ \<Rightarrow> True)"

lemma may_see_error [simp]: "is_error b \<Longrightarrow> may_see p b"
  by (auto simp: is_error_def may_see_def split: Body.splits)

lemma may_see_simps [simp]:
  "IsInternal p \<Longrightarrow> may_see p b"
  "may_see p (TransactionBody t) \<longleftrightarrow> IsInternal p \<or> (IsProvider p \<and> tj_ProviderID t = pp_ProviderID p)"
  by (auto simp: may_see_def split: Body.splits)

lemma tj_simps [simp]:
  "tj_ProviderID (toTransactionResponse t replay) = t_providerID t"
  "tj_IdempotentReplay (toTransactionResponse t replay) = replay"
  "tj_TransactionID (toTransactionResponse t replay) = t_id t"
  by (simp_all add: toTransactionResponse_def)

lemma openWallet_steps:
  assumes "openWallet s hc cx r d = (rs, d')" and "sr_store s = pgStore"
    and "clock_ok (e_now (snd (hc_first hc)))"
  shows "(sys_step (sr_svc s))\<^sup>*\<^sup>* d d'"
  using assms(1)
  by (auto simp: openWallet_def assms(2) split: option.splits sum.splits if_splits
      elim!: answerE dest: OpenWallet_steps [OF _ assms(3)])

lemma postTransaction_steps:
  assumes "postTransaction s hc cx r d = (rs, d')" and "sr_store s = pgStore"
    and "clock_ok (e_now (snd (hc_first hc)))" and "clock_ok (e_now (snd (hc_again hc)))"
  shows "(sys_step (sr_svc s))\<^sup>*\<^sup>* d d'"
  using assms(1)
  by (auto simp: postTransaction_def Let_def assms(2) split: option.splits sum.splits if_splits
      elim!: answerE dest: Process_steps [OF _ assms(3,4)])

text \<open>The other handlers only read.\<close>

lemma reading_same:
  assumes "sound d" and "sr_store s = pgStore"
  shows "getWallet s i hc cx r d = (rs, d') \<Longrightarrow> d' = d"
    and "getLedger s i hc cx r d = (rs, d') \<Longrightarrow> d' = d"
    and "reconcile s i hc cx r d = (rs, d') \<Longrightarrow> d' = d"
    and "getTransaction s i hc cx r d = (rs, d') \<Longrightarrow> d' = d"
    and "getProviderTransaction s i x hc cx r d = (rs, d') \<Longrightarrow> d' = d"
    and "live hc cx r d = (rs, d') \<Longrightarrow> d' = d"
    and "ready s hc cx r d = (rs, d') \<Longrightarrow> d' = d"
  using queries_same [OF assms(1)]
  by (auto simp: getWallet_def getLedger_def reconcile_def getTransaction_def live_def ready_def
      getProviderTransaction_def Let_def assms(2) split: sum.splits if_splits elim!: answerE)

subsection \<open>Whose transactions they are\<close>

definition foreign_kept :: "string \<Rightarrow> db \<Rightarrow> db \<Rightarrow> bool" where
  "foreign_kept p d d' \<longleftrightarrow>
    (\<forall>t. t_providerID t \<noteq> p \<longrightarrow> (t \<in> set (v_txs (pg_view d')) \<longleftrightarrow> t \<in> set (v_txs (pg_view d))))"

lemma foreign_kept_refl [simp]: "foreign_kept p d d"
  by (simp add: foreign_kept_def)

lemma foreign_kept_trans: "foreign_kept p d d' \<Longrightarrow> foreign_kept p d' d'' \<Longrightarrow> foreign_kept p d d''"
  by (auto simp: foreign_kept_def)

lemma ProcessIn_owner:
  assumes "sound d" and "clock_ok (e_now en)" and "ProcessIn sv pgStore en cmd d = (Inr res, d')"
  shows "t_providerID (pr_Transaction res) = er_ProviderID (pc_Request cmd)"
    and "foreign_kept (er_ProviderID (pc_Request cmd)) d d'"
proof -
  let ?p = "er_ProviderID (pc_Request cmd)"
  let ?h = "PayloadHash (sv_uuid_string sv) (sv_sha256_hex sv) (pc_Request cmd)"
  have v: "view_ok (pg_view d)" by (rule soundD(3) [OF assms(1)])
  from pg.ProcessIn_Inr(2) [OF soundD(1) [OF assms(1)] assms(2,3)]
  have "t_providerID (pr_Transaction res) = ?p \<and> foreign_kept ?p d d'"
  proof
    assume "replay_step (pg_view d) ?h cmd res (pg_view d')"
    then show ?thesis using by_key_Some [OF v] by (auto simp: replay_step_def foreign_kept_def)
  next
    assume "new_step stored_wallet stored_tx stored_entry sv en (pg_view d) ?h cmd res (pg_view d')"
    then obtain w tx entry tx' w' evs where
      n: "NewExternal (e_txID en) (pc_Request cmd) (pc_IdempotencyKey cmd) ?h (pc_CorrelationID cmd)
        (e_now en) = Inr tx"
      and c: "carry_out sv (e_entryID en) tx w (e_now en) (verdict (pg_view d) tx w) = Inr (entry, tx', w')"
      and st: "settled stored_wallet stored_entry
        ((pg_view d)\<lparr>v_txs := v_txs (pg_view d) @ [stored_tx tx']\<rparr>) entry w' evs (pg_view d')"
      and res: "res = \<lparr>pr_Transaction = tx', pr_IdempotentReplay = False\<rparr>"
      unfolding new_step_def by blast
    note f = NewExternal_facts [OF n]
    have same: "same_identity tx tx'" using carry_out_ok [OF c f(1,4)] by (simp add: outcome_ok_def)
    have "v_txs (pg_view d') = v_txs (pg_view d) @ [stored_tx tx']"
      using st by (auto simp: settled_def split: option.splits)
    moreover have "t_providerID tx' = ?p" "t_providerID (stored_tx tx') = ?p"
      using same f stored_tx_kept [of tx'] by (auto simp: same_identity_def kept_tx_def)
    ultimately show ?thesis using res by (auto simp: foreign_kept_def)
  qed
  then show "t_providerID (pr_Transaction res) = ?p" and "foreign_kept ?p d d'" by simp_all
qed

lemma after_owner:
  assumes "sound d" and "clock_ok (e_now en)"
  shows "foreign_kept (er_ProviderID (pc_Request cmd)) d (after f (ProcessIn sv pgStore en cmd) d)"
  by (rule after_cases) (use ProcessIn_owner(2) [OF assms] in auto)

lemma Process_owner:
  assumes "Process sv pgStore first second cmd d = (r, d')" and "sound d"
    and "clock_ok (e_now (snd first))" and "clock_ok (e_now (snd second))"
  shows "foreign_kept (er_ProviderID (pc_Request cmd)) d d'"
    and "r = Inr res \<Longrightarrow> t_providerID (pr_Transaction res) = er_ProviderID (pc_Request cmd)"
proof -
  obtain f1 en1 f2 en2 where fs: "first = (f1, en1)" "second = (f2, en2)" by (cases first; cases second)
  define s where "s = after f1 (ProcessIn sv pgStore en1 cmd) d"
  have a: "sys_step sv d s" unfolding s_def using assms(3) fs by (intro sys_step.processed) simp
  have s: "sound s" using sys_step_sound [OF a assms(2)] by blast
  have k: "foreign_kept (er_ProviderID (pc_Request cmd)) d s"
    unfolding s_def using after_owner [OF assms(2)] assms(3) fs by simp
  obtain r1 where r1: "uow_Do f1 (ProcessIn sv pgStore en1 cmd) d = (r1, s)"
    by (cases "uow_Do f1 (ProcessIn sv pgStore en1 cmd) d") (simp add: s_def after_def)
  have "d' = s \<or> d' = after f2 (ProcessIn sv pgStore en2 cmd) s"
    using assms(1) unfolding Process_def Let_def fs prod.case obind_apply otry_apply r1
    by (auto simp: after_def ok_def fail_def split: sum.splits if_splits)
  then show "foreign_kept (er_ProviderID (pc_Request cmd)) d d'"
    using k after_owner [OF s, of en2] assms(4) fs foreign_kept_trans by auto
  show "t_providerID (pr_Transaction res) = er_ProviderID (pc_Request cmd)" if "r = Inr res"
  proof -
    have "Process sv pgStore first second cmd d = (Inr res, d')" using assms(1) that by simp
    then obtain en' u where u: "(sys_step sv)\<^sup>*\<^sup>* d u" "clock_ok (e_now en')"
      "ProcessIn sv pgStore en' cmd u = (Inr res, d')"
      by (rule Process_run [OF _ assms(3,4)])
    show ?thesis using ProcessIn_owner(1) [OF _ u(2,3)] steps_sound [OF u(1) assms(2)] by blast
  qed
qed

lemma ToRequest_provider: "ToRequest parse i = Inr req \<Longrightarrow> er_ProviderID req = in_ProviderID i"
proof -
  assume "ToRequest parse i = Inr req"
  then obtain pl w m where "NewExternalRequest (in_ProviderID i) (in_ExternalTransactionID i) pl w
      (in_RoundID i) (in_GameID i) (in_Kind i) m (in_ReferenceExternalTransactionID i) = Inr req"
    by (auto simp: ToRequest_def split: option.splits sum.splits)
  then have "er_ProviderID req = er_ProviderID \<lparr>er_ProviderID = in_ProviderID i,
      er_ExternalTransactionID = in_ExternalTransactionID i, er_PlayerID = pl, er_WalletID = w,
      er_RoundID = in_RoundID i, er_GameID = in_GameID i, er_Kind = er_Kind req, er_Money = m,
      er_Reference = in_ReferenceExternalTransactionID i\<rparr>"
    unfolding NewExternalRequest_Inr by (intro arg_cong [where f = er_ProviderID]) blast
  then show ?thesis by simp
qed

subsection \<open>A request from its route to its handler\<close>

text \<open>What an answer to a caller, or its effect, presumes of the token of the caller.\<close>

definition confidential :: "Body \<Rightarrow> bool" where
  "confidential b \<longleftrightarrow>
    (case b of
       WalletBody w \<Rightarrow> True | LedgerBody es c \<Rightarrow> True | ReconciliationBody c \<Rightarrow> True
     | TransactionBody t \<Rightarrow> True | _ \<Rightarrow> False)"

lemma confidential_simps [simp]: "is_error b \<Longrightarrow> \<not> confidential b" "\<not> confidential (PlainBody x)" "\<not> confidential MetricsBody"
  by (auto simp: confidential_def is_error_def split: Body.splits)

definition entitled :: "Principal \<Rightarrow> Route \<Rightarrow> Response \<Rightarrow> db \<Rightarrow> db \<Rightarrow> bool" where
  "entitled p rt rs d d' \<longleftrightarrow> may_see p (rs_Body rs) \<and>
    (d' = d \<or> (rt = OpenWalletRoute \<and> IsInternal p) \<or>
     (rt = PostTransactionRoute \<and> IsProvider p \<and> foreign_kept (pp_ProviderID p) d d'))"

lemma authenticateE:
  assumes "authenticate s h hc cx r d = (rs, d')"
  obtains e where "FromRequest (sr_verifier s) (rq_Header r ''Authorization'') = Inl e"
      and "is_error (rs_Body rs)" and "rs_Status rs = 401" and "d' = d"
  | p where "FromRequest (sr_verifier s) (rq_Header r ''Authorization'') = Inr p"
      and "h hc (cx\<lparr>cx_principal := Some p\<rparr>) r d = (rs, d')"
  using assms by (auto simp: authenticate_def split: sum.splits)

lemma requireRoleE:
  assumes "requireRole role h hc cx r d = (rs, d')"
  obtains "is_error (rs_Body rs)" and "d' = d"
  | "HasRole (PrincipalFrom cx) role" and "role = RoleProvider \<Longrightarrow> pp_ProviderID (PrincipalFrom cx) \<noteq> ''''"
      and "h hc cx r d = (rs, d')"
  using assms by (auto simp: requireRole_def Let_def split: if_splits)

lemma PrincipalFrom_with [simp]: "PrincipalFrom (cx\<lparr>cx_principal := Some p\<rparr>) = p"
  by (simp add: PrincipalFrom_def)

lemma postTransaction_entitled:
  assumes "postTransaction s hc cx r d = (rs, d')" and "sound d" and "sr_store s = pgStore"
    and "clock_ok (e_now (snd (hc_first hc)))" and "clock_ok (e_now (snd (hc_again hc)))"
    and "IsProvider (PrincipalFrom cx)"
  shows "may_see (PrincipalFrom cx) (rs_Body rs) \<and> foreign_kept (pp_ProviderID (PrincipalFrom cx)) d d'"
  using assms(1,6)
  by (auto simp: postTransaction_def Let_def assms(3) split: option.splits sum.splits if_splits
      elim!: answerE dest!: ToRequest_provider
      dest: Process_owner(1) [OF _ assms(2,4,5)] Process_owner(2) [OF _ assms(2,4,5) refl])

lemma getTransaction_entitled:
  assumes "getTransaction s i hc cx r d = (rs, d')"
  shows "may_see (PrincipalFrom cx) (rs_Body rs)"
  using assms
  by (auto simp: getTransaction_def Let_def split: sum.splits if_splits elim!: answerE)

lemma getProviderTransaction_entitled:
  assumes "getProviderTransaction s p x hc cx r d = (rs, d')" and "sound d" and "sr_store s = pgStore"
  shows "may_see (PrincipalFrom cx) (rs_Body rs)"
proof -
  have "t_providerID t = p" if "GetTransactionByExternalID pgStore f p x d = (Inr t, d')" for f t
    using that by_ext_Some [OF soundD(3) [OF assms(2)]]
    by (auto simp: GetTransactionByExternalID_def uow_Do_Inr pgStore_simps
        pg_by_ext_eq [OF soundD(1) [OF assms(2)]] split: option.splits if_splits)
  then show ?thesis using assms(1)
    by (auto simp: getProviderTransaction_def Let_def assms(3) split: if_splits elim!: answerE)
qed

lemma dispatch_ok:
  assumes "dispatch s rt hc cx r d = (rs, d')" and "sound d" and "sr_store s = pgStore"
    and "clock_ok (e_now (snd (hc_first hc)))" and "clock_ok (e_now (snd (hc_again hc)))"
  shows "(sys_step (sr_svc s))\<^sup>*\<^sup>* d d' \<and> (\<not> confidential (rs_Body rs) \<and> d' = d \<or>
    (\<exists>p. FromRequest (sr_verifier s) (rq_Header r ''Authorization'') = Inr p \<and> entitled p rt rs d d'))"
proof (cases rt)
  case OpenWalletRoute
  then show ?thesis
    using assms(1) openWallet_steps [OF _ assms(3,4)]
    by (auto simp: entitled_def IsInternal_def elim!: authenticateE requireRoleE
        dest: reading_same [OF assms(2,3)])
next
  case PostTransactionRoute
  have "may_see p (rs_Body rs) \<and> foreign_kept (pp_ProviderID p) d d'"
    if "postTransaction s hc (cx\<lparr>cx_principal := Some p\<rparr>) r d = (rs, d')" and "IsProvider p" for p
    using postTransaction_entitled [OF that(1) assms(2-5)] that(2) by simp
  then show ?thesis
    using assms(1) PostTransactionRoute postTransaction_steps [OF _ assms(3,4,5)]
    by (auto simp: entitled_def IsProvider_def elim!: authenticateE requireRoleE)
next
  case (GetTransactionRoute i)
  have "may_see p (rs_Body rs) \<and> d' = d"
    if "getTransaction s i hc (cx\<lparr>cx_principal := Some p\<rparr>) r d = (rs, d')" for p
    using getTransaction_entitled [OF that] reading_same(4) [OF assms(2,3) that] by simp
  then show ?thesis
    using assms(1) GetTransactionRoute
    by (auto simp: entitled_def elim!: authenticateE)
next
  case (GetProviderTransactionRoute i x)
  have "may_see p (rs_Body rs) \<and> d' = d"
    if "getProviderTransaction s i x hc (cx\<lparr>cx_principal := Some p\<rparr>) r d = (rs, d')" for p
    using getProviderTransaction_entitled [OF that assms(2,3)] reading_same(5) [OF assms(2,3) that] by simp
  then show ?thesis
    using assms(1) GetProviderTransactionRoute
    by (auto simp: entitled_def elim!: authenticateE)
next
  case (GetWalletRoute i)
  then show ?thesis
    using assms(1)
    by (auto simp: entitled_def IsInternal_def elim!: authenticateE requireRoleE
        dest: reading_same [OF assms(2,3)])
next
  case (GetLedgerRoute i)
  then show ?thesis
    using assms(1)
    by (auto simp: entitled_def IsInternal_def elim!: authenticateE requireRoleE
        dest: reading_same [OF assms(2,3)])
next
  case (ReconcileRoute i)
  then show ?thesis
    using assms(1)
    by (auto simp: entitled_def IsInternal_def elim!: authenticateE requireRoleE
        dest: reading_same [OF assms(2,3)])
next
  case HealthLive
  then show ?thesis using assms(1) by (auto simp: live_def confidential_def)
next
  case HealthReady
  then show ?thesis using assms(1) by (auto simp: ready_def Let_def confidential_def)
next
  case MetricsRoute
  then show ?thesis using assms(1) by auto
qed

lemma serveE:
  assumes "serve s hc r d = (rs, d')"
  obtains (routed) m rt rs0 c where "route (rq_Segments r) = Some (m, rt)"
      and "rq_Method r = m \<or> m = ''GET'' \<and> rq_Method r = ''HEAD''"
      and "dispatch s rt hc \<lparr>cx_principal = None, cx_correlation = c\<rparr> r d = (rs0, d')"
      and "rs = add_header ''X-Correlation-Id'' c rs0"
  | (unrouted) x where "rs_Body rs = PlainBody x" and "d' = d"
proof -
  obtain c rs0 where m: "mux s hc \<lparr>cx_principal = None, cx_correlation = c\<rparr> r d = (rs0, d')"
    "rs = add_header ''X-Correlation-Id'' c rs0"
    using assms by (auto simp: serve_def correlation_def Let_def split: prod.splits if_splits)
  show ?thesis
  proof (cases "route (rq_Segments r)")
    case None
    then show ?thesis using m unrouted by (auto simp: mux_def)
  next
    case (Some q)
    then show ?thesis using m routed unrouted by (cases q) (auto simp: mux_def split: if_splits)
  qed
qed

lemma route_opens: "route segs = Some (m, OpenWalletRoute) \<Longrightarrow> m = ''POST'' \<and> segs = [''wallets'']"
  by (auto simp: route_def split: if_splits list.splits)

lemma route_posts:
  "route segs = Some (m, PostTransactionRoute) \<Longrightarrow> m = ''POST'' \<and> segs = [''wagering'', ''transactions'']"
  by (auto simp: route_def split: if_splits list.splits)

text \<open>C11. Nothing is disclosed to a caller without the right to it. On a reachable database, an
  answer that carries a wallet, a ledger, a reconciliation or a transaction is given only to a
  request whose bearer token verifies, and then: a caller with the internal role may see
  everything, a provider sees only transactions of its own provider identity, under whatever
  path, identifier or idempotency key it asks, and any other caller sees none.\<close>

theorem http_discloses_own:
  assumes "reachable (sr_svc s) d" and "sr_store s = pgStore"
    and "clock_ok (e_now (snd (hc_first hc)))" and "clock_ok (e_now (snd (hc_again hc)))"
    and "serve s hc r d = (rs, d')" and "confidential (rs_Body rs)"
  shows "\<exists>p. FromRequest (sr_verifier s) (rq_Header r ''Authorization'') = Inr p \<and>
    (IsInternal p \<or> (IsProvider p \<and>
      (\<exists>t. rs_Body rs = TransactionBody t \<and> tj_ProviderID t = pp_ProviderID p)))"
  using assms(5)
proof (cases rule: serveE)
  case (routed m rt rs0 c)
  then obtain p where "FromRequest (sr_verifier s) (rq_Header r ''Authorization'') = Inr p"
    "may_see p (rs_Body rs)"
    using dispatch_ok [OF routed(3) reachable_sound [OF assms(1)] assms(2-4)] assms(6)
    by (auto simp: entitled_def)
  then show ?thesis using assms(6) by (auto simp: may_see_def confidential_def split: Body.splits)
next
  case (unrouted x)
  then show ?thesis using assms(6) by simp
qed

text \<open>C10. Nothing is changed without authorization. Every request leads to a reachable database,
  and changes it only when it is a POST to one of two paths with a token that verifies: wallets
  are opened by a caller with the internal role; operations are processed for a caller with the
  provider role and a provider identity, and such a request leaves every transaction of every
  other provider as it was.\<close>

theorem http_changes_authorised:
  assumes "reachable (sr_svc s) d" and "sr_store s = pgStore"
    and "clock_ok (e_now (snd (hc_first hc)))" and "clock_ok (e_now (snd (hc_again hc)))"
    and "serve s hc r d = (rs, d')"
  shows "reachable (sr_svc s) d' \<and>
    (d' = d \<or>
     (rq_Method r = ''POST'' \<and>
      (\<exists>p. FromRequest (sr_verifier s) (rq_Header r ''Authorization'') = Inr p \<and>
        (rq_Segments r = [''wallets''] \<and> IsInternal p \<or>
         rq_Segments r = [''wagering'', ''transactions''] \<and> IsProvider p \<and>
         foreign_kept (pp_ProviderID p) d d'))))"
  using assms(5)
proof (cases rule: serveE)
  case (routed m rt rs0 c)
  note k = dispatch_ok [OF routed(3) reachable_sound [OF assms(1)] assms(2-4)]
  have "reachable (sr_svc s) d'" using k reachable_steps [OF assms(1)] by blast
  moreover have "d' = d \<or> (rq_Method r = ''POST'' \<and>
      (\<exists>p. FromRequest (sr_verifier s) (rq_Header r ''Authorization'') = Inr p \<and>
        (rq_Segments r = [''wallets''] \<and> IsInternal p \<or>
         rq_Segments r = [''wagering'', ''transactions''] \<and> IsProvider p \<and>
         foreign_kept (pp_ProviderID p) d d')))"
    using k routed(1,2) by (auto simp: entitled_def dest!: route_opens route_posts)
  ultimately show ?thesis by simp
next
  case (unrouted x)
  then show ?thesis using assms(1) by simp
qed

subsection \<open>An operation that is repeated\<close>

definition correlation_of :: "HttpCall \<Rightarrow> Request \<Rightarrow> string" where
  "correlation_of hc r =
    (let c = rq_Header r ''X-Correlation-Id''
     in if c = '''' \<or> length c > 128 then hc_correlation hc else c)"

definition http_command :: "HttpCall \<Rightarrow> Request \<Rightarrow> ExternalRequest \<Rightarrow> ProcessCommand" where
  "http_command hc r req =
    \<lparr>pc_Request = req, pc_IdempotencyKey = rq_Header r ''Idempotency-Key'',
     pc_CorrelationID = correlation_of hc r, pc_Source = ''http''\<rparr>"

definition http_answer :: "HttpCall \<Rightarrow> Request \<Rightarrow> ProcessResult \<Rightarrow> Response" where
  "http_answer hc r res =
    add_header ''X-Correlation-Id'' (correlation_of hc r)
      (writeJSON (statusCodeFor (pr_Transaction res))
        (TransactionBody (toTransactionResponse (pr_Transaction res) (pr_IdempotentReplay res))))"

text \<open>A request that is processed, from the header to the command and back.\<close>

definition posts_command :: "'s Server \<Rightarrow> Request \<Rightarrow> ExternalRequest \<Rightarrow> bool" where
  "posts_command s r req \<longleftrightarrow>
    rq_Method r = ''POST'' \<and> rq_Segments r = [''wagering'', ''transactions''] \<and>
    (\<exists>p i. FromRequest (sr_verifier s) (rq_Header r ''Authorization'') = Inr p \<and> IsProvider p \<and>
      rq_Header r ''Idempotency-Key'' \<noteq> '''' \<and> decodeJSON (sr_jsonTransaction s) r = Some i \<and>
      in_ProviderID i = pp_ProviderID p \<and> ToRequest (sr_parseUUID s) i = Inr req)"

lemma posts_route: "route [''wagering'', ''transactions''] = Some (''POST'', PostTransactionRoute)"
  by (simp add: route_def)

lemma serve_posts_eq:
  assumes "posts_command s r req"
  shows "serve s hc r d =
    (case Process (sr_svc s) (sr_store s) (hc_first hc) (hc_again hc) (http_command hc r req) d of
       (Inl e, d') \<Rightarrow> (add_header ''X-Correlation-Id'' (correlation_of hc r) (writeAppError r e), d')
     | (Inr res, d') \<Rightarrow> (http_answer hc r res, d'))"
proof -
  obtain p i where p: "FromRequest (sr_verifier s) (rq_Header r ''Authorization'') = Inr p" "IsProvider p"
    "rq_Header r ''Idempotency-Key'' \<noteq> ''''" "decodeJSON (sr_jsonTransaction s) r = Some i"
    "in_ProviderID i = pp_ProviderID p" "ToRequest (sr_parseUUID s) i = Inr req"
    and r: "rq_Method r = ''POST''" "rq_Segments r = [''wagering'', ''transactions'']"
    using assms(1) by (auto simp: posts_command_def)
  have "postTransaction s hc \<lparr>cx_principal = Some p, cx_correlation = correlation_of hc r\<rparr> r d =
      (case Process (sr_svc s) (sr_store s) (hc_first hc) (hc_again hc) (http_command hc r req) d of
         (Inl e, d') \<Rightarrow> (writeAppError r e, d')
       | (Inr res, d') \<Rightarrow> (writeJSON (statusCodeFor (pr_Transaction res))
        (TransactionBody (toTransactionResponse (pr_Transaction res) (pr_IdempotentReplay res))), d'))"
    using p by (simp add: postTransaction_def Let_def PrincipalFrom_def answer_def http_command_def)
  then show ?thesis
    using p(1,2) unfolding serve_def correlation_def mux_def r posts_route
    by (simp add: Let_def authenticate_def requireRole_def PrincipalFrom_def IsProvider_def
        http_answer_def correlation_of_def split: prod.splits sum.splits)
qed

lemma serve_posts:
  assumes "posts_command s r req"
    and "Process (sr_svc s) (sr_store s) (hc_first hc) (hc_again hc) (http_command hc r req) d = (Inr res, d')"
  shows "serve s hc r d = (http_answer hc r res, d')"
  by (simp add: serve_posts_eq [OF assms(1)] assms(2))

lemma not_error_transaction: "is_error b \<Longrightarrow> b \<noteq> TransactionBody t"
  by (auto simp: is_error_def)

lemma writeAppError_transaction [simp]: "rs_Body (writeAppError r e) \<noteq> TransactionBody t"
  by (rule not_error_transaction) simp

lemma PrincipalFrom_context [simp]: "PrincipalFrom \<lparr>cx_principal = Some p, cx_correlation = c\<rparr> = p"
  by (simp add: PrincipalFrom_def)

lemma serve_postsE:
  assumes "serve s hc r d = (rs, d')" and "rs_Body rs = TransactionBody t"
    and "rq_Method r = ''POST''" and "rq_Segments r = [''wagering'', ''transactions'']"
  obtains req res where "posts_command s r req"
    and "Process (sr_svc s) (sr_store s) (hc_first hc) (hc_again hc) (http_command hc r req) d = (Inr res, d')"
    and "rs = http_answer hc r res"
proof -
  obtain rs0 where a: "authenticate s (requireRole RoleProvider (postTransaction s)) hc
      \<lparr>cx_principal = None, cx_correlation = correlation_of hc r\<rparr> r d = (rs0, d')"
    and rs: "rs = add_header ''X-Correlation-Id'' (correlation_of hc r) rs0"
    using assms(1) unfolding serve_def correlation_def mux_def assms(4) posts_route
    by (auto simp: Let_def correlation_of_def assms(3) split: prod.splits)
  have b: "rs_Body rs0 = TransactionBody t" using assms(2) rs by simp
  from a show ?thesis
  proof (cases rule: authenticateE)
    case (1 e)
    then show ?thesis using b not_error_transaction by auto
  next
    case (2 p)
    from 2(2) show ?thesis
    proof (cases rule: requireRoleE)
      case 1
      then show ?thesis using b not_error_transaction by auto
    next
      case 3: 2
      then obtain i req where c: "rq_Header r ''Idempotency-Key'' \<noteq> ''''"
        "decodeJSON (sr_jsonTransaction s) r = Some i" "in_ProviderID i = pp_ProviderID p"
        "ToRequest (sr_parseUUID s) i = Inr req"
        "answer r (Process (sr_svc s) (sr_store s) (hc_first hc) (hc_again hc) (http_command hc r req))
          (\<lambda>res. writeJSON (statusCodeFor (pr_Transaction res)) (TransactionBody
            (toTransactionResponse (pr_Transaction res) (pr_IdempotentReplay res)))) d = (rs0, d')"
        using b by (auto simp: postTransaction_def Let_def http_command_def
            split: if_splits option.splits sum.splits)
      have pc: "posts_command s r req"
        using 2(1) 3(1,2) c(1-4) assms(3,4) by (auto simp: posts_command_def IsProvider_def)
      from c(5) show ?thesis
      proof (cases rule: answerE)
        case (1 e)
        then show ?thesis using b by simp
      next
        case (2 res)
        then show ?thesis using that [OF pc] rs by (simp add: http_answer_def)
      qed
    qed
  qed
qed

lemma posts_command_again:
  assumes "posts_command s r req" and "rq_Method r' = rq_Method r" and "rq_Segments r' = rq_Segments r"
    and "rq_Body r' = rq_Body r" and "rq_Header r' ''Authorization'' = rq_Header r ''Authorization''"
    and "rq_Header r' ''Idempotency-Key'' = rq_Header r ''Idempotency-Key''"
  shows "posts_command s r' req"
  using assms by (auto simp: posts_command_def decodeJSON_def)

lemma statusCodeFor_terminal: "statusCodeFor t \<noteq> 202 \<longleftrightarrow> IsTerminal (t_status t)"
  by (cases "t_status t") (simp_all add: statusCodeFor_def IsTerminal_def)

text \<open>The first answer again: everything but the times, which the table keeps in microseconds, and the
  currency of the balance, which is read as that of the operation.\<close>

definition replays :: "transactionResponse \<Rightarrow> transactionResponse \<Rightarrow> bool" where
  "replays t' t \<longleftrightarrow>
    t' = t\<lparr>tj_IdempotentReplay := True,
      tj_Balance := map_option (\<lambda>j. j\<lparr>j_currency := j_currency (tj_Money t)\<rparr>) (tj_Balance t),
      tj_NextReferenceRetryAt := tj_NextReferenceRetryAt t', tj_CreatedAt := tj_CreatedAt t',
      tj_UpdatedAt := tj_UpdatedAt t', tj_ProcessedAt := tj_ProcessedAt t'\<rparr>"

lemma kept_replays:
  "kept_tx t u \<Longrightarrow> \<forall>b. t_resultBalance u = Some b \<longrightarrow> m_currency b = m_currency (t_money u) \<Longrightarrow> replays (toTransactionResponse u True) (toTransactionResponse t y) \<and>
    statusCodeFor u = statusCodeFor t"
  by (cases "t_resultBalance t"; cases "t_resultBalance u")
    (auto simp: kept_tx_def replays_def toTransactionResponse_def statusCodeFor_def ToJSON_def Amount_def)


subsection \<open>A server on concrete values\<close>

definition demo_token :: "string \<Rightarrow> IDToken option" where
  "demo_token raw =
    (if raw = ''prov'' then
       Some \<lparr>it_Subject = ''s1'', it_Expiry = 0, it_claims = Some
         \<lparr>cl_ClientID = ''c1'', cl_ProviderID = ''prov'', cl_Roles = [''provider'']\<rparr>\<rparr>
     else if raw = ''ops'' then
       Some \<lparr>it_Subject = ''s2'', it_Expiry = 0, it_claims = Some
         \<lparr>cl_ClientID = ''c2'', cl_ProviderID = '''', cl_Roles = [''internal'']\<rparr>\<rparr>
     else None)"

definition demo_server :: "db Server" where
  "demo_server =
    \<lparr>sr_svc = demo_sv, sr_store = pgStore,
     sr_verifier = \<lparr>vf_cfg = \<lparr>Issuer = ''i'', JWKSURL = ''j'', Audience = ''a''\<rparr>, vf_verify = demo_token\<rparr>,
     sr_checks = [''postgres'', ''sqs'', ''oidc''],
     sr_parseUUID = (\<lambda>v. if v = ''p'' then Some 5 else if v = ''w'' then Some 7
        else if v = ''t'' then Some 20 else None),
     sr_jsonOpen = (\<lambda>b. Some \<lparr>ow_PlayerID = ''p'', ow_InitialBalance = \<lparr>j_amount = b, j_currency = ''BRL''\<rparr>\<rparr>),
     sr_jsonTransaction = (\<lambda>b. Some
       \<lparr>in_ProviderID = ''prov'', in_ExternalTransactionID = b, in_PlayerID = ''p'', in_WalletID = ''w'',
        in_RoundID = ''r'', in_GameID = ''g'', in_Kind = ''BET'',
        in_Money = \<lparr>j_amount = ''30.00'', j_currency = ''BRL''\<rparr>,
        in_ReferenceExternalTransactionID = ''''\<rparr>)\<rparr>"

definition demo_call :: "time \<Rightarrow> uuid \<Rightarrow> HttpCall" where
  "demo_call now i =
    \<lparr>hc_correlation = ''c'', hc_walletID = 7, hc_first = (no_faults, demo_env now i),
     hc_again = (no_faults, demo_env now (i + 5)), hc_ready = (\<lambda>_. None)\<rparr>"

definition demo_http :: "string \<Rightarrow> string list \<Rightarrow> string \<Rightarrow> string \<Rightarrow> Request" where
  "demo_http method segs token body =
    \<lparr>rq_Method = method, rq_Segments = segs,
     rq_Header = (\<lambda>h. if h = ''Authorization'' then ''Bearer '' @ token
       else if h = ''Idempotency-Key'' then body else ''''),
     rq_Query = (\<lambda>_. ''''), rq_Body = body\<rparr>"

definition demo_bet :: Request where
  "demo_bet = demo_http ''POST'' [''wagering'', ''transactions''] ''prov'' ''x''"

lemma demo_command: "posts_command demo_server demo_bet (demo_request ''x'' KindBet 3000 '''')"
proof -
  have "case FromRequest (sr_verifier demo_server) (rq_Header demo_bet ''Authorization'') of
      Inl e \<Rightarrow> False | Inr p \<Rightarrow> IsProvider p \<and> pp_ProviderID p = ''prov''"
    by code_simp
  moreover have "case sr_jsonTransaction demo_server ''x'' of None \<Rightarrow> False
    | Some i \<Rightarrow> in_ProviderID i = ''prov'' \<and>
        ToRequest (sr_parseUUID demo_server) i = Inr (demo_request ''x'' KindBet 3000 '''')"
    by code_simp
  moreover have "decodeJSON dec demo_bet = dec ''x''" for dec :: "string \<Rightarrow> TransactionRequest option"
    by (simp add: decodeJSON_def demo_bet_def demo_http_def)
  moreover have "rq_Method demo_bet = ''POST''" "rq_Segments demo_bet = [''wagering'', ''transactions'']"
    "rq_Header demo_bet ''Idempotency-Key'' = ''x''"
    by code_simp+
  ultimately show ?thesis
    by (auto simp: posts_command_def split: option.splits sum.splits)
qed

lemma demo_served:
  obtains res where "serve demo_server (demo_call 2000000000 20) demo_bet db1 =
      (http_answer (demo_call 2000000000 20) demo_bet res, db2)"
    and "statusCodeFor (pr_Transaction res) = 200"
proof -
  have k: "http_command (demo_call 2000000000 20) demo_bet (demo_request ''x'' KindBet 3000 '''')
      = demo_cmd ''x'' KindBet 3000 ''''"
    by code_simp
  obtain x where x: "ProcessIn demo_sv pgStore (demo_env 2000000000 20) (demo_cmd ''x'' KindBet 3000 '''') db1
      = (Inr x, db2)"
    by (rule ends_inE [OF db2_run])
  have s: "case fst (ProcessIn demo_sv pgStore (demo_env 2000000000 20) (demo_cmd ''x'' KindBet 3000 '''') db1) of
      Inl e \<Rightarrow> False | Inr x \<Rightarrow> statusCodeFor (pr_Transaction x) = 200"
    by code_simp
  show ?thesis
  proof (rule that [of x])
    show "serve demo_server (demo_call 2000000000 20) demo_bet db1 =
        (http_answer (demo_call 2000000000 20) demo_bet x, db2)"
      by (rule serve_posts [OF demo_command], unfold k)
        (simp add: demo_server_def demo_call_def Process_first [OF x])
    show "statusCodeFor (pr_Transaction x) = 200" using s x by simp
  qed
qed

lemma demo_server_simps: "sr_svc demo_server = demo_sv" "sr_store demo_server = pgStore"
  by (simp_all add: demo_server_def)

lemma demo_call_clocks:
  "clock_ok (e_now (snd (hc_first (demo_call 2000000000 i))))"
  "clock_ok (e_now (snd (hc_again (demo_call 2000000000 i))))"
  by (simp_all add: demo_call_def demo_clock)

lemma http_answer_body: "\<exists>t. rs_Body (http_answer hc r res) = TransactionBody t"
  by (simp add: http_answer_def)

theorem http_discloses_own_witness:
  "\<exists>p. FromRequest (sr_verifier demo_server) (rq_Header demo_bet ''Authorization'') = Inr p \<and>
    (IsInternal p \<or> (IsProvider p \<and> pp_ProviderID p \<noteq> ''''))"
proof -
  obtain res where r: "serve demo_server (demo_call 2000000000 20) demo_bet db1 =
      (http_answer (demo_call 2000000000 20) demo_bet res, db2)"
    by (rule demo_served)
  have c: "confidential (rs_Body (http_answer (demo_call 2000000000 20) demo_bet res))"
    by (simp add: http_answer_def confidential_def)
  show ?thesis
    using http_discloses_own [OF _ demo_server_simps(2) demo_call_clocks r c] db1_reachable
    by (auto simp: demo_server_simps IsProvider_def)
qed

theorem http_changes_authorised_witness:
  "reachable demo_sv db2 \<and>
    (\<exists>p. FromRequest (sr_verifier demo_server) (rq_Header demo_bet ''Authorization'') = Inr p \<and>
      (IsInternal p \<or> IsProvider p \<and> foreign_kept (pp_ProviderID p) db1 db2))"
proof -
  obtain res where r: "serve demo_server (demo_call 2000000000 20) demo_bet db1 =
      (http_answer (demo_call 2000000000 20) demo_bet res, db2)"
    by (rule demo_served)
  have "length (db_txs db1) \<noteq> length (db_txs db2)" by code_simp
  then have "db2 \<noteq> db1" by metis
  then show ?thesis
    using http_changes_authorised [OF _ demo_server_simps(2) demo_call_clocks r] db1_reachable
    by (auto simp: demo_server_simps)
qed


subsection \<open>The contract of errors\<close>

text \<open>C21. What the two channels make of an error. The consumer dead-letters exactly the errors that
  HTTP answers with a 4xx status, except nine, which it retries: the overflow and the errors of
  amounts, currencies and cursors (400), an unknown transaction (404), a wallet that exists and the
  two lost races (409); of these an operation can meet the overflow, which HTTP alone takes for
  final, and the races, which both channels ask to repeat. What HTTP answers with 5xx the consumer
  retries, but for the note that the message has been processed, which it acknowledges; a 503, and
  only a 503, carries Retry-After; and 500 is answered exactly to the errors of PostgreSQL with a
  code that is not transient.\<close>

theorem error_contract:
  "let rs = writeAppError r e in
    rs_Status rs \<in> {400, 404, 409, 422, 500, 503} \<and>
    (classify (Some e) = outcomePermanent \<longleftrightarrow> rs_Status rs < 500 \<and>
      e \<notin> {ErrOverflow, ErrInvalidAmount, ErrInvalidCurrency, ErrNegativeAmount, ErrInvalidCursor,
           ErrTransactionNotFound, ErrWalletExists, ErrDuplicateTransaction, ErrConcurrentModification}) \<and>
    (classify (Some e) = outcomeDone \<longleftrightarrow> e = ErrAlreadyProcessed) \<and>
    (rs_Status rs = 503 \<longleftrightarrow> ''Retry-After'' \<in> fst ` set (rs_Headers rs)) \<and>
    (rs_Status rs = 500 \<longleftrightarrow> (\<exists>code c. e = ErrPg code c \<and> code \<notin> set transient_codes))"
proof (cases "IsTransient (Some e)")
  case True
  then show ?thesis
    by (cases e) (auto simp: writeAppError_def writeError_def writeJSON_def add_header_def classify_def
        IsNotFound_def IsTransient_def)
next
  case False
  then show ?thesis
    by (cases e) (auto simp: writeAppError_def writeError_def writeJSON_def add_header_def classify_def
        IsNotFound_def IsTransient_def split: if_splits)
qed

theorem error_contract_witness:
  "rs_Status (writeAppError demo_bet (ErrPg ''23514'' ''x'')) = 500"
  using error_contract [of demo_bet "ErrPg ''23514'' ''x''"] by (simp add: Let_def transient_codes_def)

end
