(* ===== verification/Pending.thy ===== *)
theory Pending
  imports Queries
begin

text \<open>
  The units of work of the use cases against the policy, on the PostgreSQL model, and the pass of
  the pending reference worker: it ends, and what it leaves.
\<close>

definition payload_hash :: "Service \<Rightarrow> ProcessCommand \<Rightarrow> string" where
  "payload_hash sv cmd = PayloadHash (sv_uuid_string sv) (sv_sha256_hex sv) (pc_Request cmd)"

definition process_step :: "Service \<Rightarrow> env \<Rightarrow> ProcessCommand \<Rightarrow> View \<Rightarrow> ProcessResult \<Rightarrow> View \<Rightarrow> bool" where
  "process_step sv en cmd v res v' \<longleftrightarrow>
    replay_step v (payload_hash sv cmd) cmd res v' \<or>
    new_step stored_wallet stored_tx stored_entry sv en v (payload_hash sv cmd) cmd res v'"

text \<open>One retry while the transactions of some ids are locked by others.\<close>

definition pending_step :: "Service \<Rightarrow> uuid list \<Rightarrow> env \<Rightarrow> time \<Rightarrow> View \<Rightarrow> bool \<Rightarrow> View \<Rightarrow> bool" where
  "pending_step sv locked en claimNow v found v' \<longleftrightarrow>
    (let free = (\<lambda>t. t_id t \<notin> set locked) in
     if found then retry_step stored_wallet stored_tx stored_entry free sv en v claimNow v'
     else v' = v \<and> (\<forall>t \<in> set (v_txs v). due claimNow t \<longrightarrow> \<not> free t))"





subsection \<open>The pass ends\<close>

definition waiting :: "Transaction \<Rightarrow> bool" where
  "waiting t \<longleftrightarrow> t_status t = StatusPendingReference"

text \<open>The attempts that a transaction has left, and one more to end them.\<close>

definition attempts_left :: "int64 \<Rightarrow> Transaction \<Rightarrow> nat" where
  "attempts_left maxa t =
    (if waiting t then nat (sint maxa - sint (t_referenceAttempts t)) + 1 else 0)"

definition pending_work :: "Service \<Rightarrow> View \<Rightarrow> nat" where
  "pending_work sv v =
    sum_list (map (attempts_left (PendingReferenceMaxAttempts (sv_cfg sv))) (v_txs v))"

lemma sum_list_replace_less:
  assumes "distinct (map k xs)" and "x \<in> set xs" and "f y < (f x :: nat)"
  shows "sum_list (map f (map (\<lambda>u. if k u = k x then y else u) xs)) < sum_list (map f xs)"
  using assms(1,2)
proof (induction xs)
  case (Cons a xs)
  show ?case
  proof (cases "a = x")
    case True
    then have "\<forall>u \<in> set xs. k u \<noteq> k x"
      using Cons.prems(1) by (metis distinct.simps(2) image_eqI image_set list.simps(9))
    then have "map (\<lambda>u. if k u = k x then y else u) xs = xs" by (simp add: map_idI)
    then show ?thesis using True assms(3) by simp
  next
    case False
    then have "k a \<noteq> k x" using Cons.prems by auto
    then show ?thesis using Cons False by simp
  qed
qed simp

lemma sint_Suc64: "sint (a :: int64) < sint (b :: int64) \<Longrightarrow> sint (a + 1) = sint a + 1"
  using sint64_le [of b] sint64_ge [of a] sint_add64 [of a 1] by (simp add: fits64_def)

lemma waits_less:
  assumes "carry_out sv eid tx w now vd = Inr (entry, tx', w')" and "tx_inv tx" and "now \<noteq> 0"
    and "waiting tx" and "kept_tx tx' u"
  shows "attempts_left (PendingReferenceMaxAttempts (sv_cfg sv)) u <
    attempts_left (PendingReferenceMaxAttempts (sv_cfg sv)) tx"
proof -
  have u: "t_status u = t_status tx'" "t_referenceAttempts u = t_referenceAttempts tx'"
    using assms(5) by (simp_all add: kept_tx_def)
  show ?thesis
  proof (cases vd)
    case Wait
    then have "park sv tx w now = Inr tx'" using assms(1) by (auto simp: obind_Inr)
    from park_ok(4) [OF this assms(2,3)] show ?thesis
      using u assms(4) sint_Suc64 [of "t_referenceAttempts tx"]
      by (auto simp: attempts_left_def waiting_def)
  next
    case (Move d r c)
    then have m: "settle c (refer r tx) w now
        (move d w eid (t_id (refer r tx)) (t_money (refer r tx)) now) = Inr (entry, tx', w')"
      using assms(1) by simp
    note k = settle_ok [OF m refer_inv [OF assms(2)] assms(3)]
    have "t_status tx' \<noteq> StatusPendingReference"
      using k(1,2) by (cases entry) (auto simp: outcome_ok_def)
    then show ?thesis using u assms(4) by (simp add: attempts_left_def waiting_def)
  qed (use assms u in \<open>auto simp: attempts_left_def waiting_def MarkRejected_Inr MarkProcessed_Inr\<close>)
qed

lemma settled_txs: "settled sw se v entry w evs v' \<Longrightarrow> v_txs v' = v_txs v"
  by (auto simp: settled_def split: option.splits)

lemma retry_step_less:
  assumes "retry_step sw stx se free sv en v claimNow v'" and "view_ok v" and "e_now en \<noteq> 0"
    and "\<And>t. kept_tx t (stx t)"
  shows "pending_work sv v' < pending_work sv v"
proof -
  obtain w tx entry tx' w' evs where
    t: "tx \<in> set (v_txs v)" "due claimNow tx"
    and c: "carry_out sv (e_entryID en) tx w (e_now en) (verdict v tx w) = Inr (entry, tx', w')"
    and st: "settled sw se (v\<lparr>v_txs := map (\<lambda>u. if t_id u = t_id tx then stx tx' else u) (v_txs v)\<rparr>)
        entry w' evs v'"
    using assms(1) unfolding retry_step_def by blast
  have inv: "tx_inv tx" and d: "distinct (map t_id (v_txs v))"
    using assms(2) t(1) by (auto simp: view_ok_def unique_on_def)
  have w: "waiting tx" using t(2) by (simp add: due_def waiting_def)
  have "v_txs v' = map (\<lambda>u. if t_id u = t_id tx then stx tx' else u) (v_txs v)"
    using settled_txs [OF st] by simp
  then show ?thesis
    unfolding pending_work_def
    using sum_list_replace_less [OF d t(1) waits_less [OF c inv assms(3) w assms(4)]] by simp
qed

text \<open>C23. The pass ends. Whatever the clock reads and whatever faults its units of work meet, on a
  reachable database \<^verbatim>\<open>ResolvePendingReferences\<close> returns: each iteration either ends the pass
  or takes one of the attempts that the waiting transactions have left, and a bound of one more
  iteration than those attempts is enough.\<close>

theorem pending_pass_ends:
  assumes "reachable sv d" and "\<forall>n. clock_ok (e_now (i_env (its n)))"
    and "pending_work sv (pg_view d) < n"
  shows "\<exists>k e d'. ResolvePendingReferences n sv pgStore its handled d = Some (k, e, d') \<and>
    reachable sv d' \<and> k \<le> handled + pending_work sv (pg_view d)"
  using assms(1,3)
proof (induction n arbitrary: d handled)
  case (Suc n)
  let ?it = "its handled"
  let ?m = "resolveOne sv pgStore (i_claimNow ?it) (i_env ?it)"
  obtain r d1 where r: "uow_Do (i_faults ?it) ?m d = (r, d1)" by fastforce
  have clk: "clock_ok (e_now (i_env ?it))" using assms(2) by blast
  have "sys_step sv d (after (i_faults ?it) ?m d)" using sys_step.resolved [OF clk, where locked = "[]"] by simp
  then have d1: "reachable sv d1"
    using reachable_steps [OF Suc.prems(1)] r by (auto simp: after_def)
  show ?case
  proof (cases "i_ctxErr ?it = None \<and> r = Inr True")
    case True
    then have "retry_step stored_wallet stored_tx stored_entry (\<lambda>_. True) sv (i_env ?it) (pg_view d)
        (i_claimNow ?it) (pg_view d1)"
      using pg.resolveOne_Inr(2) [OF soundD(1) [OF reachable_sound [OF Suc.prems(1)]] clk] r
      by (fastforce simp: uow_Do_Inr)
    then have less: "pending_work sv (pg_view d1) < pending_work sv (pg_view d)"
      by (rule retry_step_less) (use clk soundD(3) [OF reachable_sound [OF Suc.prems(1)]] stored_tx_kept
        in \<open>auto simp: clock_ok_def\<close>)
    obtain k e d' where "ResolvePendingReferences n sv pgStore its (Suc handled) d1 = Some (k, e, d')"
      "reachable sv d'" "k \<le> Suc handled + pending_work sv (pg_view d1)"
      using Suc.IH [OF d1, of "Suc handled"] less Suc.prems(2) by auto
    then show ?thesis using True r less by (simp add: Let_def)
  next
    case False
    then show ?thesis
      using r d1 Suc.prems(1) by (auto simp: Let_def split: option.splits sum.splits)
  qed
qed simp

theorem pending_pass_ends_witness:
  "\<exists>k e d'. ResolvePendingReferences 100 demo_sv pgStore
      (\<lambda>n. \<lparr>i_ctxErr = None, i_claimNow = 5000000000, i_env = demo_env 5000000000 (of_nat n * 10),
        i_faults = no_faults\<rparr>) 0 db3 = Some (k, e, d') \<and> reachable demo_sv d' \<and> k \<le> 99"
proof -
  have w: "pending_work demo_sv (pg_view db3) < 100" by code_simp
  have c: "\<forall>n. clock_ok (e_now (i_env (\<lparr>i_ctxErr = None, i_claimNow = 5000000000,
      i_env = demo_env 5000000000 (of_nat (n :: nat) * 10), i_faults = no_faults\<rparr>)))"
    by (simp add: demo_clock)
  from pending_pass_ends [OF db3_reachable c w, of 0] w show ?thesis by fastforce
qed

end
