(* ===== verification/ErrorSets.thy ===== *)
theory ErrorSets
  imports Idempotency
begin

text \<open>
  Which errors an operation can return. \<^verbatim>\<open>errAlreadyProcessed\<close> is private to the package of the
  consumer: no operation of the use cases or of the store returns it, so the consumer that sees it
  knows that it comes from its own inbox test.
\<close>

definition clean :: "error + 'a \<Rightarrow> bool" where
  "clean r \<longleftrightarrow> r \<noteq> Inl ErrAlreadyProcessed"

definition clean_op :: "('s, 'a) op \<Rightarrow> bool" where
  "clean_op m \<longleftrightarrow> (\<forall>s. clean (fst (m s)))"

named_theorems clean_intros

lemma clean_simps [simp]: "clean (Inr a)" "clean (Inl e) \<longleftrightarrow> e \<noteq> ErrAlreadyProcessed"
  by (simp_all add: clean_def)

lemma clean_rbind [clean_intros]: "clean r \<Longrightarrow> (\<And>a. clean (f a)) \<Longrightarrow> clean (rbind r f)"
  by (cases r) auto

lemma clean_check [simp]: "clean (check b e) \<longleftrightarrow> b \<or> e \<noteq> ErrAlreadyProcessed"
  by (simp add: check_def)

lemma clean_opI: "(\<And>s. clean (fst (m s))) \<Longrightarrow> clean_op m"
  by (simp add: clean_op_def)

lemma clean_opD: "clean_op m \<Longrightarrow> m s = (Inl e, s') \<Longrightarrow> e \<noteq> ErrAlreadyProcessed"
  unfolding clean_op_def by (metis clean_simps(2) fst_conv)

lemma clean_op_simps [simp]:
  "clean_op (ok a)" "clean_op (fail e) \<longleftrightarrow> e \<noteq> ErrAlreadyProcessed"
  "clean_op (lift r) \<longleftrightarrow> clean r"
  by (simp_all add: clean_op_def)

lemma clean_op_obind [clean_intros]: "clean_op m \<Longrightarrow> (\<And>a. clean_op (f a)) \<Longrightarrow> clean_op (obind m f)"
  unfolding clean_op_def obind_def by (auto split: prod.splits sum.splits) (metis clean_simps(2) fst_conv)

text \<open>The continuation of \<^verbatim>\<open>otry\<close> sees only errors of the operation.\<close>

lemma clean_op_otry [clean_intros]:
  assumes "clean_op m" and "\<And>r. clean r \<Longrightarrow> clean_op (f r)"
  shows "clean_op (obind (otry m) f)"
  using assms unfolding clean_op_def obind_def otry_def by (auto split: prod.splits) (metis fst_conv)

lemma clean_branches [clean_intros]:
  "(b \<Longrightarrow> clean x) \<Longrightarrow> (\<not> b \<Longrightarrow> clean y) \<Longrightarrow> clean (if b then x else y)"
  "(\<And>e. r = Inl e \<Longrightarrow> clean (f e)) \<Longrightarrow> (\<And>a. r = Inr a \<Longrightarrow> clean (g a)) \<Longrightarrow> clean (case r of Inl e \<Rightarrow> f e | Inr a \<Rightarrow> g a)"
  "clean n \<Longrightarrow> (\<And>a. clean (h a)) \<Longrightarrow> clean (case v of None \<Rightarrow> n | Some a \<Rightarrow> h a)"
  "(\<And>a b. clean (k a b)) \<Longrightarrow> clean (case p of (a, b) \<Rightarrow> k a b)"
  by (cases r; cases v; cases p; simp)+

lemma clean_op_branches [clean_intros]:
  "(b \<Longrightarrow> clean_op x) \<Longrightarrow> (\<not> b \<Longrightarrow> clean_op y) \<Longrightarrow> clean_op (if b then x else y)"
  "(\<And>e. r = Inl e \<Longrightarrow> clean_op (f e)) \<Longrightarrow> (\<And>a. r = Inr a \<Longrightarrow> clean_op (g a)) \<Longrightarrow>
    clean_op (case r of Inl e \<Rightarrow> f e | Inr a \<Rightarrow> g a)"
  "clean_op n \<Longrightarrow> (\<And>a. clean_op (h a)) \<Longrightarrow> clean_op (case v of None \<Rightarrow> n | Some a \<Rightarrow> h a)"
  "(\<And>a b. clean_op (k a b)) \<Longrightarrow> clean_op (case p of (a, b) \<Rightarrow> k a b)"
  by (cases r; cases v; cases p; simp)+

subsection \<open>The domain\<close>

lemma clean_domain [simp]:
  "clean (MarkProcessed t b now)" "clean (MarkRejected t c b now)" "clean (AwaitReference t r now)"
  "clean (ResolveReference t i)" "clean (validIdentifier x)"
  by (auto simp: MarkProcessed_def MarkRejected_def AwaitReference_def ResolveReference_def guard_def
      validIdentifier_def intro!: clean_rbind)

lemma clean_identifiers [simp]: "clean (validIdentifiers xs)"
  by (induction xs) (auto intro!: clean_rbind)

lemma clean_request [simp]: "clean (NewExternalRequest p x pl w r g k m ref)"
  unfolding NewExternalRequest_eq by (intro clean_intros) (auto simp: ParseKind_def)

lemma clean_NewExternal [simp]: "clean (NewExternal i q k h c now)"
  unfolding NewExternal_def by (intro clean_intros) simp_all

lemma clean_money [simp]: "clean (Money_Add a b)" "clean (Money_Sub a b)" "clean (FromMinor n c)"
  "clean (Compare a b)"
  unfolding Money_Add_def Money_Sub_def FromMinor_def ParseCurrency_def Compare_def check_pair_def Let_def
  by ((intro clean_intros | simp)+)

lemma clean_entry [simp]: "clean (NewLedgerEntry i w t d a b c now)"
  unfolding NewLedgerEntry_def ParseDirection_def by ((intro clean_intros | simp)+)

lemma clean_moves [simp]: "clean (Wallet_Debit w i t a now)" "clean (Wallet_Credit w i t a now)"
  unfolding Wallet_Debit_def Wallet_Credit_def validateMovement_def by ((intro clean_intros | simp)+)

lemma clean_park [simp]: "clean (park sv t w now)"
  by (simp add: park_def)

lemma clean_settle [simp]: "clean r \<Longrightarrow> clean (settle c t w now r)"
  unfolding settle_def by ((intro clean_intros | simp)+)

text \<open>The identifier generator fails with an error of its own.\<close>

definition gen_ok :: "idgen \<Rightarrow> bool" where
  "gen_ok g \<longleftrightarrow> (\<forall>e. g_eventID g = Inl e \<longrightarrow> e = ErrUUIDGenerator)"

lemma clean_events [simp]:
  assumes "gen_ok g"
  shows "clean (NewWagerTransactionProcessed us g t)" and "clean (NewWagerTransactionRejected us g t)"
    and "clean (NewWalletBalanceChanged us g e n c)" and "clean (NewWagerTransactionPendingReference us g t)"
proof -
  have g: "clean (g_eventID g)" using assms by (auto simp: gen_ok_def clean_def)
  have n: "clean (newEvent g ty v at ai ci ca oc da)" for ty v at ai ci ca oc da
    unfolding newEvent_def Let_def using g by ((intro clean_intros | simp)+)
  show "clean (NewWagerTransactionProcessed us g t)" and "clean (NewWagerTransactionRejected us g t)"
    and "clean (NewWalletBalanceChanged us g e n c)" and "clean (NewWagerTransactionPendingReference us g t)"
    unfolding NewWagerTransactionProcessed_def NewWagerTransactionRejected_def
      NewWalletBalanceChanged_def NewWagerTransactionPendingReference_def
    using n by ((intro clean_intros | simp)+)
qed

subsection \<open>The store\<close>

lemma text_error_clean [simp]: "text_error \<noteq> ErrAlreadyProcessed"
  by (simp add: text_error_def)

lemma clean_sql [simp]:
  "clean (fst (sql_insert_wallet r d))" "clean (fst (sql_update_wallet i b v u e d))"
  "clean (fst (sql_insert_tx t d))" "clean (fst (sql_update_tx i upd d))"
  "clean (fst (sql_insert_ledger l d))"
  unfolding sql_insert_wallet_def sql_update_wallet_def sql_insert_tx_def sql_update_tx_def
    sql_insert_ledger_def Let_def
  by (simp_all split: option.splits)

lemma clean_rehydrate [simp]: "clean (Rehydrate s)" "clean (Wallet_Rehydrate i p m v c u)"
  unfolding Rehydrate_def Wallet_Rehydrate_def ParseStatus_def ParseKind_def Let_def
  by ((intro clean_intros | simp)+)

lemma clean_scan [simp]: "clean (transactionRepo_scan r)" "clean (walletRepo_scan w)"
  unfolding transactionRepo_scan_def walletRepo_scan_def by ((intro clean_intros | simp)+)

lemma clean_unique [simp]:
  assumes "clean (fst p)" and "e' \<noteq> ErrAlreadyProcessed" and "\<And>a. clean (g a)"
  shows "clean (fst (case p of (Inl e, d) \<Rightarrow> (Inl (if b e then e' else e), d) | (Inr a, d) \<Rightarrow> (g a, d)))"
  using assms by (cases p) (auto split: sum.splits)

lemma clean_query [simp]: "clean_op (query_tx ps c)"
  by (rule clean_opI) (simp add: query_tx_def split: option.splits)

lemma clean_store [simp]:
  "clean_op (Wallets_GetForUpdate pgStore i)" "clean_op (Wallets_Update pgStore w v)"
  "clean_op (Transactions_Insert pgStore t)" "clean_op (Transactions_FindByIdempotencyKey pgStore p k)"
  "clean_op (Transactions_FindByExternalID pgStore p x)"
  "clean_op (Transactions_HasProcessedReversal pgStore i)"
  "clean_op (Ledger_Append pgStore e)" "clean_op (Outbox_Add pgStore ev)"
proof -
  have w: "clean (fst (case sql_update_wallet i b v u e d of (Inl e, d') \<Rightarrow> (Inl e, d')
      | (Inr n, d') \<Rightarrow> (if n \<noteq> 1 then Inl ErrConcurrentModification else Inr (), d')))" for i b v u e d
    using clean_sql(2) [of i b v u e d] by (cases "sql_update_wallet i b v u e d") (auto split: sum.splits)
  show "clean_op (Wallets_GetForUpdate pgStore i)" "clean_op (Wallets_Update pgStore w v)"
    "clean_op (Transactions_Insert pgStore t)" "clean_op (Transactions_FindByIdempotencyKey pgStore p k)"
    "clean_op (Transactions_FindByExternalID pgStore p x)"
    "clean_op (Transactions_HasProcessedReversal pgStore i)"
    "clean_op (Ledger_Append pgStore e)" "clean_op (Outbox_Add pgStore ev)"
    unfolding pgStore_simps
    by (simp_all add: clean_op_def walletRepo_GetForUpdate_def walletRepo_Update_def w
        transactionRepo_Insert_def transactionRepo_HasProcessedReversal_def ledgerRepo_Append_def
        outboxRepo_Add_def Marshal_def split: option.splits sum.splits)
      (simp_all add: transactionRepo_FindByIdempotencyKey_def transactionRepo_FindByExternalID_def
        clean_query [unfolded clean_op_def, rule_format])
qed

subsection \<open>Processing\<close>

lemma clean_lookup [simp]: "clean_op (lookupExisting pgStore cmd hash)"
  unfolding lookupExisting_def Let_def by ((intro clean_intros | simp)+)

lemma clean_resolve [simp]: "clean_op (resolveReferenceTx sv pgStore tx w now)"
  unfolding resolveReferenceTx_def Let_def by ((intro clean_intros | simp)+)

lemma clean_op_resolution [clean_intros]:
  "(\<And>t. clean_op (f t)) \<Longrightarrow> (\<And>t u. clean_op (g t u)) \<Longrightarrow>
    clean_op (case r of Done t \<Rightarrow> f t | Resolved t u \<Rightarrow> g t u)"
  by (cases r) simp_all

lemma clean_op_kind [clean_intros]:
  "clean_op a \<Longrightarrow> clean_op b \<Longrightarrow> clean_op c \<Longrightarrow> clean_op d \<Longrightarrow> clean_op e \<Longrightarrow> clean_op f \<Longrightarrow>
    clean_op (case k of KindOpening \<Rightarrow> a | KindBet \<Rightarrow> b | KindWin \<Rightarrow> c | KindLoss \<Rightarrow> d
      | KindRefund \<Rightarrow> e | KindRollback \<Rightarrow> f)"
  by (cases k) simp_all

lemma clean_op_status [clean_intros]:
  "clean_op a \<Longrightarrow> clean_op b \<Longrightarrow> clean_op c \<Longrightarrow> clean_op d \<Longrightarrow> clean_op e \<Longrightarrow>
    clean_op (case k of StatusPending \<Rightarrow> a | StatusPendingReference \<Rightarrow> b | StatusProcessed \<Rightarrow> c
      | StatusRejected \<Rightarrow> d | StatusFailed \<Rightarrow> e)"
  by (cases k) simp_all

lemma clean_apply [simp]: "clean_op (apply_tx sv pgStore eid tx w now)"
  unfolding apply_tx_def by ((intro clean_intros | simp)+)

lemma clean_persist [simp]:
  "gen_ok (e_balanceGen en) \<Longrightarrow> gen_ok (e_outcomeGen en) \<Longrightarrow> clean_op (persistOutcome sv pgStore en tx w entry)"
  unfolding persistOutcome_def by ((intro clean_intros | simp)+)

lemma clean_ProcessIn:
  assumes "gen_ok (e_balanceGen en)" and "gen_ok (e_outcomeGen en)"
  shows "clean_op (ProcessIn sv pgStore en cmd)"
  unfolding ProcessIn_def Let_def using assms by ((intro clean_intros | simp)+)

end
