(* ===== verification/Delivery.thy ===== *)
theory Delivery
  imports ErrorSets
begin

text \<open>
  The consumer of the provider queue, message by message: what the inbox means, when a message is
  deleted or dead-lettered, and why a redelivery is harmless.
\<close>

subsection \<open>What the inbox records\<close>

text \<open>The hash that the consumer records of the command that a transaction came from.\<close>

definition fingerprint :: "Service \<Rightarrow> Transaction \<Rightarrow> string" where
  "fingerprint sv t = sv_sha256_hex sv (t_payloadHash t @ ''|'' @ t_idempotencyKey t)"

definition backed :: "Service \<Rightarrow> View \<Rightarrow> string \<Rightarrow> bool" where
  "backed sv v h \<longleftrightarrow> (\<exists>t \<in> set (v_txs v). t_origin t = OriginExternal \<and> fingerprint sv t = h)"

definition inbox_backed :: "Service \<Rightarrow> View \<Rightarrow> bool" where
  "inbox_backed sv v \<longleftrightarrow> (\<forall>h \<in> ran (v_inbox v). backed sv v h)"

lemma backed_grows: "backed sv v h \<Longrightarrow> grows v v' \<Longrightarrow> backed sv v' h"
proof -
  assume b: "backed sv v h" and g: "grows v v'"
  obtain t where t: "t \<in> set (v_txs v)" "t_origin t = OriginExternal" "fingerprint sv t = h"
    using b by (auto simp: backed_def)
  obtain u where "u \<in> set (v_txs v')" "continues t u" using grows_txs [OF g t(1)] by blast
  then show ?thesis using t(2,3) unfolding backed_def fingerprint_def continues_def by metis
qed

lemma inbox_backed_grows:
  "inbox_backed sv v \<Longrightarrow> grows v v' \<Longrightarrow> v_inbox v' = v_inbox v \<Longrightarrow> inbox_backed sv v'"
  by (auto simp: inbox_backed_def intro: backed_grows)

lemma ProcessIn_backed:
  assumes "sound d" and "clock_ok (e_now en)" and "ProcessIn sv pgStore en cmd d = (Inr res, d')"
  shows "backed sv (pg_view d') (bodyHash sv (pc_Request cmd) (pc_IdempotencyKey cmd))"
    and "v_inbox (pg_view d') = v_inbox (pg_view d)"
proof -
  have v': "view_ok (pg_view d')" by (rule soundD(3) [OF ProcessIn_sound(1) [OF assms]])
  obtain t where t: "by_key (pg_view d') (er_ProviderID (pc_Request cmd)) (pc_IdempotencyKey cmd) = Some t"
    "t_payloadHash t = PayloadHash (sv_uuid_string sv) (sv_sha256_hex sv) (pc_Request cmd)"
    by (rule ProcessIn_stored [OF assms])
  then show "backed sv (pg_view d') (bodyHash sv (pc_Request cmd) (pc_IdempotencyKey cmd))"
    using by_key_Some [OF v'] by (auto simp: backed_def fingerprint_def bodyHash_def)
  show "v_inbox (pg_view d') = v_inbox (pg_view d)"
    using pg.ProcessIn_Inr(2) [OF soundD(1) [OF assms(1)] assms(2,3)]
    by (auto simp: replay_step_def new_step_def settled_def split: option.splits)
qed

lemma consumeIn_backed:
  assumes "sound d" and "clock_ok (e_now en)" and "inbox_backed sv (pg_view d)"
    and "h = bodyHash sv (pc_Request cmd) (pc_IdempotencyKey cmd)"
    and "consumeIn sv pgStore c m h t en cmd d = (Inr res, d')"
  shows "inbox_backed sv (pg_view d')" and "backed sv (pg_view d') h"
    and "v_inbox (pg_view d) (c, m) = None" and "v_inbox (pg_view d') (c, m) = Some h"
proof -
  obtain d1 r where i: "Inbox_Record pgStore c m h t d = (Inr r, d1)" and n: "ir_Inserted r"
    and p: "ProcessIn sv pgStore en cmd d1 = (Inr res, d')"
    using assms(5) by (rule consumeIn_Inr)
  note s1 = inbox_sound [OF assms(1) i]
  note b = ProcessIn_backed [OF s1(1) assms(2) p]
  have v1: "v_inbox (pg_view d) (c, m) = None"
      "pg_view d1 = (pg_view d)\<lparr>v_inbox := (v_inbox (pg_view d))((c, m) \<mapsto> h)\<rparr>"
    using writesD(1) [OF pg.i_record soundD(1) [OF assms(1)] TrueI i] n by simp_all
  have g: "grows (pg_view d) (pg_view d')" by (rule consumeIn_sound(2) [OF assms(1,2,5)])
  show h: "backed sv (pg_view d') h" using b(1) assms(4) by simp
  show "v_inbox (pg_view d) (c, m) = None" by (rule v1(1))
  show "v_inbox (pg_view d') (c, m) = Some h" using b(2) v1(2) by simp
  have "ran (v_inbox (pg_view d')) = insert h (ran (v_inbox (pg_view d)))"
    unfolding b(2) v1(2) using v1(1) by simp
  then show "inbox_backed sv (pg_view d')"
    using h assms(3) backed_grows [OF _ g] by (auto simp: inbox_backed_def)
qed

lemma inserts_inbox:
  "Wallets_Create pgStore w d = (r, d') \<Longrightarrow> db_inbox d' = db_inbox d"
  "Transactions_Insert pgStore t d = (r, d') \<Longrightarrow> db_inbox d' = db_inbox d"
  "Ledger_Append pgStore e d = (r, d') \<Longrightarrow> db_inbox d' = db_inbox d"
  "Outbox_Add pgStore ev d = (r, d') \<Longrightarrow> db_inbox d' = db_inbox d"
  by (auto simp: pgStore_simps walletRepo_Create_def transactionRepo_Insert_def ledgerRepo_Append_def
      outboxRepo_Add_def sql_insert_wallet_def sql_insert_tx_def sql_insert_ledger_def Let_def
      split: if_splits option.splits sum.splits)

lemma openIn_inbox:
  assumes "openIn sv pgStore en cmd w d = (Inr u, d')"
  shows "db_inbox d' = db_inbox d"
proof -
  obtain d1 where c: "Wallets_Create pgStore w d = (Inr (), d1)"
    and k: "(if IsZeroM (w_balance w) then ok ()
    else
      obind (lift (NewOpening (e_txID en) (w_id w) (w_playerID w) (w_balance w)
                     (oc_CorrelationID cmd) (e_now en))) (\<lambda>tx.
      obind (lift (MarkProcessed tx (w_balance w) (e_now en))) (\<lambda>tx.
      obind (lift (Money_Zero (w_currency w))) (\<lambda>zero.
      obind (lift (NewLedgerEntry (e_entryID en) (w_id w) (t_id tx) (Direction_string Credit)
                     (w_balance w) zero (w_balance w) (e_now en))) (\<lambda>entry.
      obind (Transactions_Insert pgStore tx) (\<lambda>_.
      obind (Ledger_Append pgStore entry) (\<lambda>_.
      obind (lift (NewWagerTransactionProcessed (sv_uuid_string sv) (e_outcomeGen en) tx)) (\<lambda>processed.
      obind (lift (NewWalletBalanceChanged (sv_uuid_string sv) (e_balanceGen en) entry (w_version w)
                     (oc_CorrelationID cmd))) (\<lambda>changed.
      obind (Outbox_Add pgStore processed) (\<lambda>_.
      Outbox_Add pgStore changed)))))))))) d1 = (Inr u, d')"
    using assms by (auto simp: openIn_def obind_Inr_iff)
  show ?thesis
  proof (cases "IsZeroM (w_balance w)")
    case True
    then show ?thesis using k inserts_inbox(1) [OF c] by simp
  next
    case False
    then obtain tx entry d2 d3 pev bev d4 where
      "Transactions_Insert pgStore tx d1 = (Inr (), d2)" "Ledger_Append pgStore entry d2 = (Inr (), d3)"
      "Outbox_Add pgStore pev d3 = (Inr (), d4)" "Outbox_Add pgStore bev d4 = (Inr (), d')"
      using k by (auto simp: obind_Inr_iff)
    then show ?thesis using inserts_inbox c by metis
  qed
qed

lemma v_inbox_db: "db_inbox d' = db_inbox d \<Longrightarrow> v_inbox (pg_view d') = v_inbox (pg_view d)"
  by (simp add: pg_view_def)

lemma resolveOne_inbox:
  assumes "sound d" and "clock_ok (e_now en)" and "resolveOne sv (contended locked) claimNow en d = (Inr found, d')"
  shows "v_inbox (pg_view d') = v_inbox (pg_view d)"
  using pgc.resolveOne_Inr(2) [OF soundD(1) [OF assms(1)] assms(2,3)]
  by (auto simp: retry_step_def settled_def split: if_splits option.splits)

lemma outbox_only_backed:
  "outbox_only d d' \<Longrightarrow> sound d \<Longrightarrow> inbox_backed sv (pg_view d) \<Longrightarrow> inbox_backed sv (pg_view d')"
  using outbox_only_sound by metis

lemma sys_step_backed:
  assumes "sys_step sv d d'" and "sound d" and "inbox_backed sv (pg_view d)"
  shows "inbox_backed sv (pg_view d')"
  using assms(1)
proof cases
  case (processed en f cmd)
  show ?thesis
    unfolding processed(1)
    by (rule after_cases) (use assms ProcessIn_backed(2) [OF assms(2) processed(2)]
      ProcessIn_sound(2) [OF assms(2) processed(2)] in \<open>auto intro: inbox_backed_grows\<close>)
next
  case (consumed en f consumer messageID receivedAt cmd)
  show ?thesis
    unfolding consumed(1)
    by (rule after_cases) (use assms consumeIn_backed(1) [OF assms(2) consumed(2) assms(3) refl] in auto)
next
  case (resolved en f locked claimNow)
  show ?thesis
    unfolding resolved(1)
    by (rule after_cases) (use assms resolveOne_inbox [OF assms(2) resolved(2)]
      resolveOne_sound(2) [OF assms(2) resolved(2)] in \<open>auto intro: inbox_backed_grows\<close>)
next
  case (opened en i cmd w f)
  show ?thesis
    unfolding opened(1)
    by (rule after_cases) (use assms(3) v_inbox_db [OF openIn_inbox]
      openIn_sound(2) [OF assms(2) opened(2,3)] in \<open>blast intro: inbox_backed_grows\<close>)+
next
  case (claimed p locked f now)
  show ?thesis
    unfolding claimed(1)
    by (rule after_cases) (use assms(3) outbox_only_backed [OF claimIn_outbox [OF claimed(2)] assms(2,3)] in blast)+
next
  case (published f i now)
  show ?thesis
    unfolding published
    by (rule after_cases) (use assms(3) outbox_only_backed [OF outbox_ops(1) assms(2,3)] in
      \<open>auto simp: pgStore_simps\<close>)
next
  case (batch_published f ids now)
  show ?thesis
    unfolding batch_published
    by (rule after_cases) (use assms(3) outbox_only_backed [OF outbox_ops(2) assms(2,3)] in
      \<open>auto simp: pgStore_simps\<close>)
next
  case (rescheduled f i "next" "text")
  show ?thesis
    unfolding rescheduled
    by (rule after_cases) (use assms(3) outbox_only_backed [OF outbox_ops(3) assms(2,3)] in
      \<open>auto simp: pgStore_simps\<close>)
next
  case (time_passes now)
  then show ?thesis using assms(3) by (simp add: pg_now)
qed

lemma reachable_backed: "reachable sv d \<Longrightarrow> inbox_backed sv (pg_view d)"
proof -
  assume "reachable sv d"
  then obtain now where "(sys_step sv)\<^sup>*\<^sup>* (empty_db now) d" by (auto simp: reachable_def)
  then have "sound d \<and> inbox_backed sv (pg_view d)"
  proof (induction rule: rtranclp_induct)
    case base
    then show ?case
      using empty_sound by (simp add: empty_db_def pg_view_def inbox_backed_def ran_def)
  next
    case (step d d')
    then show ?case using sys_step_sound sys_step_backed by blast
  qed
  then show ?thesis by blast
qed

subsection \<open>What a call leaves in the log\<close>

definition news :: "'s World \<Rightarrow> 's World \<Rightarrow> Call list" where
  "news w w' = drop (length (wd_log w)) (wd_log w')"

lemma delete_message_run:
  "delete_message c receipt w = (r, w') \<Longrightarrow>
    wd_db w' = wd_db w \<and> (\<exists>e. wd_log w' = wd_log w @ [DeleteMessage (cn_queueURL c) receipt e])"
  by (auto simp: delete_message_def call_delete_def obind_apply otry_apply Let_def)

lemma deadLetter_run:
  assumes "deadLetter c m reason w = (r, w')"
  shows "wd_db w' = wd_db w"
    and "DeleteMessage q receipt e \<in> set (news w w') \<Longrightarrow>
      q = cn_queueURL c \<and> receipt = ToString (ms_ReceiptHandle m) \<and>
      SendMessage (dead_letter c m reason) None \<in> set (news w w')"
proof -
  let ?e = "bk_send (cn_broker c) (wd_log w) (dead_letter c m reason)"
  let ?w = "w\<lparr>wd_log := wd_log w @ [SendMessage (dead_letter c m reason) ?e]\<rparr>"
  have run: "(case result_of ?e of Inl _ \<Rightarrow> ok () | Inr _ \<Rightarrow> delete_message c (ToString (ms_ReceiptHandle m))) ?w
      = (r, w')"
    using assms by (simp add: deadLetter_def obind_apply otry_apply call_send_def Let_def)
  have "wd_db w' = wd_db w \<and> (DeleteMessage q receipt e \<in> set (news w w') \<longrightarrow>
      q = cn_queueURL c \<and> receipt = ToString (ms_ReceiptHandle m) \<and>
      SendMessage (dead_letter c m reason) None \<in> set (news w w'))"
  proof (cases ?e)
    case None
    then show ?thesis
      using run delete_message_run [of c "ToString (ms_ReceiptHandle m)" ?w r w']
      by (auto simp: result_of_def news_def)
  next
    case (Some a)
    then show ?thesis using run by (auto simp: result_of_def news_def)
  qed
  then show "wd_db w' = wd_db w"
    and "DeleteMessage q receipt e \<in> set (news w w') \<Longrightarrow>
      q = cn_queueURL c \<and> receipt = ToString (ms_ReceiptHandle m) \<and>
      SendMessage (dead_letter c m reason) None \<in> set (news w w')" by blast+
qed

lemma conclude_run:
  assumes "conclude c m err w = (r, w')"
  shows "wd_db w' = wd_db w"
    and "DeleteMessage q receipt e \<in> set (news w w') \<Longrightarrow>
      q = cn_queueURL c \<and> receipt = ToString (ms_ReceiptHandle m) \<and>
      (classify err = outcomeDone \<or> classify err = outcomePermanent \<and>
        SendMessage (dead_letter c m ''permanent_error'') None \<in> set (news w w'))"
proof -
  have "wd_db w' = wd_db w \<and> (DeleteMessage q receipt e \<in> set (news w w') \<longrightarrow>
      q = cn_queueURL c \<and> receipt = ToString (ms_ReceiptHandle m) \<and>
      (classify err = outcomeDone \<or> classify err = outcomePermanent \<and>
        SendMessage (dead_letter c m ''permanent_error'') None \<in> set (news w w')))"
  proof (cases "classify err")
    case outcomeDone
    then show ?thesis
      using assms delete_message_run [of c "ToString (ms_ReceiptHandle m)" w r w']
      by (auto simp: conclude_def news_def split: if_splits)
  next
    case outcomePermanent
    then show ?thesis using assms deadLetter_run [of c m "''permanent_error''" w r w'] by (simp add: conclude_def)
  next
    case outcomeTransient
    then show ?thesis
      using assms by (auto simp: conclude_def obind_apply otry_apply call_visibility_def Let_def news_def)
  qed
  then show "wd_db w' = wd_db w"
    and "DeleteMessage q receipt e \<in> set (news w w') \<Longrightarrow>
      q = cn_queueURL c \<and> receipt = ToString (ms_ReceiptHandle m) \<and>
      (classify err = outcomeDone \<or> classify err = outcomePermanent \<and>
        SendMessage (dead_letter c m ''permanent_error'') None \<in> set (news w w'))" by blast+
qed

subsection \<open>One message\<close>

text \<open>What begin and commit can report: an error of the driver, of PostgreSQL or of the context.\<close>

definition driver_error :: "error \<Rightarrow> bool" where
  "driver_error e \<longleftrightarrow>
    (case e of ErrPg code c \<Rightarrow> True | _ \<Rightarrow> e \<in> {ErrDriver, ErrCanceled, ErrDeadlineExceeded})"

definition driver_faults :: "Faults \<Rightarrow> bool" where
  "driver_faults f \<longleftrightarrow> (\<forall>e. f_begin f = Some e \<longrightarrow> driver_error e) \<and>
    (\<forall>e durable. f_commit f = Some (e, durable) \<longrightarrow> driver_error e)"

lemma driver_error_transient: "driver_error e \<Longrightarrow> classify (Some e) = outcomeTransient"
  by (cases e) (auto simp: driver_error_def classify_def)

definition env_ok :: "env \<Rightarrow> bool" where
  "env_ok en \<longleftrightarrow> clock_ok (e_now en) \<and> gen_ok (e_balanceGen en) \<and> gen_ok (e_outcomeGen en)"

definition body_hash :: "'s Consumer \<Rightarrow> ProcessCommand \<Rightarrow> string" where
  "body_hash c cmd = bodyHash (cn_service c) (pc_Request cmd) (pc_IdempotencyKey cmd)"

lemma consumeIn_already:
  assumes "sound d" and "gen_ok (e_balanceGen en)" and "gen_ok (e_outcomeGen en)"
    and "consumeIn sv pgStore c i h t en cmd d = (Inl ErrAlreadyProcessed, d1)"
  shows "v_inbox (pg_view d) (c, i) = Some h"
proof -
  obtain r s where r: "Inbox_Record pgStore c i h t d = (r, s)" by fastforce
  show ?thesis
  proof (cases r)
    case (Inl e)
    then have "e = ErrAlreadyProcessed" using assms(4) r by (simp add: consumeIn_def)
    then show ?thesis
      using Inl r by (auto simp: pgStore_simps inboxRepo_Record_def split: if_splits option.splits dest: sym)
  next
    case (Inr ri)
    have "\<not> ir_Inserted ri"
      using assms(4) r Inr clean_opD [OF clean_ProcessIn [OF assms(2,3)], of _ _ s "ErrAlreadyProcessed" d1]
      by (auto simp: consumeIn_def)
    moreover have "ir_ExistingHash ri = h"
      using assms(4) r Inr calculation by (auto simp: consumeIn_def split: if_splits)
    ultimately show ?thesis
      using writesD(1) [OF pg.i_record soundD(1) [OF assms(1)] TrueI r [unfolded Inr]] by (simp split: if_splits)
  qed
qed

lemma consume_outcome:
  assumes "sound d" and "inbox_backed (cn_service c) (pg_view d)" and "cn_store c = pgStore"
    and "env_ok en" and "driver_faults f" and "uow_Do f (consume c i t en cmd) d = (r, d')"
  shows "sound d'" and "grows (pg_view d) (pg_view d')"
    and "classify (case r of Inl e \<Rightarrow> Some e | Inr _ \<Rightarrow> None) = outcomeDone \<Longrightarrow>
      backed (cn_service c) (pg_view d') (body_hash c cmd)"
    and "classify (case r of Inl e \<Rightarrow> Some e | Inr _ \<Rightarrow> None) = outcomePermanent \<Longrightarrow> d' = d"
proof -
  let ?m = "consumeIn (cn_service c) pgStore (ConsumerName (cn_cfg c)) i (body_hash c cmd) t en cmd"
  have m: "consume c i t en cmd = ?m" by (simp add: consume_def body_hash_def assms(3))
  have clk: "clock_ok (e_now en)" and gens: "gen_ok (e_balanceGen en)" "gen_ok (e_outcomeGen en)"
    using assms(4) by (simp_all add: env_ok_def)
  have run: "sound d1 \<and> grows (pg_view d) (pg_view d1) \<and> backed (cn_service c) (pg_view d1) (body_hash c cmd)"
    if "?m d = (Inr res, d1)" for res d1
    using consumeIn_sound [OF assms(1) clk that]
      consumeIn_backed(2) [OF assms(1) clk assms(2) _ that] by (simp add: body_hash_def)
  have "sound d' \<and> grows (pg_view d) (pg_view d') \<and>
    (classify (case r of Inl e \<Rightarrow> Some e | Inr _ \<Rightarrow> None) = outcomeDone \<longrightarrow>
      backed (cn_service c) (pg_view d') (body_hash c cmd)) \<and>
    (classify (case r of Inl e \<Rightarrow> Some e | Inr _ \<Rightarrow> None) = outcomePermanent \<longrightarrow> d' = d)"
  proof (cases r)
    case (Inr res)
    then show ?thesis using assms(6) run by (auto simp: m uow_Do_Inr classify_def)
  next
    case (Inl e)
    show ?thesis
    proof (cases "f_begin f = Some e \<or> (\<exists>du. f_commit f = Some (e, du))")
      case True
      then have "classify (Some e) = outcomeTransient"
        using assms(5) driver_error_transient by (auto simp: driver_faults_def)
      moreover have "sound d' \<and> grows (pg_view d) (pg_view d')"
        using uow_Do_Inl [of f ?m d e d'] assms(1,6) Inl run by (auto simp: m)
      ultimately show ?thesis using Inl by simp
    next
      case False
      then obtain d1 where e: "?m d = (Inl e, d1)" "d' = d"
        using assms(6) Inl unfolding m uow_Do_def by (auto split: option.splits prod.splits sum.splits if_splits)
      have "backed (cn_service c) (pg_view d) (body_hash c cmd)" if "e = ErrAlreadyProcessed"
        using consumeIn_already [OF assms(1) gens e(1) [unfolded that]] assms(2)
        by (auto simp: inbox_backed_def ran_def)
      then have "classify (Some e) = outcomeDone \<Longrightarrow> backed (cn_service c) (pg_view d) (body_hash c cmd)"
        by (auto simp: classify_def split: if_splits)
      then show ?thesis using Inl e(2) assms(1) by simp
    qed
  qed
  then show "sound d'" and "grows (pg_view d) (pg_view d')"
    and "classify (case r of Inl e \<Rightarrow> Some e | Inr _ \<Rightarrow> None) = outcomeDone \<Longrightarrow>
      backed (cn_service c) (pg_view d') (body_hash c cmd)"
    and "classify (case r of Inl e \<Rightarrow> Some e | Inr _ \<Rightarrow> None) = outcomePermanent \<Longrightarrow> d' = d"
    by blast+
qed

lemma handle_Inl:
  "command_of c m = Inl reason \<Longrightarrow> handle c tp en m w = deadLetter c m reason w"
  by (simp add: handle_def)

lemma handle_Inr:
  assumes "command_of c m = Inr (i, cmd)" and "handle c tp en m w = (r, w')"
  obtains q w2 where
    "uow_Do (tp_faults tp (Suc (wd_tick w))) (consume c i (tp_now tp (wd_tick w)) en cmd) (wd_db w) = (q, wd_db w2)"
    and "wd_log w2 = wd_log w"
    and "conclude c m (case q of Inl e \<Rightarrow> Some e | Inr _ \<Rightarrow> None) w2 = (r, w')"
proof -
  obtain q s where q: "uow_Do (tp_faults tp (Suc (wd_tick w))) (consume c i (tp_now tp (wd_tick w)) en cmd) (wd_db w)
      = (q, s)"
    by fastforce
  show ?thesis
    by (rule that [of q "w\<lparr>wd_db := s, wd_tick := Suc (Suc (wd_tick w))\<rparr>"])
      (use assms q in \<open>simp_all add: handle_def obind_apply otry_apply now_of_def in_db_def\<close>)
qed

text \<open>C13. No message is lost. Whatever the broker answers and whatever faults the database has,
  handling a message deletes nothing but this message, and deletes it only when one of two things
  is so. Either its command is settled: the database holds the transaction of exactly this
  request and idempotency key, as their digest tells, from this delivery or from an earlier one.
  Or the dead-letter queue has accepted a copy of it, and then its handling has changed nothing in
  the database.\<close>

theorem deleted_means_done:
  assumes "reachable (cn_service c) (wd_db w)" and "cn_store c = pgStore" and "env_ok en"
    and "\<forall>n. driver_faults (tp_faults tp n)" and "handle c tp en m w = (r, w')"
    and "DeleteMessage q receipt e \<in> set (news w w')"
  shows "q = cn_queueURL c \<and> receipt = ToString (ms_ReceiptHandle m) \<and>
    ((\<exists>i cmd. command_of c m = Inr (i, cmd) \<and>
        backed (cn_service c) (pg_view (wd_db w')) (body_hash c cmd)) \<or>
     (\<exists>reason. SendMessage (dead_letter c m reason) None \<in> set (news w w') \<and> wd_db w' = wd_db w))"
proof (cases "command_of c m")
  case (Inl reason)
  then show ?thesis
    using deadLetter_run [of c m reason w r w'] assms(5,6) by (auto simp: handle_Inl)
next
  case (Inr x)
  obtain i cmd where x: "command_of c m = Inr (i, cmd)" using Inr by (cases x) simp
  obtain o' w2 where u: "uow_Do (tp_faults tp (Suc (wd_tick w)))
      (consume c i (tp_now tp (wd_tick w)) en cmd) (wd_db w) = (o', wd_db w2)"
    and l: "wd_log w2 = wd_log w"
    and k: "conclude c m (case o' of Inl e \<Rightarrow> Some e | Inr _ \<Rightarrow> None) w2 = (r, w')"
    by (rule handle_Inr [OF x assms(5)])
  have n: "news w w' = news w2 w'" by (simp add: news_def l)
  note o = consume_outcome [OF reachable_sound [OF assms(1)] reachable_backed [OF assms(1)] assms(2,3)
      assms(4) [rule_format] u]
  note c = conclude_run(1) [OF k] conclude_run(2) [OF k assms(6) [unfolded n]]
  show ?thesis using o(3,4) c x unfolding n by auto
qed

text \<open>What a message that the inbox already knows does.\<close>

lemma inboxRepo_known:
  assumes "pg_ok d" and "texts_ok [c, i, h']" and "v_inbox (pg_view d) (c, i) = Some h"
  shows "Inbox_Record pgStore c i h' t d = (Inr \<lparr>ir_Inserted = False, ir_ExistingHash = h\<rparr>, d)"
proof -
  obtain r s where r: "Inbox_Record pgStore c i h' t d = (Inr r, s)"
    using assms(2) unfolding pgStore_simps inboxRepo_Record_def
    by (cases "find (\<lambda>r. nr_consumer r = c \<and> nr_message_id r = i) (db_inbox d)") auto
  have "\<not> ir_Inserted r" "ir_ExistingHash r = h"
    using writesD(1) [OF pg.i_record assms(1) TrueI r] assms(3) by (auto split: if_splits)
  moreover have "s = d"
    using r \<open>\<not> ir_Inserted r\<close>
    by (auto simp: pgStore_simps inboxRepo_Record_def split: if_splits option.splits)
  ultimately show ?thesis using r by (cases r) simp
qed

lemma consume_known:
  assumes "pg_ok d" and "cn_store c = pgStore" and "f_begin f = None"
    and "texts_ok [ConsumerName (cn_cfg c), i, body_hash c cmd]"
    and "v_inbox (pg_view d) (ConsumerName (cn_cfg c), i) = Some h"
  shows "uow_Do f (consume c i t en cmd) d =
    (Inl (if h = body_hash c cmd then ErrAlreadyProcessed else ErrValidation), d)"
proof -
  have "consume c i t en cmd d =
      (Inl (if h = body_hash c cmd then ErrAlreadyProcessed else ErrValidation), d)"
    unfolding consume_def assms(2) body_hash_def [symmetric] consumeIn_def
    using inboxRepo_known [OF assms(1,4,5), of t] by simp
  then show ?thesis using assms(3) by (simp add: uow_Do_def)
qed

lemma conclude_done:
  assumes "conclude c m err w = (r, w')" and "classify err = outcomeDone"
  shows "if CrashAfterCommit (cn_cfg c) then w' = w
    else \<exists>e. news w w' = [DeleteMessage (cn_queueURL c) (ToString (ms_ReceiptHandle m)) e]"
  using assms delete_message_run [of c "ToString (ms_ReceiptHandle m)" w r w']
  by (auto simp: conclude_def news_def)

lemma deadLetter_sends:
  assumes "deadLetter c m reason w = (r, w')"
  shows "\<exists>e calls. news w w' = SendMessage (dead_letter c m reason) e # calls"
proof -
  let ?e = "bk_send (cn_broker c) (wd_log w) (dead_letter c m reason)"
  let ?w = "w\<lparr>wd_log := wd_log w @ [SendMessage (dead_letter c m reason) ?e]\<rparr>"
  have run: "(case result_of ?e of Inl _ \<Rightarrow> ok () | Inr _ \<Rightarrow> delete_message c (ToString (ms_ReceiptHandle m))) ?w
      = (r, w')"
    using assms by (simp add: deadLetter_def obind_apply otry_apply call_send_def Let_def)
  show ?thesis
  proof (cases "result_of ?e")
    case (Inl a)
    then show ?thesis using run by (auto simp: news_def)
  next
    case (Inr a)
    then show ?thesis
      using run delete_message_run [of c "ToString (ms_ReceiptHandle m)" ?w r w'] by (auto simp: news_def)
  qed
qed

text \<open>C14. A redelivery is harmless. When the inbox knows the identity of a message, handling it
  again changes nothing in the database, whatever else the system did since: with the content of
  the first delivery the message is deleted from the queue, which is all that happens; with
  another content it goes to the dead-letter queue and is never processed.\<close>

theorem redelivery_harmless:
  assumes "reachable (cn_service c) (wd_db w)" and "cn_store c = pgStore"
    and "command_of c m = Inr (i, cmd)" and "handle c tp en m w = (r, w')"
    and "texts_ok [ConsumerName (cn_cfg c), i, body_hash c cmd]"
    and "f_begin (tp_faults tp (Suc (wd_tick w))) = None"
    and "v_inbox (pg_view (wd_db w)) (ConsumerName (cn_cfg c), i) = Some h"
  shows "wd_db w' = wd_db w \<and>
    (if h \<noteq> body_hash c cmd then
       \<exists>e calls. news w w' = SendMessage (dead_letter c m ''permanent_error'') e # calls
     else if CrashAfterCommit (cn_cfg c) then news w w' = []
     else \<exists>e. news w w' = [DeleteMessage (cn_queueURL c) (ToString (ms_ReceiptHandle m)) e])"
proof -
  obtain q w2 where u: "uow_Do (tp_faults tp (Suc (wd_tick w)))
      (consume c i (tp_now tp (wd_tick w)) en cmd) (wd_db w) = (q, wd_db w2)"
    and l: "wd_log w2 = wd_log w"
    and k: "conclude c m (case q of Inl e \<Rightarrow> Some e | Inr _ \<Rightarrow> None) w2 = (r, w')"
    by (rule handle_Inr [OF assms(3,4)])
  have q: "q = Inl (if h = body_hash c cmd then ErrAlreadyProcessed else ErrValidation)"
    and d: "wd_db w2 = wd_db w"
    using u consume_known [OF soundD(1) [OF reachable_sound [OF assms(1)]] assms(2,6,5,7),
        of "tp_now tp (wd_tick w)" en] by simp_all
  have n: "news w w' = news w2 w'" by (simp add: news_def l)
  show ?thesis
  proof (cases "h = body_hash c cmd")
    case True
    then show ?thesis
      using conclude_run(1) [OF k] conclude_done [OF k] d l unfolding n q
      by (auto simp: news_def classify_def)
  next
    case False
    then show ?thesis
      using conclude_run(1) [OF k] deadLetter_sends [of c m "''permanent_error''" w2 r w'] k d
      unfolding n q by (simp add: conclude_def classify_def)
  qed
qed

subsection \<open>A delivery on concrete values\<close>

definition demo_broker :: Broker where
  "demo_broker =
    \<lparr>bk_send = (\<lambda>_ _. None), bk_batch = (\<lambda>_ _ es. Inr \<lparr>bo_Successful = map be_Id es, bo_Failed = []\<rparr>),
     bk_delete = (\<lambda>_ _ _. None), bk_visibility = (\<lambda>_ _ _ _. None), bk_receive = (\<lambda>_ _ _ _ _. Inr []),
     bk_url = (\<lambda>_ n. Inr n), bk_attributes = (\<lambda>_ _. None)\<rparr>"

definition demo_consumer :: "db Consumer" where
  "demo_consumer =
    NewConsumer demo_sv pgStore demo_broker
      (\<lambda>v. if v = ''p'' then Some 5 else if v = ''w'' then Some 7 else None)
      (\<lambda>b. Some \<lparr>qe_MessageID = ''m'', qe_Type = MessageType, qe_Occurred = 0,
         qe_Data = \<lparr>py_Request =
           \<lparr>in_ProviderID = ''prov'', in_ExternalTransactionID = b, in_PlayerID = ''p'', in_WalletID = ''w'',
            in_RoundID = ''r'', in_GameID = ''g'', in_Kind = ''BET'',
            in_Money = \<lparr>j_amount = ''30.00'', j_currency = ''BRL''\<rparr>,
            in_ReferenceExternalTransactionID = ''''\<rparr>, py_IdempotencyKey = b\<rparr>\<rparr>)
      \<lparr>QueueName = ''q'', DLQName = ''dlq'', ConsumerName = ''c'', WaitTime = 0, VisibilityTimeout = 0,
       MaxMessages = 0, Workers = 0, CrashAfterCommit = False\<rparr>"

definition demo_tape :: Tape where
  "demo_tape = \<lparr>tp_now = (\<lambda>n. 2000000000), tp_faults = (\<lambda>_. no_faults), tp_ctx = (\<lambda>_. None),
    tp_order = (\<lambda>_ _. 0)\<rparr>"

definition demo_world :: "db \<Rightarrow> db World" where
  "demo_world d = \<lparr>wd_db = d, wd_log = [], wd_urls = (\<lambda>_. None), wd_queueURL = '''', wd_tick = 0\<rparr>"

definition demo_message :: Message where
  "demo_message = \<lparr>ms_MessageId = Some ''id'', ms_ReceiptHandle = Some ''rh'', ms_Body = Some ''x'',
    ms_ApproximateReceiveCount = Some ''1'', ms_MessageGroupId = Some ''w''\<rparr>"

definition demo_delivered :: "db World" where
  "demo_delivered = snd (handle demo_consumer demo_tape (demo_env 2000000000 20) demo_message (demo_world db1))"

lemma demo_consumer_simps:
  "cn_service demo_consumer = demo_sv" "cn_store demo_consumer = pgStore"
  by (simp_all add: demo_consumer_def NewConsumer_def Let_def)

lemma demo_env_ok: "1000 \<le> now \<Longrightarrow> env_ok (demo_env now i)"
  by (simp add: env_ok_def clock_ok_def gen_ok_def demo_env_def)

lemma demo_tape_faults: "\<forall>n. driver_faults (tp_faults demo_tape n)"
  by (simp add: demo_tape_def driver_faults_def)

abbreviation demo_bet_cmd :: ProcessCommand where
  "demo_bet_cmd \<equiv> (demo_cmd ''x'' KindBet 3000 '''')\<lparr>pc_CorrelationID := ''m'', pc_Source := ''sqs''\<rparr>"

lemma demo_message_command: "command_of demo_consumer demo_message = Inr (''m'', demo_bet_cmd)"
  by code_simp

lemma demo_consumes:
  "\<not> isl (fst (consume demo_consumer ''m'' 2000000000 (demo_env 2000000000 20) demo_bet_cmd db1))"
  by code_simp

text \<open>The first delivery: the command goes through and the message is deleted.\<close>

lemma demo_delivery:
  obtains r e h where
    "handle demo_consumer demo_tape (demo_env 2000000000 20) demo_message (demo_world db1) = (r, demo_delivered)"
    and "news (demo_world db1) demo_delivered = [DeleteMessage '''' ''rh'' e]"
    and "v_inbox (pg_view (wd_db demo_delivered)) (ConsumerName (cn_cfg demo_consumer), ''m'') =
      Some (body_hash demo_consumer demo_bet_cmd)"
    and "reachable demo_sv (wd_db demo_delivered)"
proof -
  let ?en = "demo_env 2000000000 20"
  have tape: "tp_faults demo_tape n = no_faults" "tp_now demo_tape n = 2000000000" for n
    by (simp_all add: demo_tape_def)
  obtain r where h: "handle demo_consumer demo_tape ?en demo_message (demo_world db1) = (r, demo_delivered)"
    unfolding demo_delivered_def by (metis surjective_pairing)
  obtain q w2 where u: "uow_Do no_faults (consume demo_consumer ''m'' 2000000000 ?en demo_bet_cmd) db1 = (q, wd_db w2)"
    and l: "wd_log w2 = []"
    and k: "conclude demo_consumer demo_message (case q of Inl e \<Rightarrow> Some e | Inr _ \<Rightarrow> None) w2 = (r, demo_delivered)"
    using handle_Inr [OF demo_message_command h] unfolding tape by (auto simp: demo_world_def)
  obtain res where q: "q = Inr res"
    and run: "consume demo_consumer ''m'' 2000000000 ?en demo_bet_cmd db1 = (Inr res, wd_db w2)"
    using demo_consumes u
    by (cases "consume demo_consumer ''m'' 2000000000 ?en demo_bet_cmd db1")
      (auto simp: uow_Do_def split: sum.splits)
  note c = run [unfolded consume_def demo_consumer_simps]
  have d: "wd_db demo_delivered = wd_db w2" by (rule conclude_run(1) [OF k])
  have n: "CrashAfterCommit (cn_cfg demo_consumer) = False" "cn_queueURL demo_consumer = ''''"
    "ToString (ms_ReceiptHandle demo_message) = ''rh''"
    by (simp_all add: demo_consumer_def NewConsumer_def Let_def demo_message_def ToString_def)
  obtain e where "news w2 demo_delivered = [DeleteMessage '''' ''rh'' e]"
    using conclude_done [OF k] n by (auto simp: q classify_def)
  then have log: "news (demo_world db1) demo_delivered = [DeleteMessage '''' ''rh'' e]"
    by (simp add: news_def l demo_world_def)
  have clk: "clock_ok (e_now ?en)" by (simp add: demo_clock)
  note b = consumeIn_backed(4) [OF reachable_sound [OF db1_reachable] clk reachable_backed [OF db1_reachable] refl c]
  have "sys_step demo_sv db1 (after no_faults
      (consumeIn demo_sv pgStore (ConsumerName (cn_cfg demo_consumer)) ''m''
        (bodyHash demo_sv (pc_Request demo_bet_cmd) (pc_IdempotencyKey demo_bet_cmd)) 2000000000 ?en demo_bet_cmd) db1)"
    by (rule sys_step.consumed [OF clk])
  then have "sys_step demo_sv db1 (wd_db w2)" using c by (simp add: after_def uow_Do_def)
  then have "reachable demo_sv (wd_db w2)" using reachable_steps [OF db1_reachable] by blast
  then show ?thesis
    using that [OF h log] b by (simp add: d body_hash_def demo_consumer_simps)
qed

theorem deleted_means_done_witness:
  "backed demo_sv (pg_view (wd_db demo_delivered)) (body_hash demo_consumer demo_bet_cmd) \<or>
   wd_db demo_delivered = db1"
proof -
  obtain r e where h: "handle demo_consumer demo_tape (demo_env 2000000000 20) demo_message (demo_world db1)
      = (r, demo_delivered)"
    and n: "news (demo_world db1) demo_delivered = [DeleteMessage '''' ''rh'' e]"
    by (rule demo_delivery)
  have m: "DeleteMessage '''' ''rh'' e \<in> set (news (demo_world db1) demo_delivered)" by (simp add: n)
  have w: "reachable (cn_service demo_consumer) (wd_db (demo_world db1))"
    using db1_reachable by (simp add: demo_world_def demo_consumer_simps)
  have d: "wd_db (demo_world db1) = db1" by (simp add: demo_world_def)
  show ?thesis
    using deleted_means_done [OF w demo_consumer_simps(2) demo_env_ok [of 2000000000 20]
        demo_tape_faults h m] demo_message_command
    by (auto simp: demo_consumer_simps d)
qed

theorem redelivery_harmless_witness:
  "\<exists>r e w'. handle demo_consumer demo_tape (demo_env 2000000000 90) demo_message
      (demo_delivered\<lparr>wd_log := []\<rparr>) = (r, w') \<and>
    wd_db w' = wd_db demo_delivered \<and> wd_log w' = [DeleteMessage '''' ''rh'' e]"
proof -
  obtain r e h where
    b: "v_inbox (pg_view (wd_db demo_delivered)) (ConsumerName (cn_cfg demo_consumer), ''m'') =
      Some (body_hash demo_consumer demo_bet_cmd)"
    and d: "reachable demo_sv (wd_db demo_delivered)"
    by (rule demo_delivery)
  let ?w = "demo_delivered\<lparr>wd_log := []\<rparr>"
  obtain r2 w2 where h: "handle demo_consumer demo_tape (demo_env 2000000000 90) demo_message ?w = (r2, w2)"
    by fastforce
  have t: "texts_ok [ConsumerName (cn_cfg demo_consumer), ''m'', body_hash demo_consumer demo_bet_cmd]"
    by code_simp
  have f: "f_begin (tp_faults demo_tape (Suc (wd_tick ?w))) = None" by (simp add: demo_tape_def)
  have w: "reachable (cn_service demo_consumer) (wd_db ?w)" using d by (simp add: demo_consumer_simps)
  have b': "v_inbox (pg_view (wd_db ?w)) (ConsumerName (cn_cfg demo_consumer), ''m'') =
      Some (body_hash demo_consumer demo_bet_cmd)"
    using b by simp
  have n: "CrashAfterCommit (cn_cfg demo_consumer) = False" "cn_queueURL demo_consumer = ''''"
    "ToString (ms_ReceiptHandle demo_message) = ''rh''"
    by (simp_all add: demo_consumer_def NewConsumer_def Let_def demo_message_def ToString_def)
  show ?thesis
    using redelivery_harmless [OF w demo_consumer_simps(2) demo_message_command h t f b'] h n
    by (auto simp: news_def)
qed

end
