(* ===== verification/Publishing.thy ===== *)
theory Publishing
  imports Delivery
begin

text \<open>
  The outbox publisher against the broker: an event is marked published only after the broker
  accepted it, a tick changes nothing but the bookkeeping of the outbox, and a working broker gets
  every event.
\<close>

subsection \<open>What a tick may do\<close>

definition accepted :: "(uuid \<Rightarrow> string) \<Rightarrow> uuid \<Rightarrow> Call \<Rightarrow> bool" where
  "accepted us i call =
    (case call of
       SendMessage m None \<Rightarrow> sm_MessageDeduplicationId m = us i
     | SendMessageBatch url es (Inr out) \<Rightarrow>
         \<exists>e \<in> set es. be_Id e \<in> set (bo_Successful out) \<and> be_MessageDeduplicationId e = us i
     | _ \<Rightarrow> False)"

definition published :: "db \<Rightarrow> uuid \<Rightarrow> bool" where
  "published d i \<longleftrightarrow> (\<exists>r \<in> set (db_outbox d). xr_event_id r = i \<and> xr_published_at r \<noteq> None)"

definition publishes :: "Service \<Rightarrow> (uuid \<Rightarrow> string) \<Rightarrow> db World \<Rightarrow> db World \<Rightarrow> bool" where
  "publishes sv us w w' \<longleftrightarrow>
    (sys_step sv)\<^sup>*\<^sup>* (wd_db w) (wd_db w') \<and> outbox_only (wd_db w) (wd_db w') \<and>
    prefix (wd_log w) (wd_log w') \<and>
    (\<forall>i. i \<noteq> uuid_Nil \<and> published (wd_db w') i \<longrightarrow>
      published (wd_db w) i \<or> (\<exists>call \<in> set (news w w'). accepted us i call))"

lemma news_trans:
  assumes "prefix (wd_log w) (wd_log w')" and "prefix (wd_log w') (wd_log w'')"
  shows "news w w'' = news w w' @ news w' w''"
  using assms by (auto simp: news_def prefix_def)

lemma outbox_only_trans: "outbox_only d d' \<Longrightarrow> outbox_only d' d'' \<Longrightarrow> outbox_only d d''"
proof -
  assume "outbox_only d d'" and "outbox_only d' d''"
  then obtain f g where "\<forall>r. xr_event_id (f r) = xr_event_id r \<and> xr_payload (f r) = xr_payload r"
    "d' = d\<lparr>db_outbox := map f (db_outbox d)\<rparr>"
    "\<forall>r. xr_event_id (g r) = xr_event_id r \<and> xr_payload (g r) = xr_payload r"
    "d'' = d'\<lparr>db_outbox := map g (db_outbox d')\<rparr>"
    unfolding outbox_only_def by blast
  then show ?thesis unfolding outbox_only_def by (intro exI [of _ "g \<circ> f"]) simp
qed

lemma publishes_refl [simp]: "publishes sv us w w"
  by (simp add: publishes_def)

lemma publishes_trans:
  assumes "publishes sv us w w'" and "publishes sv us w' w''"
  shows "publishes sv us w w''"
proof -
  have n: "news w w'' = news w w' @ news w' w''"
    using assms by (intro news_trans) (simp_all add: publishes_def)
  show ?thesis
    using assms unfolding publishes_def n
    by (auto intro: rtranclp_trans outbox_only_trans prefix_order.trans)
qed

text \<open>An operation that only does what a tick may do, and the ways to put such operations
  together.\<close>

definition pub_op :: "Service \<Rightarrow> (uuid \<Rightarrow> string) \<Rightarrow> (db World, 'a) op \<Rightarrow> bool" where
  "pub_op sv us m \<longleftrightarrow> (\<forall>w r w'. m w = (r, w') \<longrightarrow> publishes sv us w w')"

named_theorems pub_intros

lemma pub_opD: "pub_op sv us m \<Longrightarrow> m w = (r, w') \<Longrightarrow> publishes sv us w w'"
  by (auto simp: pub_op_def)

lemma pub_basic [simp]: "pub_op sv us (ok a)" "pub_op sv us (fail e)"
  by (simp_all add: pub_op_def)

lemma pub_obind [pub_intros]:
  "pub_op sv us m \<Longrightarrow> (\<And>a. pub_op sv us (f a)) \<Longrightarrow> pub_op sv us (obind m f)"
  unfolding pub_op_def obind_def
  by (auto split: prod.splits sum.splits) (blast intro: publishes_trans)+

lemma pub_otry [pub_intros]: "pub_op sv us m \<Longrightarrow> pub_op sv us (otry m)"
  by (auto simp: pub_op_def otry_def split: prod.splits)

lemma pub_branches [pub_intros]:
  "(b \<Longrightarrow> pub_op sv us x) \<Longrightarrow> (\<not> b \<Longrightarrow> pub_op sv us y) \<Longrightarrow> pub_op sv us (if b then x else y)"
  "(\<And>e. pub_op sv us (f e)) \<Longrightarrow> (\<And>a. pub_op sv us (g a)) \<Longrightarrow>
    pub_op sv us (case r of Inl e \<Rightarrow> f e | Inr a \<Rightarrow> g a)"
  "(\<And>a b. pub_op sv us (k a b)) \<Longrightarrow> pub_op sv us (case p of (a, b) \<Rightarrow> k a b)"
  by (cases r; cases p; simp)+

lemma pub_reads [simp]:
  "pub_op sv us (now_of tp)" "pub_op sv us (ctx_of tp)" "pub_op sv us (range_of tp m)"
  by (auto simp: pub_op_def now_of_def ctx_of_def range_of_def publishes_def)

lemma publishes_log:
  "wd_db w' = wd_db w \<Longrightarrow> wd_log w' = wd_log w @ calls \<Longrightarrow> publishes sv us w w'"
  by (simp add: publishes_def)

lemma pub_urls [simp]: "pub_op sv us (QueueURL bk q)" "pub_op sv us (publisher_url bk q)"
proof -
  show q: "pub_op sv us (QueueURL bk q)" for q
    by (auto simp: pub_op_def QueueURL_def obind_apply call_url_def Let_def
        intro!: publishes_log split: option.splits sum.splits)
  show "pub_op sv us (publisher_url bk q)"
    unfolding pub_op_def publisher_url_def obind_apply
    using q [unfolded pub_op_def]
    by (auto simp: publishes_def news_def split: if_splits prod.splits sum.splits)
qed

subsection \<open>The writes of a tick\<close>

lemma in_db_publishes:
  assumes "in_db tp m w = (r, w')"
    and "\<And>f. sys_step sv (wd_db w) (after f m (wd_db w))"
    and "\<And>a d'. m (wd_db w) = (Inr a, d') \<Longrightarrow> outbox_only (wd_db w) d' \<and>
      (\<forall>i. i \<noteq> uuid_Nil \<and> published d' i \<longrightarrow> published (wd_db w) i \<or> i \<in> ids)"
    and "publishes sv us w0 w"
    and "\<And>i. i \<in> ids \<Longrightarrow> i \<noteq> uuid_Nil \<Longrightarrow> \<exists>call \<in> set (news w0 w). accepted us i call"
  shows "publishes sv us w0 w'"
proof -
  have d: "wd_db w' = after (tp_faults tp (wd_tick w)) m (wd_db w)" and l: "wd_log w' = wd_log w"
    using assms(1) by (auto simp: in_db_def after_def split: prod.splits)
  have k: "outbox_only (wd_db w) (wd_db w') \<and>
      (\<forall>i. i \<noteq> uuid_Nil \<and> published (wd_db w') i \<longrightarrow> published (wd_db w) i \<or> i \<in> ids)"
    unfolding d by (rule after_cases) (use assms(3) in auto)
  have s: "(sys_step sv)\<^sup>*\<^sup>* (wd_db w0) (wd_db w')"
    using assms(2,4) unfolding publishes_def d by (meson rtranclp.rtrancl_into_rtrancl)
  have n: "news w0 w' = news w0 w" by (simp add: news_def l)
  show ?thesis
    using assms(4,5) k s unfolding publishes_def n l by (blast intro: outbox_only_trans)
qed

lemma published_same:
  "outbox_only d d' \<Longrightarrow> map xr_published_at (db_outbox d') = map xr_published_at (db_outbox d) \<Longrightarrow>
    published d' i \<Longrightarrow> published d i"
proof -
  assume o: "outbox_only d d'" and p: "map xr_published_at (db_outbox d') = map xr_published_at (db_outbox d)"
    and r: "published d' i"
  obtain f where f: "\<forall>r. xr_event_id (f r) = xr_event_id r \<and> xr_payload (f r) = xr_payload r"
    and e: "d' = d\<lparr>db_outbox := map f (db_outbox d)\<rparr>"
    using o unfolding outbox_only_def by blast
  have m: "db_outbox d' = map f (db_outbox d)" by (simp add: e)
  have "\<forall>q \<in> set (db_outbox d). xr_published_at (f q) = xr_published_at q"
    using p unfolding m map_map map_eq_conv by simp
  then show "published d i" using r f unfolding published_def m set_map by auto
qed

lemma unpublishing_ops:
  "outboxRepo_Reschedule i now msg d = (r1, d1) \<Longrightarrow> map xr_published_at (db_outbox d1) = map xr_published_at (db_outbox d)"
  "outboxRepo_Claim pid now lease limit d = (r2, d1) \<Longrightarrow> map xr_published_at (db_outbox d1) = map xr_published_at (db_outbox d)"
  by (auto simp: outboxRepo_Reschedule_def outboxRepo_Claim_eq lease_row_def Let_def split: if_splits)

lemma claimIn_unpublished:
  "op_store p = pgStore \<Longrightarrow> claimIn p now d = (r, d') \<Longrightarrow>
    map xr_published_at (db_outbox d') = map xr_published_at (db_outbox d)"
  by (auto simp: claimIn_def pgStore_simps obind_apply dest: unpublishing_ops(2) outbox_ops(5)
      split: prod.splits sum.splits)

lemma pub_claim [simp]: "op_store p = pgStore \<Longrightarrow> pub_op sv us (in_db tp (claimIn p now))"
  unfolding pub_op_def
proof (intro allI impI)
  fix w r w'
  assume p: "op_store p = pgStore" and m: "in_db tp (claimIn p now) w = (r, w')"
  show "publishes sv us w w'"
    by (rule in_db_publishes [OF m, where ids = "{}"])
      (use p p [folded contended_Nil] sys_step.claimed claimIn_outbox claimIn_unpublished published_same in \<open>blast+, simp_all\<close>)
qed

lemma pub_reschedule [simp]: "op_store p = pgStore \<Longrightarrow> pub_op sv us (reschedule p tp i n e)"
proof -
  assume p: "op_store p = pgStore"
  have "pub_op sv us (in_db tp (Outbox_Reschedule (op_store p) i at msg))" for at msg
    unfolding pub_op_def
  proof (intro allI impI)
    fix w r w'
    assume m: "in_db tp (Outbox_Reschedule (op_store p) i at msg) w = (r, w')"
    show "publishes sv us w w'"
    proof (rule in_db_publishes [OF m, where ids = "{}"])
      show "sys_step sv (wd_db w) (after f (Outbox_Reschedule (op_store p) i at msg) (wd_db w))" for f
        unfolding p by (rule sys_step.rescheduled)
      show "outbox_only (wd_db w) d' \<and> (\<forall>j. j \<noteq> uuid_Nil \<and> published d' j \<longrightarrow> published (wd_db w) j \<or> j \<in> {})"
        if "Outbox_Reschedule (op_store p) i at msg (wd_db w) = (Inr a, d')" for a d'
        using that outbox_ops(3) unpublishing_ops(1) published_same unfolding p pgStore_simps by blast
    qed simp_all
  qed
  then show ?thesis unfolding reschedule_def by (intro pub_intros pub_basic pub_reads)
qed

lemma published_marks:
  "Outbox_MarkPublished pgStore i now d = (Inr a, d') \<Longrightarrow>
    outbox_only d d' \<and> (\<forall>j. j \<noteq> uuid_Nil \<and> published d' j \<longrightarrow> published d j \<or> j \<in> {i})"
  "Outbox_MarkPublishedBatch pgStore ids now d = (Inr a, d') \<Longrightarrow>
    outbox_only d d' \<and> (\<forall>j. j \<noteq> uuid_Nil \<and> published d' j \<longrightarrow> published d j \<or> j \<in> set ids)"
proof -
  have s: "published d' j \<Longrightarrow> published d j \<or> j = i" if "outboxRepo_MarkPublished i now d = (Inr a, d')" for j
    using that by (fastforce simp: published_def outboxRepo_MarkPublished_def publish_row_def split: if_splits)
  have b: "published d' j \<Longrightarrow> published d j \<or> j \<in> set ids"
    if "outboxRepo_MarkPublishedBatch ids now d = (Inr a, d')" for j
    using that by (fastforce simp: published_def outboxRepo_MarkPublishedBatch_def publish_row_def split: if_splits)
  show "Outbox_MarkPublished pgStore i now d = (Inr a, d') \<Longrightarrow>
      outbox_only d d' \<and> (\<forall>j. j \<noteq> uuid_Nil \<and> published d' j \<longrightarrow> published d j \<or> j \<in> {i})"
    using s outbox_ops(1) unfolding pgStore_simps by blast
  show "Outbox_MarkPublishedBatch pgStore ids now d = (Inr a, d') \<Longrightarrow>
      outbox_only d d' \<and> (\<forall>j. j \<noteq> uuid_Nil \<and> published d' j \<longrightarrow> published d j \<or> j \<in> set ids)"
    using b outbox_ops(2) unfolding pgStore_simps by blast
qed

text \<open>A call that succeeds, then the write that records it.\<close>

lemma marking:
  assumes "publishes sv us w0 w" and "\<And>i. i \<in> set ids \<Longrightarrow> i \<noteq> uuid_Nil \<Longrightarrow>
      \<exists>call \<in> set (news w0 w). accepted us i call"
    and "op_store p = pgStore"
  shows "obind (now_of tp) (\<lambda>now. obind (otry (in_db tp (Outbox_MarkPublishedBatch (op_store p) ids now)))
      (\<lambda>_. ok True)) w = (r, w') \<Longrightarrow> publishes sv us w0 w'"
    and "ids = [i] \<Longrightarrow> obind (now_of tp) (\<lambda>now. obind (otry (in_db tp (Outbox_MarkPublished (op_store p) i now)))
      (\<lambda>_. ok True)) w = (r, w') \<Longrightarrow> publishes sv us w0 w'"
proof -
  let ?w = "w\<lparr>wd_tick := Suc (wd_tick w)\<rparr>"
  have w: "publishes sv us w0 ?w"
    using assms(1) publishes_trans publishes_log [of ?w w "[]"] by auto
  have n: "news w0 ?w = news w0 w" by (simp add: news_def)
  show "publishes sv us w0 w'"
    if run: "obind (now_of tp) (\<lambda>now. obind (otry (in_db tp (Outbox_MarkPublishedBatch (op_store p) ids now)))
      (\<lambda>_. ok True)) w = (r, w')"
  proof -
    obtain q where "in_db tp (Outbox_MarkPublishedBatch pgStore ids (tp_now tp (wd_tick w))) ?w = (q, w')"
      using run unfolding assms(3) by (auto simp: obind_apply otry_apply now_of_def split: prod.splits)
    then show ?thesis
      by (rule in_db_publishes [where ids = "set ids"])
        (rule sys_step.batch_published, erule published_marks(2), rule w, unfold n, rule assms(2))
  qed
  show "publishes sv us w0 w'"
    if i: "ids = [i]" and run: "obind (now_of tp) (\<lambda>now. obind (otry (in_db tp (Outbox_MarkPublished (op_store p) i now)))
      (\<lambda>_. ok True)) w = (r, w')"
  proof -
    obtain q where "in_db tp (Outbox_MarkPublished pgStore i (tp_now tp (wd_tick w))) ?w = (q, w')"
      using run unfolding assms(3) by (auto simp: obind_apply otry_apply now_of_def split: prod.splits)
    then show ?thesis
      by (rule in_db_publishes [where ids = "{i}"])
        (rule sys_step.published, erule published_marks(1), rule w, unfold n, rule assms(2), simp_all add: i)
  qed
qed

lemma Publish_ok:
  assumes "Publish bk us q rec w = (r, w')"
  shows "publishes sv us w w'"
    and "r = Inr () \<Longrightarrow> \<exists>call \<in> set (news w w'). accepted us (or_EventID rec) call"
proof -
  obtain u w1 where u: "publisher_url bk q w = (u, w1)" by fastforce
  have p: "publishes sv us w w1" for sv using pub_opD [OF pub_urls(2) u] .
  have "publishes sv us w w' \<and> (r = Inr () \<longrightarrow> (\<exists>call \<in> set (news w w'). accepted us (or_EventID rec) call))"
  proof (cases u)
    case (Inl e)
    then show ?thesis using assms u p by (auto simp: Publish_def)
  next
    case (Inr url)
    let ?m = "event_message us url rec"
    let ?e = "bk_send bk (wd_log w1) ?m"
    have w': "r = result_of ?e" "w' = w1\<lparr>wd_log := wd_log w1 @ [SendMessage ?m ?e]\<rparr>"
      using assms u Inr by (auto simp: Publish_def call_send_def Let_def)
    have "publishes sv us w1 w'" unfolding w'(2) by (rule publishes_log [where calls = "[SendMessage ?m ?e]"]) simp_all
    then have t: "publishes sv us w w'" by (rule publishes_trans [OF p])
    have n: "news w w' = news w w1 @ [SendMessage ?m ?e]"
      using p [of sv] by (auto simp: news_def w'(2) publishes_def prefix_def)
    have "accepted us (or_EventID rec) (SendMessage ?m ?e)" if "r = Inr ()"
      using that unfolding w'(1) by (cases ?e) (simp_all add: result_of_def accepted_def event_message_def)
    then show ?thesis using t unfolding n by auto
  qed
  then show "publishes sv us w w'"
    and "r = Inr () \<Longrightarrow> \<exists>call \<in> set (news w w'). accepted us (or_EventID rec) call" by blast+
qed

lemma pub_one [simp]: "op_store p = pgStore \<Longrightarrow> pub_op sv (op_uuid_string p) (publishOne p tp rec)"
  unfolding pub_op_def
proof (intro allI impI)
  fix w r w'
  assume p: "op_store p = pgStore" and run: "publishOne p tp rec w = (r, w')"
  obtain a w1 where a: "Publish (op_broker p) (op_uuid_string p) (op_queue p) rec w = (a, w1)" by fastforce
  note k = Publish_ok [OF a]
  show "publishes sv (op_uuid_string p) w w'"
  proof (cases a)
    case (Inl e)
    then have "obind (reschedule p tp (or_EventID rec) (or_Attempts rec) e) (\<lambda>_. ok True) w1 = (r, w')"
      using run a by (simp add: publishOne_def)
    moreover have "pub_op sv (op_uuid_string p)
        (obind (reschedule p tp (or_EventID rec) (or_Attempts rec) e) (\<lambda>_. ok True))"
      by (intro pub_intros pub_basic pub_reschedule p)
    ultimately show ?thesis using k(1) publishes_trans pub_opD by blast
  next
    case (Inr u)
    show ?thesis
    proof (cases "ob_CrashAfterPublish (op_cfg p)")
      case True
      then show ?thesis using run a Inr k(1) by (simp add: publishOne_def)
    next
      case False
      then show ?thesis
        using run a Inr k(2) by (intro marking(2) [OF k(1) _ p refl]) (auto simp: publishOne_def)
    qed
  qed
qed

lemma batch_accepted:
  assumes "s \<in> set (bo_Successful out)" and "batch_id recs s \<noteq> uuid_Nil"
  shows "accepted us (batch_id recs s)
    (SendMessageBatch url (map2 (batch_entry us) [0..<length recs] recs) (Inr out))"
proof -
  obtain n where n: "find (\<lambda>n. entry_id n = s) [0..<length recs] = Some n"
    and i: "batch_id recs s = or_EventID (recs ! n)"
    using assms(2) by (auto simp: batch_id_def split: option.splits)
  have l: "n < length recs" "entry_id n = s" using n by (auto simp: find_Some_iff)
  let ?e = "batch_entry us n (recs ! n)"
  have "?e = map2 (batch_entry us) [0..<length recs] recs ! n" using l by simp
  then have "?e \<in> set (map2 (batch_entry us) [0..<length recs] recs)" using l by (metis length_map length_zip
      length_upt minus_nat.diff_0 min.idem nth_mem)
  moreover have "be_Id ?e \<in> set (bo_Successful out)" "be_MessageDeduplicationId ?e = us (batch_id recs s)"
    using assms(1) l i by (simp_all add: batch_entry_def)
  ultimately show ?thesis by (simp only: accepted_def Call.case sum.case) blast
qed

lemma PublishBatch_ok:
  assumes "PublishBatch bk us q recs w = (r, w')"
  shows "publishes sv us w w'"
    and "r = Inr (pub, failed) \<Longrightarrow> i \<in> set pub \<Longrightarrow> i \<noteq> uuid_Nil \<Longrightarrow>
      \<exists>call \<in> set (news w w'). accepted us i call"
proof -
  let ?P = "publishes sv us w w' \<and> (r = Inr (pub, failed) \<longrightarrow> i \<in> set pub \<longrightarrow> i \<noteq> uuid_Nil \<longrightarrow>
      (\<exists>call \<in> set (news w w'). accepted us i call))"
  obtain u w1 where u: "publisher_url bk q w = (u, w1)" by fastforce
  have p: "publishes sv us w w1" using pub_opD [OF pub_urls(2) u] .
  have ?P
  proof (cases "recs = [] \<or> length recs > 10")
    case True
    then show ?thesis using assms by (cases "recs = []") (auto simp: PublishBatch_def)
  next
    case big: False
    show ?thesis
    proof (cases u)
      case (Inl e)
      then show ?thesis using assms u p big by (auto simp: PublishBatch_def)
    next
      case (Inr url)
      let ?es = "map2 (batch_entry us) [0..<length recs] recs"
      let ?r = "bk_batch bk (wd_log w1) url ?es"
      have w': "w' = w1\<lparr>wd_log := wd_log w1 @ [SendMessageBatch url ?es ?r]\<rparr>"
        and r: "r = (case ?r of Inl e \<Rightarrow> Inl e | Inr out \<Rightarrow> Inr (map (batch_id recs) (bo_Successful out),
           fold (\<lambda>(i, e) errs. AList.update (batch_id recs i) e errs) (bo_Failed out) []))"
        using assms u Inr big
        by (auto simp: PublishBatch_def obind_apply call_batch_def Let_def split: sum.splits)
      have "publishes sv us w1 w'" unfolding w' by (rule publishes_log [where calls = "[SendMessageBatch url ?es ?r]"]) simp_all
      then have t: "publishes sv us w w'" by (rule publishes_trans [OF p])
      have n: "news w w' = news w w1 @ [SendMessageBatch url ?es ?r]"
        using p by (auto simp: news_def w' publishes_def prefix_def)
      show ?thesis
        using t r batch_accepted [of _ _ recs us url] unfolding n by (auto split: sum.splits)
    qed
  qed
  then show "publishes sv us w w'"
    and "r = Inr (pub, failed) \<Longrightarrow> i \<in> set pub \<Longrightarrow> i \<noteq> uuid_Nil \<Longrightarrow>
      \<exists>call \<in> set (news w w'). accepted us i call" by blast+
qed

lemma pub_each [simp]: "op_store p = pgStore \<Longrightarrow> pub_op sv (op_uuid_string p) (publishEach p tp recs)"
  by (induction recs) (auto intro!: pub_intros)

lemma pub_rescheduleAll [simp]:
  "op_store p = pgStore \<Longrightarrow> pub_op sv us (rescheduleAll p tp recs failed)"
  by (induction p tp recs failed rule: rescheduleAll.induct) (auto intro!: pub_intros)

lemma pub_chunk [simp]: "op_store p = pgStore \<Longrightarrow> pub_op sv (op_uuid_string p) (publishChunk p tp recs)"
  unfolding pub_op_def
proof (intro allI impI)
  fix w r w'
  assume p: "op_store p = pgStore" and run: "publishChunk p tp recs w = (r, w')"
  let ?us = "op_uuid_string p"
  show "publishes sv ?us w w'"
  proof (cases "length recs = 1")
    case True
    then show ?thesis using run pub_opD [OF pub_one [OF p]] by (simp add: publishChunk_def)
  next
    case False
    obtain a w1 where a: "PublishBatch (op_broker p) ?us (op_queue p) recs w = (a, w1)" by fastforce
    note k = PublishBatch_ok [OF a]
    show ?thesis
    proof (cases a)
      case (Inl e)
      then show ?thesis
        using run a False k(1) pub_opD [OF pub_each [OF p]] publishes_trans by (simp add: publishChunk_def) blast
    next
      case (Inr x)
      obtain pub failed where x: "x = (pub, failed)" by (cases x)
      let ?rest = "if pub = [] then ok True else if ob_CrashAfterPublish (op_cfg p) then ok False
        else obind (now_of tp) (\<lambda>now.
          obind (otry (in_db tp (Outbox_MarkPublishedBatch (op_store p) pub now))) (\<lambda>_. ok True))"
      obtain f w2 q w3 where f: "range_of tp failed w1 = (Inr f, w2)"
        and q: "rescheduleAll p tp recs f w2 = (q, w3)"
        and rest: "(case q of Inl e \<Rightarrow> (Inl e, w3) | Inr _ \<Rightarrow> ?rest w3) = (r, w')"
        using run a False Inr x
        by (auto simp: publishChunk_def obind_apply range_of_def split: prod.splits sum.splits)
      have s: "publishes sv ?us w1 w3"
        using publishes_trans [OF pub_opD [OF pub_reads(3) f] pub_opD [OF pub_rescheduleAll [OF p] q]] .
      have s3: "publishes sv ?us w w3" by (rule publishes_trans [OF k(1) s])
      have "news w w3 = news w w1 @ news w1 w3"
        using k(1) s by (intro news_trans) (simp_all add: publishes_def)
      then have acc: "\<exists>call \<in> set (news w w3). accepted ?us i call" if "i \<in> set pub" "i \<noteq> uuid_Nil" for i
        using k(2) [of pub failed i] that Inr x by auto
      show ?thesis
      proof (cases "\<exists>u. q = Inr u \<and> pub \<noteq> [] \<and> \<not> ob_CrashAfterPublish (op_cfg p)")
        case True
        then show ?thesis using rest by (intro marking(1) [OF s3 acc p]) auto
      next
        case False
        then show ?thesis using rest s3 by (auto split: sum.splits if_splits)
      qed
    qed
  qed
qed

lemma pub_chunks [simp]: "op_store p = pgStore \<Longrightarrow> pub_op sv (op_uuid_string p) (publishChunks n p tp recs)"
  by (induction n arbitrary: recs) (auto intro!: pub_intros)

lemma pub_tick [simp]: "op_store p = pgStore \<Longrightarrow> pub_op sv (op_uuid_string p) (outbox_tick p tp)"
  unfolding outbox_tick_def by (auto intro!: pub_intros)

text \<open>C19. An event is never marked published without the broker. Whatever the broker answers,
  whatever faults the database has and wherever the process stops, a tick of the outbox publisher
  on a reachable database leads to a reachable one whose wallets, transactions, ledger, inbox and
  events are the same, and every event that it marks published has been accepted by the broker
  during the tick, in a message whose deduplication id is the id of the event, or had been marked
  before.\<close>

theorem published_was_accepted:
  assumes "reachable sv (wd_db w)" and "op_store p = pgStore" and "outbox_tick p tp w = (r, w')"
  shows "reachable sv (wd_db w') \<and> pg_view (wd_db w') = pg_view (wd_db w) \<and>
    (\<forall>i. i \<noteq> uuid_Nil \<and> published (wd_db w') i \<longrightarrow>
      published (wd_db w) i \<or> (\<exists>call \<in> set (news w w'). accepted (op_uuid_string p) i call))"
proof -
  have p: "publishes sv (op_uuid_string p) w w'" by (rule pub_opD [OF pub_tick [OF assms(2)] assms(3)])
  then have "reachable sv (wd_db w')" "pg_view (wd_db w') = pg_view (wd_db w)"
    using outbox_only_sound [OF _ reachable_sound [OF assms(1)]] reachable_steps [OF assms(1)]
    unfolding publishes_def by blast+
  then show ?thesis using p unfolding publishes_def by blast
qed

subsection \<open>The lease\<close>

definition leases :: "time \<Rightarrow> int64 \<Rightarrow> db \<Rightarrow> uuid set" where
  "leases now n d = set (claim_ids (pg_time now) (nat (sint n)) (db_outbox d))"

lemma claim_leases:
  assumes "Outbox_Claim pgStore p now lease n d = (Inr recs, d')"
  shows "map or_EventID recs = map xr_event_id (filter (\<lambda>r. xr_event_id r \<in> leases now n d) (db_outbox d))"
    and "db_outbox d' = map (\<lambda>r. if xr_event_id r \<in> leases now n d
      then lease_row p (pg_time (now + sint lease)) r else r) (db_outbox d)"
proof -
  define ids where "ids = claim_ids (pg_time now) (nat (sint n)) (db_outbox d)"
  have ids: "leases now n d = set ids" by (simp add: leases_def ids_def)
  define f where "f = (\<lambda>r. if xr_event_id r \<in> set ids then lease_row p (pg_time (now + sint lease)) r else r)"
  have f: "xr_event_id (f r) = xr_event_id r" for r by (simp add: f_def lease_row_def)
  have run: "(if sint n < 0 then (Inl (ErrPg ''2201W'' ''''), d)
      else if list_ex (\<lambda>r. \<not> fits_int4 (xr_attempts r)) (filter (\<lambda>r. xr_event_id r \<in> set ids) (map f (db_outbox d)))
      then (Inl (ErrPg ''22003'' ''''), d)
      else (Inr (map outbox_record (filter (\<lambda>r. xr_event_id r \<in> set ids) (map f (db_outbox d)))),
        d\<lparr>db_outbox := map f (db_outbox d)\<rparr>)) = (Inr recs, d')"
    using assms unfolding pgStore_simps outboxRepo_Claim_eq Let_def ids_def f_def .
  have k: "recs = map outbox_record (filter (\<lambda>r. xr_event_id r \<in> set ids) (map f (db_outbox d)))"
    and d': "db_outbox d' = map f (db_outbox d)"
    using run by (simp_all split: if_splits) (auto split: if_splits)
  show "map or_EventID recs = map xr_event_id (filter (\<lambda>r. xr_event_id r \<in> leases now n d) (db_outbox d))"
    unfolding k filter_map ids by (simp add: comp_def f outbox_record_def)
  show "db_outbox d' = map (\<lambda>r. if xr_event_id r \<in> leases now n d
      then lease_row p (pg_time (now + sint lease)) r else r) (db_outbox d)"
    using d' unfolding f_def ids .
qed


subsection \<open>A working broker gets every event\<close>

definition working :: "'s OutboxPublisher \<Rightarrow> Tape \<Rightarrow> time \<Rightarrow> bool" where
  "working p tp now \<longleftrightarrow>
    (\<forall>log m. bk_send (op_broker p) log m = None) \<and>
    (\<forall>log url es. bk_batch (op_broker p) log url es = Inr \<lparr>bo_Successful = map be_Id es, bo_Failed = []\<rparr>) \<and>
    (\<forall>log q. \<exists>u. bk_url (op_broker p) log q = Inr u) \<and>
    (\<forall>n. tp_faults tp n = no_faults \<and> tp_ctx tp n = None \<and> tp_now tp n = now) \<and>
    \<not> ob_CrashAfterClaim (op_cfg p) \<and> \<not> ob_CrashAfterPublish (op_cfg p) \<and>
    1 \<le> sint (ob_BatchSize (op_cfg p))"

text \<open>The rows of the given ids become published, the others stay as they are.\<close>

definition delivers :: "uuid set \<Rightarrow> db \<Rightarrow> db \<Rightarrow> bool" where
  "delivers ids d d' \<longleftrightarrow>
    list_all2 (\<lambda>r r'. xr_event_id r' = xr_event_id r \<and>
      (if xr_event_id r \<in> ids then xr_published_at r' \<noteq> None else r' = r)) (db_outbox d) (db_outbox d')"

lemma delivers_none [simp]: "delivers {} d d"
  by (simp add: delivers_def list_all2_same)

lemma delivers_step:
  assumes "delivers b d' d''"
    and "list_all2 (\<lambda>r r'. xr_event_id r' = xr_event_id r \<and> (if xr_event_id r \<in> a
      then xr_event_id r \<in> b \<or> xr_published_at r' \<noteq> None else r' = r)) (db_outbox d) (db_outbox d')"
  shows "delivers (a \<union> b) d d''"
proof -
  have "length (db_outbox d') = length (db_outbox d)"
    using assms(2) by (auto dest!: list_all2_lengthD)
  then show ?thesis
    using assms unfolding delivers_def list_all2_conv_all_nth by (auto split: if_splits) (metis Un_iff)+
qed

lemma delivers_trans: "delivers a d d' \<Longrightarrow> delivers b d' d'' \<Longrightarrow> delivers (a \<union> b) d d''"
  by (erule delivers_step) (auto simp: delivers_def elim!: list_all2_mono)

lemma delivers_marks:
  "db_outbox d' = map (\<lambda>r. if xr_event_id r \<in> ids \<and> xr_published_at r = None then publish_row now r else r)
      (db_outbox d) \<Longrightarrow> delivers ids d d'"
  by (auto simp: delivers_def list_all2_conv_all_nth publish_row_def)

lemma delivers_unpublished:
  assumes "delivers ids d d'"
  shows "filter (\<lambda>r. xr_published_at r = None) (db_outbox d') =
    filter (\<lambda>r. xr_published_at r = None \<and> xr_event_id r \<notin> ids) (db_outbox d)"
  using assms unfolding delivers_def by (induction rule: list_all2_induct) (auto split: if_splits)

lemma delivers_published:
  assumes "delivers ids d d'" and "published d i \<or> (\<exists>r \<in> set (db_outbox d). xr_event_id r = i \<and> i \<in> ids)"
  shows "published d' i"
proof -
  obtain n where n: "n < length (db_outbox d)" "xr_event_id (db_outbox d ! n) = i"
    "xr_published_at (db_outbox d ! n) \<noteq> None \<or> i \<in> ids"
    using assms(2) unfolding published_def by (auto simp: in_set_conv_nth)
  then have "n < length (db_outbox d')" "xr_event_id (db_outbox d' ! n) = i"
    "xr_published_at (db_outbox d' ! n) \<noteq> None"
    using assms(1) by (auto simp: delivers_def list_all2_conv_all_nth split: if_splits)
  then show ?thesis
    unfolding published_def by (intro bexI [of _ "db_outbox d' ! n"] conjI) simp_all
qed

lemma delivers_kept:
  assumes "delivers ids d d'" and "r \<in> set (db_outbox d)" and "xr_event_id r \<notin> ids"
  shows "r \<in> set (db_outbox d')"
proof -
  obtain n where n: "n < length (db_outbox d)" "db_outbox d ! n = r" using assms(2) by (auto simp: in_set_conv_nth)
  then have "n < length (db_outbox d')" "db_outbox d' ! n = r"
    using assms(1,3) by (auto simp: delivers_def list_all2_conv_all_nth)
  then show ?thesis by (metis nth_mem)
qed

lemma delivers_rows:
  assumes "delivers ids d d'" and "r' \<in> set (db_outbox d')" and "xr_event_id r' \<notin> ids"
  shows "r' \<in> set (db_outbox d)"
proof -
  obtain n where n: "n < length (db_outbox d')" "db_outbox d' ! n = r'" using assms(2) by (auto simp: in_set_conv_nth)
  then have "n < length (db_outbox d)" "db_outbox d ! n = r'"
    using assms(1,3) by (auto simp: delivers_def list_all2_conv_all_nth split: if_splits)
  then show ?thesis by (metis nth_mem)
qed

lemma publisher_url_works:
  assumes "\<forall>log q. \<exists>u. bk_url bk log q = Inr u"
  obtains url w' where "publisher_url bk q w = (Inr url, w')" and "wd_db w' = wd_db w"
proof -
  obtain u where u: "bk_url bk (wd_log w) q = Inr u" using assms by blast
  show ?thesis
  proof (cases "wd_queueURL w = ''''")
    case False
    then show ?thesis by (intro that [of "wd_queueURL w" w]) (simp_all add: publisher_url_def)
  next
    case empty: True
    show ?thesis
    proof (cases "wd_urls w q")
      case None
      then show ?thesis
        using empty u
        by (intro that [of u "w\<lparr>wd_log := wd_log w @ [GetQueueUrl q (Inr u)], wd_urls := (wd_urls w)(q \<mapsto> u), wd_queueURL := u\<rparr>"])
          (simp_all add: publisher_url_def QueueURL_def call_url_def obind_apply Let_def)
    next
      case (Some v)
      then show ?thesis
        using empty by (intro that [of v "w\<lparr>wd_queueURL := v\<rparr>"])
          (simp_all add: publisher_url_def QueueURL_def obind_apply)
    qed
  qed
qed


lemma in_db_works:
  "working p tp now \<Longrightarrow> m (wd_db w) = (Inr a, d') \<Longrightarrow>
    in_db tp m w = (Inr a, w\<lparr>wd_db := d', wd_tick := Suc (wd_tick w)\<rparr>)"
  by (simp add: in_db_def working_def uow_Do_def)

lemma working_now: "working p tp now \<Longrightarrow> now_of tp w = (Inr now, w\<lparr>wd_tick := Suc (wd_tick w)\<rparr>)"
  by (simp add: now_of_def working_def)

lemma marking_works:
  assumes "working p tp now" and "m now (wd_db w) = (Inr a, d')"
  shows "\<exists>w'. obind (now_of tp) (\<lambda>now. obind (otry (in_db tp (m now))) (\<lambda>_. ok True)) w = (Inr True, w') \<and>
    wd_db w' = d'"
proof -
  have "in_db tp (m now) (w\<lparr>wd_tick := Suc (wd_tick w)\<rparr>) =
      (Inr a, w\<lparr>wd_db := d', wd_tick := Suc (Suc (wd_tick w))\<rparr>)"
    using in_db_works [OF assms(1), of "m now" "w\<lparr>wd_tick := Suc (wd_tick w)\<rparr>"] assms(2) by simp
  then show ?thesis by (simp add: obind_apply otry_apply working_now [OF assms(1)])
qed

lemma publishOne_works:
  assumes "working p tp now" and "op_store p = pgStore"
  shows "\<exists>w'. publishOne p tp rec w = (Inr True, w') \<and> delivers {or_EventID rec} (wd_db w) (wd_db w')"
proof -
  obtain url w1 where u: "publisher_url (op_broker p) (op_queue p) w = (Inr url, w1)" "wd_db w1 = wd_db w"
    using publisher_url_works [of "op_broker p" "op_queue p" w] assms(1) by (auto simp: working_def)
  define w2 where "w2 = w1\<lparr>wd_log := wd_log w1 @ [SendMessage (event_message (op_uuid_string p) url rec) None]\<rparr>"
  have "Publish (op_broker p) (op_uuid_string p) (op_queue p) rec w = (Inr (), w2)"
    using u assms(1) by (simp add: Publish_def obind_apply call_send_def working_def result_of_def w2_def)
  then have "publishOne p tp rec w = obind (now_of tp) (\<lambda>now. obind (otry (in_db tp
      (Outbox_MarkPublished pgStore (or_EventID rec) now))) (\<lambda>_. ok True)) w2"
    using assms by (simp add: publishOne_def obind_apply otry_apply working_def)
  moreover obtain d' where d': "Outbox_MarkPublished pgStore (or_EventID rec) now (wd_db w2) = (Inr (), d')"
    "delivers {or_EventID rec} (wd_db w2) d'"
    using that [OF _ delivers_marks [where now = now]]
    by (simp add: pgStore_simps outboxRepo_MarkPublished_def)
  moreover have "wd_db w2 = wd_db w" by (simp add: w2_def u(2))
  ultimately show ?thesis
    using marking_works [OF assms(1), where m = "Outbox_MarkPublished pgStore (or_EventID rec)", OF d'(1)]
      d'(2) by auto
qed

lemma entry_id_inject [simp]: "entry_id m = entry_id n \<longleftrightarrow> m = n"
  by (metis digits_val_nat_str entry_id_def list.inject)

lemma batch_id_entry: "n < length recs \<Longrightarrow> batch_id recs (entry_id n) = or_EventID (recs ! n)"
proof -
  assume n: "n < length recs"
  have "find (\<lambda>m. entry_id m = entry_id n) [0..<length recs] = Some n"
    using n by (simp add: find_Some_iff) (rule exI [of _ n], simp)
  then show ?thesis by (simp add: batch_id_def)
qed

lemma PublishBatch_works:
  assumes "working p tp now" and "recs \<noteq> []" and "length recs \<le> 10"
  shows "\<exists>w'. PublishBatch (op_broker p) us (op_queue p) recs w = (Inr (map or_EventID recs, []), w') \<and>
    wd_db w' = wd_db w"
proof -
  obtain url w1 where u: "publisher_url (op_broker p) (op_queue p) w = (Inr url, w1)" "wd_db w1 = wd_db w"
    using publisher_url_works [of "op_broker p" "op_queue p" w] assms(1) by (auto simp: working_def)
  let ?es = "map2 (batch_entry us) [0..<length recs] recs"
  have "map (batch_id recs) (map be_Id ?es) = map or_EventID recs"
    by (rule nth_equalityI) (simp_all add: batch_entry_def batch_id_entry)
  then show ?thesis
    using assms u by (simp add: PublishBatch_def obind_apply call_batch_def working_def Let_def)
qed

lemma publishChunk_works:
  assumes "working p tp now" and "op_store p = pgStore" and "recs \<noteq> []" and "length recs \<le> 10"
  shows "\<exists>w'. publishChunk p tp recs w = (Inr True, w') \<and>
    delivers (or_EventID ` set recs) (wd_db w) (wd_db w')"
proof (cases "length recs = 1")
  case True
  then obtain r where "recs = [r]" by (auto simp: length_Suc_conv)
  then show ?thesis using publishOne_works [OF assms(1,2)] by (simp add: publishChunk_def)
next
  case False
  obtain w1 where b: "PublishBatch (op_broker p) (op_uuid_string p) (op_queue p) recs w =
      (Inr (map or_EventID recs, []), w1)" "wd_db w1 = wd_db w"
    using PublishBatch_works [OF assms(1,3,4)] by blast
  define w2 where "w2 = w1\<lparr>wd_tick := Suc (wd_tick w1)\<rparr>"
  have "publishChunk p tp recs w = obind (now_of tp) (\<lambda>now. obind (otry (in_db tp
      (Outbox_MarkPublishedBatch pgStore (map or_EventID recs) now))) (\<lambda>_. ok True)) w2"
    using assms False b(1)
    by (simp add: publishChunk_def obind_apply otry_apply range_of_def working_def w2_def)
  moreover obtain d' where d': "Outbox_MarkPublishedBatch pgStore (map or_EventID recs) now (wd_db w2) = (Inr (), d')"
    "delivers (or_EventID ` set recs) (wd_db w2) d'"
    using that [OF _ delivers_marks [where now = now]] assms(3)
    by (simp add: pgStore_simps outboxRepo_MarkPublishedBatch_def)
  moreover have "wd_db w2 = wd_db w" by (simp add: w2_def b(2))
  ultimately show ?thesis
    using marking_works [OF assms(1),
      where m = "Outbox_MarkPublishedBatch pgStore (map or_EventID recs)", OF d'(1)] d'(2) by auto
qed

lemma publishChunks_works:
  assumes "working p tp now" and "op_store p = pgStore"
  shows "length recs \<le> n \<Longrightarrow> \<exists>w'. publishChunks n p tp recs w = (Inr True, w') \<and>
    delivers (or_EventID ` set recs) (wd_db w) (wd_db w')"
proof (induction n arbitrary: recs w)
  case (Suc n)
  show ?case
  proof (cases "recs = []")
    case False
    let ?w = "w\<lparr>wd_tick := Suc (wd_tick w)\<rparr>"
    obtain w1 where c: "publishChunk p tp (take sqsBatchLimit recs) ?w = (Inr True, w1)"
      "delivers (or_EventID ` set (take sqsBatchLimit recs)) (wd_db w) (wd_db w1)"
      using publishChunk_works [OF assms, of "take sqsBatchLimit recs" ?w] False by auto
    obtain w2 where r: "publishChunks n p tp (drop sqsBatchLimit recs) w1 = (Inr True, w2)"
      "delivers (or_EventID ` set (drop sqsBatchLimit recs)) (wd_db w1) (wd_db w2)"
      using Suc.IH [of "drop sqsBatchLimit recs" w1] Suc.prems by fastforce
    have "set recs = set (take sqsBatchLimit recs) \<union> set (drop sqsBatchLimit recs)"
      by (metis append_take_drop_id set_append)
    then show ?thesis
      using False assms(1) c(1) r(1) delivers_trans [OF c(2) r(2)]
      by (simp add: obind_apply ctx_of_def working_def image_Un)
  qed simp
qed simp


lemma claimIn_works:
  assumes "working p tp now" and "op_store p = pgStore"
    and "list_all (\<lambda>r. fits_int4 (xr_attempts r + 1))
      (filter (\<lambda>r. xr_event_id r \<in> leases now (ob_BatchSize (op_cfg p)) d) (db_outbox d))"
  shows "\<exists>recs d'. claimIn p now d = (Inr recs, d') \<and>
    Outbox_Claim pgStore (ob_PublisherID (op_cfg p)) now (ob_Lease (op_cfg p)) (ob_BatchSize (op_cfg p)) d = (Inr recs, d')"
proof -
  let ?c = "Outbox_Claim pgStore (ob_PublisherID (op_cfg p)) now (ob_Lease (op_cfg p)) (ob_BatchSize (op_cfg p)) d"
  have "\<exists>recs d'. ?c = (Inr recs, d')"
    using assms(1,3) unfolding pgStore_simps outboxRepo_Claim_eq Let_def leases_def [symmetric]
    by (auto simp: working_def list_all_iff list_ex_iff filter_map comp_def lease_row_def split: if_splits)
  then obtain recs d' where c: "?c = (Inr recs, d')" by blast
  have "\<exists>x. Outbox_Lag pgStore now d' = (Inr x, d')"
    by (auto simp: pgStore_simps outboxRepo_Lag_def split: list.splits)
  then show ?thesis using c by (auto simp: claimIn_def assms(2) obind_apply)
qed

lemma tick_works:
  assumes "working p tp now" and "op_store p = pgStore"
    and "list_all (\<lambda>r. fits_int4 (xr_attempts r + 1))
      (filter (\<lambda>r. xr_event_id r \<in> leases now (ob_BatchSize (op_cfg p)) (wd_db w)) (db_outbox (wd_db w)))"
  shows "\<exists>b w'. outbox_tick p tp w = (Inr b, w') \<and>
    delivers (leases now (ob_BatchSize (op_cfg p)) (wd_db w)) (wd_db w) (wd_db w')"
proof -
  let ?ids = "leases now (ob_BatchSize (op_cfg p)) (wd_db w)"
  obtain recs d' where c: "claimIn p now (wd_db w) = (Inr recs, d')"
    "Outbox_Claim pgStore (ob_PublisherID (op_cfg p)) now (ob_Lease (op_cfg p)) (ob_BatchSize (op_cfg p)) (wd_db w) = (Inr recs, d')"
    using claimIn_works [OF assms] by blast
  note l = claim_leases [OF c(2)]
  have r: "or_EventID ` set recs = ?ids \<inter> xr_event_id ` set (db_outbox (wd_db w))"
    using arg_cong [OF l(1), of set] by auto
  have rows: "list_all2 (\<lambda>r r'. xr_event_id r' = xr_event_id r \<and> (if xr_event_id r \<in> ?ids
      then xr_event_id r \<in> or_EventID ` set recs \<or> xr_published_at r' \<noteq> None else r' = r))
      (db_outbox (wd_db w)) (db_outbox d')"
    unfolding l(2) r by (auto simp: list_all2_conv_all_nth lease_row_def)
  define w1 where "w1 = w\<lparr>wd_db := d', wd_tick := Suc (Suc (wd_tick w))\<rparr>"
  have "in_db tp (claimIn p now) (w\<lparr>wd_tick := Suc (wd_tick w)\<rparr>) = (Inr recs, w1)"
    using in_db_works [OF assms(1), of "claimIn p now" "w\<lparr>wd_tick := Suc (wd_tick w)\<rparr>"] c(1) by (simp add: w1_def)
  then have t: "outbox_tick p tp w = (if recs = [] then ok False
      else obind (publishChunks (length recs) p tp recs) (\<lambda>reached.
        ok (reached \<and> int (length recs) = sint (ob_BatchSize (op_cfg p))))) w1"
    using assms(1) by (simp add: outbox_tick_def obind_apply otry_apply working_now [OF assms(1)])
      (simp add: working_def)
  obtain w2 where k: "publishChunks (length recs) p tp recs w1 = (Inr True, w2)"
    "delivers (or_EventID ` set recs) (wd_db w1) (wd_db w2)"
    using publishChunks_works [OF assms(1,2), of recs "length recs" w1] by auto
  have u: "?ids \<union> or_EventID ` set recs = ?ids" unfolding r by blast
  have d: "delivers ?ids (wd_db w) x" if "delivers (or_EventID ` set recs) d' x" for x
    using delivers_step [OF that rows] unfolding u .
  show ?thesis
  proof (cases "recs = []")
    case True
    then show ?thesis using t d [of d'] by (auto simp: w1_def)
  next
    case False
    then show ?thesis using t k d [of "wd_db w2"] by (simp add: obind_apply w1_def)
  qed
qed


text \<open>A run of the publisher: one tick for each tape.\<close>

definition publisher_run :: "db OutboxPublisher \<Rightarrow> Tape list \<Rightarrow> db World \<Rightarrow> db World" where
  "publisher_run p tps w = fold (\<lambda>tp w. snd (outbox_tick p tp w)) tps w"

definition unpublished :: "db \<Rightarrow> nat" where
  "unpublished d = length (filter (\<lambda>r. xr_published_at r = None) (db_outbox d))"

text \<open>No counter of attempts overflows when a claim increments it.\<close>

definition attempts_fit :: "db \<Rightarrow> bool" where
  "attempts_fit d \<longleftrightarrow> (\<forall>r \<in> set (db_outbox d).
    (\<exists>q \<in> set (db_outbox d). xr_event_id q = xr_event_id r \<and> xr_published_at q = None) \<longrightarrow>
    fits_int4 (xr_attempts r + 1))"

lemma leases_unpublished:
  "i \<in> leases now n d \<Longrightarrow> \<exists>q \<in> set (db_outbox d). xr_event_id q = i \<and> xr_published_at q = None"
  unfolding leases_def claim_ids_def by (auto simp: claimable_def dest!: in_set_takeD)

lemma attempts_fit_step:
  assumes "attempts_fit d" and "delivers ids d d'"
  shows "attempts_fit d'"
  unfolding attempts_fit_def
proof (intro ballI impI)
  fix r
  assume r: "r \<in> set (db_outbox d')"
    and "\<exists>q \<in> set (db_outbox d'). xr_event_id q = xr_event_id r \<and> xr_published_at q = None"
  then obtain q where "q \<in> set (filter (\<lambda>r. xr_published_at r = None) (db_outbox d'))"
    "xr_event_id q = xr_event_id r" by auto
  then have q: "q \<in> set (db_outbox d)" "xr_published_at q = None" "xr_event_id r \<notin> ids" "xr_event_id q = xr_event_id r"
    unfolding delivers_unpublished [OF assms(2)] by auto
  then have "r \<in> set (db_outbox d)" using delivers_rows [OF assms(2) r] by simp
  then show "fits_int4 (xr_attempts r + 1)" using q assms(1) unfolding attempts_fit_def by blast
qed

lemma attempts_fit_claimed:
  "attempts_fit d \<Longrightarrow> list_all (\<lambda>r. fits_int4 (xr_attempts r + 1))
    (filter (\<lambda>r. xr_event_id r \<in> leases now n d) (db_outbox d))"
  unfolding attempts_fit_def list_all_iff using leases_unpublished by fastforce

lemma tick_progress:
  assumes "delivers (leases now n d) d d'" and "claimable (pg_time now) r" and "r \<in> set (db_outbox d)"
    and "1 \<le> sint n"
  shows "unpublished d' < unpublished d"
proof -
  let ?rows = "sort_key xr_next_attempt_at (sort_key xr_created_at (filter (claimable (pg_time now)) (db_outbox d)))"
  have "r \<in> set ?rows" using assms(2,3) by simp
  then obtain q qs where rows: "?rows = q # qs" by (cases ?rows) auto
  then have "q \<in> set ?rows" by simp
  then have q: "q \<in> set (db_outbox d)" "xr_published_at q = None" by (auto simp: claimable_def)
  have "xr_event_id q \<in> leases now n d"
    using assms(4) unfolding leases_def claim_ids_def rows by (cases "nat (sint n)") auto
  then have "length (filter (\<lambda>r. xr_event_id r \<notin> leases now n d) (filter (\<lambda>r. xr_published_at r = None) (db_outbox d)))
      < length (filter (\<lambda>r. xr_published_at r = None) (db_outbox d))"
    using q by (intro length_filter_less [where x = q]) auto
  then show ?thesis
    unfolding unpublished_def delivers_unpublished [OF assms(1)] filter_filter by (simp add: conj_commute)
qed

lemma claimable_later: "claimable a r \<Longrightarrow> a \<le> b \<Longrightarrow> claimable b r"
  by (auto simp: claimable_def split: option.splits)

lemma run_publishes: "op_store p = pgStore \<Longrightarrow> publishes sv (op_uuid_string p) w (publisher_run p tps w)"
proof (induction tps arbitrary: w)
  case (Cons tp tps)
  obtain r w' where t: "outbox_tick p tp w = (r, w')" by fastforce
  show ?case
    using publishes_trans [OF pub_opD [OF pub_tick [OF Cons.prems] t] Cons.IH [OF Cons.prems]]
    by (simp add: publisher_run_def t)
qed (simp add: publisher_run_def)

lemma run_keeps_published:
  assumes "op_store p = pgStore" and "\<forall>tp \<in> set tps. \<exists>t. working p tp t"
    and "attempts_fit (wd_db w)" and "published (wd_db w) i"
  shows "published (wd_db (publisher_run p tps w)) i"
  using assms(2-4)
proof (induction tps arbitrary: w)
  case (Cons tp tps)
  obtain t where t: "working p tp t" using Cons.prems(1) by auto
  obtain b w' where w': "outbox_tick p tp w = (Inr b, w')"
    "delivers (leases t (ob_BatchSize (op_cfg p)) (wd_db w)) (wd_db w) (wd_db w')"
    using tick_works [OF t assms(1) attempts_fit_claimed [OF Cons.prems(2)]] by blast
  then show ?case
    using Cons.IH [of w'] Cons.prems attempts_fit_step [OF Cons.prems(2) w'(2)]
      delivers_published [OF w'(2)] by (simp add: publisher_run_def)
qed (simp add: publisher_run_def)

lemma run_drains:
  assumes "op_store p = pgStore" and "\<forall>tp \<in> set tps. \<exists>t \<ge> now. working p tp t"
    and "attempts_fit (wd_db w)" and "unpublished (wd_db w) \<le> length tps"
    and "r \<in> set (db_outbox (wd_db w))" and "claimable (pg_time now) r"
  shows "published (wd_db (publisher_run p tps w)) (xr_event_id r)"
  using assms(2-6)
proof (induction tps arbitrary: w)
  case Nil
  then have "filter (\<lambda>r. xr_published_at r = None) (db_outbox (wd_db w)) = []" by (simp add: unpublished_def)
  then show ?case using Nil by (auto simp: filter_empty_conv claimable_def)
next
  case (Cons tp tps)
  obtain t where t: "working p tp t" "t \<ge> now" using Cons.prems(1) by auto
  let ?ids = "leases t (ob_BatchSize (op_cfg p)) (wd_db w)"
  obtain b w' where w': "outbox_tick p tp w = (Inr b, w')" "delivers ?ids (wd_db w) (wd_db w')"
    using tick_works [OF t(1) assms(1) attempts_fit_claimed [OF Cons.prems(2)]] by blast
  have f: "attempts_fit (wd_db w')" by (rule attempts_fit_step [OF Cons.prems(2) w'(2)])
  have tps: "\<forall>tp \<in> set tps. \<exists>t. working p tp t" using Cons.prems(1) by auto
  have run: "publisher_run p (tp # tps) w = publisher_run p tps w'" by (simp add: publisher_run_def w'(1))
  show ?case
  proof (cases "xr_event_id r \<in> ?ids")
    case True
    then have "published (wd_db w') (xr_event_id r)" using delivers_published [OF w'(2)] Cons.prems(4) by blast
    then show ?thesis unfolding run by (rule run_keeps_published [OF assms(1) tps f])
  next
    case False
    have c: "claimable (pg_time t) r" using Cons.prems(5) pg_time_mono [OF t(2)] claimable_later by blast
    have "unpublished (wd_db w') < unpublished (wd_db w)"
      using t(1) by (intro tick_progress [OF w'(2) c Cons.prems(4)]) (simp add: working_def)
    then show ?thesis
      unfolding run using Cons.prems delivers_kept [OF w'(2) Cons.prems(4) False] by (intro Cons.IH f) auto
  qed
qed

text \<open>C18. Every event gets out. Once the database and the broker work again, a publisher that ticks
  as often as there are unpublished events has published every event that was due when it started:
  the broker accepted each of them during the run, or it had been published before.\<close>

theorem outbox_drains:
  assumes "op_store p = pgStore" and "\<forall>tp \<in> set tps. \<exists>t \<ge> now. working p tp t"
    and "\<forall>r \<in> set (db_outbox (wd_db w)). fits_int4 (xr_attempts r + 1)"
    and "unpublished (wd_db w) \<le> length tps"
    and "r \<in> set (db_outbox (wd_db w))" and "claimable (pg_time now) r" and "xr_event_id r \<noteq> uuid_Nil"
  shows "published (wd_db (publisher_run p tps w)) (xr_event_id r) \<and>
    (published (wd_db w) (xr_event_id r) \<or>
     (\<exists>call \<in> set (news w (publisher_run p tps w)). accepted (op_uuid_string p) (xr_event_id r) call))"
proof -
  have "attempts_fit (wd_db w)" using assms(3) by (simp add: attempts_fit_def)
  then have "published (wd_db (publisher_run p tps w)) (xr_event_id r)"
    using run_drains assms(1,2,4-6) by blast
  then show ?thesis using run_publishes [OF assms(1), of _ w tps] assms(7) unfolding publishes_def by blast
qed


subsection \<open>The publisher on concrete values\<close>

definition demo_publisher :: "db OutboxPublisher" where
  "demo_publisher =
    \<lparr>op_store = pgStore, op_broker = demo_broker, op_uuid_string = (\<lambda>i. if i = 7 then ''w'' else ''p''),
     op_error_text = (\<lambda>_. ''error''), op_queue = ''events'',
     op_cfg = NewOutboxConfig ''pub'' \<lparr>ob_PublisherID = '''', ob_PollInterval = 0, ob_BatchSize = 4, ob_Lease = 0,
       ob_BaseBackoff = 0, ob_MaxBackoff = 0, ob_CrashAfterClaim = False, ob_CrashAfterPublish = False\<rparr>\<rparr>"

lemma demo_working: "working demo_publisher demo_tape 2000000000"
  by (simp add: working_def demo_publisher_def demo_broker_def demo_tape_def NewOutboxConfig_def Let_def)

lemma demo_publisher_store: "op_store demo_publisher = pgStore"
  by (simp add: demo_publisher_def)

theorem published_was_accepted_witness:
  "reachable demo_sv (wd_db (snd (outbox_tick demo_publisher demo_tape (demo_world db4)))) \<and>
   pg_view (wd_db (snd (outbox_tick demo_publisher demo_tape (demo_world db4)))) = pg_view db4"
proof -
  obtain r w' where t: "outbox_tick demo_publisher demo_tape (demo_world db4) = (r, w')" by fastforce
  have "reachable demo_sv (wd_db (demo_world db4))" using db4_reachable by (simp add: demo_world_def)
  from published_was_accepted [OF this demo_publisher_store t] show ?thesis
    by (simp add: t) (simp add: demo_world_def)
qed

theorem outbox_drains_witness:
  "published (wd_db (publisher_run demo_publisher (replicate 7 demo_tape) (demo_world db4))) 13"
proof -
  let ?w = "demo_world db4"
  have d: "wd_db ?w = db4" by (simp add: demo_world_def)
  have r: "\<forall>tp \<in> set (replicate 7 demo_tape). \<exists>t \<ge> 2000000000. working demo_publisher tp t"
    using demo_working by auto
  have f: "\<forall>r \<in> set (db_outbox (wd_db ?w)). fits_int4 (xr_attempts r + 1)"
    unfolding d by code_simp
  have u: "unpublished (wd_db ?w) \<le> length (replicate 7 demo_tape)" unfolding d by code_simp
  have e: "demo_event1 \<in> set (db_outbox (wd_db ?w))" unfolding d by (simp add: db4_def)
  have c: "claimable (pg_time 2000000000) demo_event1" by code_simp
  have i: "xr_event_id demo_event1 \<noteq> uuid_Nil" by code_simp
  show ?thesis
    using outbox_drains [OF demo_publisher_store r f u e c i] by (simp add: demo_event1_def)
qed

end
