(* ===== verification/Interleaving.thy ===== *)
theory Interleaving
  imports Idempotency
begin

text \<open>
  Units of work that run at the same time. The theory System lets them run one after the other;
  here an operation of a provider (\<^verbatim>\<open>ProcessIn\<close> of \<^verbatim>\<open>internal/app/process.go\<close>, and the callback of
  the consumer around it) runs at READ COMMITTED: before each of its statements the other processes
  may commit any number of units of work, so that each statement reads another database, until the
  statement \<^verbatim>\<open>SELECT ... FOR UPDATE\<close> holds the row of the wallet. The use case itself is the
  definition of the theory Process, run on another \<^verbatim>\<open>Store\<close>.

  From the row lock on no other unit of work commits before the end of this one. For those of the
  same wallet this is what the lock does; that units of other wallets may go on, in the database, is
  left out. A retry claims a waiting transaction first, past the rows that others have locked, and
  then waits for the wallet like any operation. The claim of the outbox is one statement, and is a
  step of its own in the theory System.
\<close>

subsection \<open>A session\<close>

text \<open>A session sees what is committed with its own effects on top; \<^verbatim>\<open>ss_own\<close> does them again
  on whatever has been committed since. \<^verbatim>\<open>ss_clock\<close> counts the statements sent.\<close>

record session =
  ss_clock :: nat
  ss_locked :: bool
  ss_committed :: db
  ss_own :: "db \<Rightarrow> db"

definition own_view :: "session \<Rightarrow> db" where
  "own_view s = ss_own s (ss_committed s)"

definition new_session :: "db \<Rightarrow> session" where
  "new_session d = \<lparr>ss_clock = 0, ss_locked = False, ss_committed = d, ss_own = id\<rparr>"

text \<open>What the other processes commit before the statement of each number.\<close>

type_synonym others = "nat \<Rightarrow> db \<Rightarrow> db"

definition interfere :: "others \<Rightarrow> session \<Rightarrow> db" where
  "interfere env s = (if ss_locked s then ss_committed s else env (ss_clock s) (ss_committed s))"

definition stmt :: "others \<Rightarrow> bool \<Rightarrow> (db, 'a) op \<Rightarrow> (session, 'a) op" where
  "stmt env locks m = (\<lambda>s.
    let c = interfere env s;
        r = fst (m (ss_own s c))
    in (r, \<lparr>ss_clock = Suc (ss_clock s), ss_locked = (ss_locked s \<or> locks \<and> \<not> isl r),
            ss_committed = c, ss_own = (\<lambda>d. snd (m (ss_own s d)))\<rparr>))"

definition sharedStore :: "others \<Rightarrow> session Store" where
  "sharedStore env =
    \<lparr>Wallets_Create = \<lambda>w. stmt env False (walletRepo_Create w),
     Wallets_Get = \<lambda>i. stmt env False (walletRepo_Get i),
     Wallets_GetForUpdate = \<lambda>i. stmt env True (walletRepo_GetForUpdate i),
     Wallets_Update = \<lambda>w n. stmt env False (walletRepo_Update w n),
     Transactions_Insert = \<lambda>t. stmt env False (transactionRepo_Insert t),
     Transactions_Update = \<lambda>t. stmt env False (transactionRepo_Update t),
     Transactions_Get = \<lambda>i. stmt env False (transactionRepo_Get i),
     Transactions_FindByIdempotencyKey = \<lambda>p k. stmt env False (transactionRepo_FindByIdempotencyKey p k),
     Transactions_FindByExternalID = \<lambda>p x. stmt env False (transactionRepo_FindByExternalID p x),
     Transactions_HasProcessedReversal = \<lambda>i. stmt env False (transactionRepo_HasProcessedReversal i),
     Transactions_ClaimDuePendingReference =
       \<lambda>now. stmt env False (transactionRepo_ClaimDuePendingReference now),
     Ledger_Append = \<lambda>e. stmt env False (ledgerRepo_Append e),
     Ledger_List = \<lambda>i n l. stmt env False (ledgerRepo_List i n l),
     Ledger_Totals = \<lambda>i. stmt env False (ledgerRepo_Totals i),
     Outbox_Add = \<lambda>e. stmt env False (outboxRepo_Add e),
     Outbox_Claim = \<lambda>p now lease n. stmt env False (outboxRepo_Claim p now lease n),
     Outbox_MarkPublished = \<lambda>i now. stmt env False (outboxRepo_MarkPublished i now),
     Outbox_MarkPublishedBatch = \<lambda>is now. stmt env False (outboxRepo_MarkPublishedBatch is now),
     Outbox_Reschedule = \<lambda>i now t. stmt env False (outboxRepo_Reschedule i now t),
     Outbox_Lag = \<lambda>now. stmt env False (outboxRepo_Lag now),
     Inbox_Record = \<lambda>c m h now. stmt env False (inboxRepo_Record c m h now)\<rparr>"

text \<open>\<^verbatim>\<open>UnitOfWork.Do\<close> among others: a rollback leaves what the others have committed.\<close>

definition concurrent_Do :: "others \<Rightarrow> Faults \<Rightarrow> (session, 'a) op \<Rightarrow> (db, 'a) op" where
  "concurrent_Do env f fn = (\<lambda>d.
    case f_begin f of
      Some e \<Rightarrow> (Inl e, d)
    | None \<Rightarrow>
        (case fn (new_session d) of
           (Inl e, s) \<Rightarrow> (Inl e, ss_committed s)
         | (Inr a, s) \<Rightarrow>
             (case f_commit f of
                None \<Rightarrow> (Inr a, own_view s)
              | Some (e, durable) \<Rightarrow> (Inl e, if durable then own_view s else ss_committed s))))"

definition works_among :: "Service \<Rightarrow> others \<Rightarrow> bool" where
  "works_among sv env \<longleftrightarrow> (\<forall>n d. (sys_step sv)\<^sup>*\<^sup>* d (env n d))"

subsection \<open>Behind the lock\<close>

text \<open>Once it holds the lock a session runs as if it were alone on its view.\<close>

definition sim :: "(db, 'a) op \<Rightarrow> (session, 'a) op \<Rightarrow> bool" where
  "sim m m' \<longleftrightarrow> (\<forall>s. ss_locked s \<longrightarrow>
    fst (m' s) = fst (m (own_view s)) \<and> own_view (snd (m' s)) = snd (m (own_view s)) \<and>
    ss_locked (snd (m' s)) \<and> ss_committed (snd (m' s)) = ss_committed s)"

named_theorems sim_intros

lemma simD:
  assumes "sim m m'" and "ss_locked s" and "m' s = (r, s')"
  shows "m (own_view s) = (r, own_view s')" and "ss_locked s'" and "ss_committed s' = ss_committed s"
  using assms unfolding sim_def by (metis fst_conv snd_conv prod.collapse)+

lemma simI:
  assumes "\<And>s r s'. ss_locked s \<Longrightarrow> m' s = (r, s') \<Longrightarrow>
    m (own_view s) = (r, own_view s') \<and> ss_locked s' \<and> ss_committed s' = ss_committed s"
  shows "sim m m'"
  unfolding sim_def using assms by (metis fst_conv snd_conv prod.collapse)

lemma sim_stmt [sim_intros]: "sim m (stmt env l m)"
  by (simp add: sim_def stmt_def Let_def interfere_def own_view_def)

lemma sim_basic [sim_intros]: "sim (ok a) (ok a)" "sim (fail e) (fail e)" "sim (lift r) (lift r)"
  by (simp_all add: sim_def)

lemma sim_obind [sim_intros]:
  assumes "sim m m'" and "\<And>a. sim (f a) (f' a)"
  shows "sim (obind m f) (obind m' f')"
proof (rule simI)
  fix s r s'
  assume s: "ss_locked s" and r: "obind m' f' s = (r, s')"
  obtain x t where t: "m' s = (x, t)" by fastforce
  note m = simD [OF assms(1) s t]
  show "obind m f (own_view s) = (r, own_view s') \<and> ss_locked s' \<and> ss_committed s' = ss_committed s"
  proof (cases x)
    case (Inl e)
    then show ?thesis using r m t by (auto simp: obind_apply)
  next
    case (Inr a)
    then have "f' a t = (r, s')" using r t by (simp add: obind_apply)
    from simD [OF assms(2) m(2) this] show ?thesis using m Inr by (simp add: obind_apply)
  qed
qed

lemma sim_otry [sim_intros]: "sim m m' \<Longrightarrow> sim (otry m) (otry m')"
  unfolding sim_def otry_def by (simp add: case_prod_beta)

lemma sim_branches [sim_intros]:
  "(b \<Longrightarrow> sim x x') \<Longrightarrow> (\<not> b \<Longrightarrow> sim y y') \<Longrightarrow> sim (if b then x else y) (if b then x' else y')"
  "(\<And>e. sim (f e) (f' e)) \<Longrightarrow> (\<And>a. sim (g a) (g' a)) \<Longrightarrow>
    sim (case r of Inl e \<Rightarrow> f e | Inr a \<Rightarrow> g a) (case r of Inl e \<Rightarrow> f' e | Inr a \<Rightarrow> g' a)"
  "sim x x' \<Longrightarrow> (\<And>a. sim (h a) (h' a)) \<Longrightarrow>
    sim (case q of None \<Rightarrow> x | Some a \<Rightarrow> h a) (case q of None \<Rightarrow> x' | Some a \<Rightarrow> h' a)"
  "(\<And>a b. sim (k a b) (k' a b)) \<Longrightarrow> sim (case p of (a, b) \<Rightarrow> k a b) (case p of (a, b) \<Rightarrow> k' a b)"
  "(\<And>t. sim (dn t) (dn' t)) \<Longrightarrow> (\<And>a t. sim (rs a t) (rs' a t)) \<Longrightarrow>
    sim (case z of Done t \<Rightarrow> dn t | Resolved a t \<Rightarrow> rs a t)
        (case z of Done t \<Rightarrow> dn' t | Resolved a t \<Rightarrow> rs' a t)"
  by (cases r; cases q; cases p; cases z; simp)+

lemmas shared_simps = sharedStore_def pgStore_simps

lemma sim_store [sim_intros]:
  "sim (Wallets_GetForUpdate pgStore i) (Wallets_GetForUpdate (sharedStore env) i)"
  "sim (Wallets_Update pgStore w n) (Wallets_Update (sharedStore env) w n)"
  "sim (Transactions_FindByIdempotencyKey pgStore p k) (Transactions_FindByIdempotencyKey (sharedStore env) p k)"
  "sim (Transactions_FindByExternalID pgStore p k) (Transactions_FindByExternalID (sharedStore env) p k)"
  "sim (Transactions_HasProcessedReversal pgStore i) (Transactions_HasProcessedReversal (sharedStore env) i)"
  "sim (Transactions_Insert pgStore t) (Transactions_Insert (sharedStore env) t)"
  "sim (Ledger_Append pgStore e) (Ledger_Append (sharedStore env) e)"
  "sim (Outbox_Add pgStore ev) (Outbox_Add (sharedStore env) ev)"
  unfolding shared_simps by (rule sim_stmt)+

lemma sim_lookup [sim_intros]: "sim (lookupExisting pgStore cmd hash) (lookupExisting (sharedStore env) cmd hash)"
  unfolding lookupExisting_def Let_def by (intro sim_intros)

lemma sim_resolve [sim_intros]:
  "sim (resolveReferenceTx sv pgStore tx w now) (resolveReferenceTx sv (sharedStore env) tx w now)"
  unfolding resolveReferenceTx_def Let_def by (intro sim_intros)

lemma sim_apply [sim_intros]:
  "sim (apply_tx sv pgStore i tx w now) (apply_tx sv (sharedStore env) i tx w now)"
  unfolding apply_tx_def by (cases "t_kind tx"; simp only: Kind.case; intro sim_intros)

lemma sim_persist [sim_intros]:
  "sim (persistOutcome sv pgStore en tx w entry) (persistOutcome sv (sharedStore env) en tx w entry)"
  unfolding persistOutcome_def by (cases "t_status tx"; simp only: Status.case; intro sim_intros)

subsection \<open>Before the lock\<close>

definition behind_lock :: "Service \<Rightarrow> 's Store \<Rightarrow> env \<Rightarrow> ProcessCommand \<Rightarrow> string \<Rightarrow> Wallet \<Rightarrow> ('s, ProcessResult) op" where
  "behind_lock sv st en cmd hash w =
    obind (lookupExisting st cmd hash) (\<lambda>r. case r of
      Some res \<Rightarrow> ok res
    | None \<Rightarrow>
        obind (lift (NewExternal (e_txID en) (pc_Request cmd) (pc_IdempotencyKey cmd) hash
                       (pc_CorrelationID cmd) (e_now en))) (\<lambda>tx.
        obind (apply_tx sv st (e_entryID en) tx w (e_now en)) (\<lambda>(entry, tx, w).
        obind (Transactions_Insert st tx) (\<lambda>_.
        obind (persistOutcome sv st en tx w entry) (\<lambda>_.
        ok \<lparr>pr_Transaction = tx, pr_IdempotentReplay = False\<rparr>)))))"

abbreviation hash_of :: "Service \<Rightarrow> ProcessCommand \<Rightarrow> string" where
  "hash_of sv cmd \<equiv> PayloadHash (sv_uuid_string sv) (sv_sha256_hex sv) (pc_Request cmd)"

lemma ProcessIn_split:
  assumes "pc_IdempotencyKey cmd \<noteq> ''''"
  shows "ProcessIn sv st en cmd =
    obind (lookupExisting st cmd (hash_of sv cmd)) (\<lambda>r. case r of
      Some res \<Rightarrow> ok res
    | None \<Rightarrow> obind (Wallets_GetForUpdate st (er_WalletID (pc_Request cmd)))
                (behind_lock sv st en cmd (hash_of sv cmd)))"
  using assms unfolding ProcessIn_def behind_lock_def Let_def by simp

lemma sim_behind_lock: "sim (behind_lock sv pgStore en cmd h w) (behind_lock sv (sharedStore env) en cmd h w)"
  unfolding behind_lock_def by (intro sim_intros)

text \<open>What \<^verbatim>\<open>lookupExisting\<close> answers when its first query reads the content \<^verbatim>\<open>a\<close> and its second
  one the content \<^verbatim>\<open>b\<close>.\<close>

definition looked_up :: "ProcessCommand \<Rightarrow> string \<Rightarrow> View \<Rightarrow> View \<Rightarrow> error + ProcessResult option" where
  "looked_up cmd hash a b =
    (let p = er_ProviderID (pc_Request cmd); k = pc_IdempotencyKey cmd;
         x = er_ExternalTransactionID (pc_Request cmd);
         found = (\<lambda>t. if t_payloadHash t \<noteq> hash then Inl ErrIdempotencyConflict
                      else Inr (Some \<lparr>pr_Transaction = t, pr_IdempotentReplay = True\<rparr>))
     in
     if \<not> texts_ok [p, k] then Inl text_error
     else (case by_key a p k of
        Some t \<Rightarrow> found t
      | None \<Rightarrow>
          if \<not> texts_ok [p, x] then Inl text_error
          else (case by_ext b p x of
             None \<Rightarrow> Inr None
           | Some t \<Rightarrow> if t_idempotencyKey t = k then found t else Inl ErrExternalIDConflict)))"

lemma text_error_found: "text_error \<noteq> ErrTransactionNotFound"
  by (simp add: text_error_def)

lemma lookup_alone:
  assumes "pg_ok d"
  shows "lookupExisting pgStore cmd hash d = (looked_up cmd hash (pg_view d) (pg_view d), d)"
  using pg_by_key_eq [OF assms] pg_by_ext_eq [OF assms] text_error_found
  by (auto simp: lookupExisting_def looked_up_def Let_def obind_apply otry_apply pgStore_simps split: option.splits)

lemma find_reads: "snd (transactionRepo_FindByIdempotencyKey p k d) = d" "snd (transactionRepo_FindByExternalID p k d) = d"
  "snd (walletRepo_GetForUpdate i d) = d"
  by (auto simp: transactionRepo_FindByIdempotencyKey_def transactionRepo_FindByExternalID_def query_tx_def
      walletRepo_GetForUpdate_def split: option.splits)

definition waited :: "session \<Rightarrow> db \<Rightarrow> session" where
  "waited s c = s\<lparr>ss_clock := Suc (ss_clock s), ss_committed := c\<rparr>"

lemma waited_simps [simp]:
  "ss_clock (waited s c) = Suc (ss_clock s)" "ss_locked (waited s c) = ss_locked s"
  "ss_committed (waited s c) = c" "ss_own (waited s c) = ss_own s" "own_view (waited s c) = ss_own s c"
  by (simp_all add: waited_def own_view_def)

lemma stmt_read:
  assumes "\<And>d. snd (m d) = d"
  shows "stmt env False m s = (fst (m (ss_own s (interfere env s))), waited s (interfere env s))"
  by (simp add: stmt_def Let_def assms waited_def)

lemma lookup_among:
  assumes "\<not> ss_locked s" and "c0 = env (ss_clock s) (ss_committed s)" and "c1 = env (Suc (ss_clock s)) c0"
    and "pg_ok (ss_own s c0)" and "pg_ok (ss_own s c1)"
  shows "lookupExisting (sharedStore env) cmd hash s =
    (looked_up cmd hash (pg_view (ss_own s c0)) (pg_view (ss_own s c1)),
     if texts_ok [er_ProviderID (pc_Request cmd), pc_IdempotencyKey cmd] \<and>
        by_key (pg_view (ss_own s c0)) (er_ProviderID (pc_Request cmd)) (pc_IdempotencyKey cmd) = None
     then waited (waited s c0) c1 else waited s c0)"
  using pg_by_key_eq [OF assms(4)] pg_by_ext_eq [OF assms(5)] text_error_found
  by (auto simp: lookupExisting_def looked_up_def Let_def obind_apply otry_apply shared_simps
      stmt_read find_reads interfere_def assms(1) assms(2,3) [symmetric] split: option.splits)

lemma absent_before:
  assumes "grows v v'"
  shows "by_key v' p k = None \<Longrightarrow> by_key v p k = None" "by_ext v' p x = None \<Longrightarrow> by_ext v p x = None"
    "v_wallets v' i = None \<Longrightarrow> v_wallets v i = None"
proof -
  note g = grows_txs [OF assms]
  show "by_key v p k = None" if "by_key v' p k = None"
    using that unfolding by_key_None by (metis g continues_def)
  show "by_ext v p x = None" if "by_ext v' p x = None"
    using that unfolding by_ext_None by (metis g continues_def)
  show "v_wallets v i = None" if "v_wallets v' i = None"
    using assms that unfolding grows_def by (cases "v_wallets v i") fastforce+
qed

text \<open>The operation alone, by what it looks up.\<close>

lemma ProcessIn_alone:
  assumes "pg_ok d" and "pc_IdempotencyKey cmd \<noteq> ''''"
  shows "ProcessIn sv pgStore en cmd d =
    (case looked_up cmd (hash_of sv cmd) (pg_view d) (pg_view d) of
       Inl e \<Rightarrow> (Inl e, d)
     | Inr (Some res) \<Rightarrow> (Inr res, d)
     | Inr None \<Rightarrow>
         (case v_wallets (pg_view d) (er_WalletID (pc_Request cmd)) of
            None \<Rightarrow> (Inl ErrWalletNotFound, d)
          | Some w \<Rightarrow> behind_lock sv pgStore en cmd (hash_of sv cmd) w d))"
  unfolding ProcessIn_split [OF assms(2)] obind_apply lookup_alone [OF assms(1)]
  by (auto simp: obind_apply pgStore_simps lock_is_get pg_Get_eq [OF assms(1)] split: sum.splits option.splits)

text \<open>A session has done at one point what it answers: what the operation \<^verbatim>\<open>m\<close>, alone, does to
  one of the databases that it met, the last one when it succeeds.\<close>

definition at_one_point :: "(db \<Rightarrow> db \<Rightarrow> bool) \<Rightarrow> (db, 'a) op \<Rightarrow> db \<Rightarrow> error + 'a \<Rightarrow> session \<Rightarrow> bool" where
  "at_one_point R m d r s \<longleftrightarrow>
    (\<exists>c. R d c \<and> R c (ss_committed s) \<and>
      (case r of
         Inl e \<Rightarrow> fst (m c) = Inl e
       | Inr a \<Rightarrow> c = ss_committed s \<and> m c = (Inr a, own_view s)))"

text \<open>The one exception: both the key and the external id have been taken since, by two operations,
  and only the second of the two is reported.\<close>

definition both_taken :: "ProcessCommand \<Rightarrow> db \<Rightarrow> bool" where
  "both_taken cmd d \<longleftrightarrow>
    by_key (pg_view d) (er_ProviderID (pc_Request cmd)) (pc_IdempotencyKey cmd) \<noteq> None \<and>
    (\<exists>u. by_ext (pg_view d) (er_ProviderID (pc_Request cmd)) (er_ExternalTransactionID (pc_Request cmd)) = Some u \<and>
         t_idempotencyKey u \<noteq> pc_IdempotencyKey cmd)"

lemma ProcessIn_among:
  assumes "\<not> ss_locked s" and "c0 = env (ss_clock s) (ss_committed s)" and "c1 = env (Suc (ss_clock s)) c0"
    and "c2 = env (Suc (Suc (ss_clock s))) c1" and "\<And>c. c \<in> {c0, c1, c2} \<Longrightarrow> pg_ok (ss_own s c)"
    and "grows (pg_view (ss_own s c0)) (pg_view (ss_own s c1))"
    and "grows (pg_view (ss_own s c1)) (pg_view (ss_own s c2))"
    and "reflp R" and "transp R" and "R (ss_committed s) c0" and "R c0 c1" and "R c1 c2"
    and "ProcessIn sv (sharedStore env) en cmd s = (r, s')"
  shows "at_one_point R (\<lambda>c. ProcessIn sv pgStore en cmd (ss_own s c)) (ss_committed s) r s' \<or>
    r = Inl ErrExternalIDConflict \<and> ss_committed s' = c1 \<and> both_taken cmd (ss_own s c1)"
    (is "?point \<or> ?both")
proof (cases "pc_IdempotencyKey cmd = ''''")
  case True
  then have "r = Inl ErrValidation" "s' = s" using assms(13) by (auto simp: ProcessIn_def)
  then show ?thesis using True assms(8) by (auto simp: at_one_point_def ProcessIn_def reflp_def)
next
  case False
  let ?p = "er_ProviderID (pc_Request cmd)" and ?k = "pc_IdempotencyKey cmd"
  let ?x = "er_ExternalTransactionID (pc_Request cmd)" and ?h = "hash_of sv cmd"
  let ?v = "\<lambda>c. pg_view (ss_own s c)"
  have R: "R (ss_committed s) c0" "R (ss_committed s) c1" "R (ss_committed s) c2" "R c0 c1" "R c0 c2" "R c1 c2"
    "R c0 c0" "R c1 c1" "R c2 c2"
    using assms(8-12) unfolding transp_def reflp_def by blast+
  note ok = assms(5) [of c0, simplified] assms(5) [of c1, simplified] assms(5) [of c2, simplified]
  have vok: "view_ok (?v c1)" using ok(2) by (simp add: pg_ok_def)
  note alone = ProcessIn_alone [OF ok(1) False] ProcessIn_alone [OF ok(2) False] ProcessIn_alone [OF ok(3) False]
  note run = assms(13) [unfolded ProcessIn_split [OF False] obind_apply lookup_among [OF assms(1-3) ok(1,2)]]
  show ?thesis
  proof (cases "texts_ok [?p, ?k] \<and> by_key (?v c0) ?p ?k = None")
    case False
    then have "looked_up cmd ?h (?v c0) (?v c1) = looked_up cmd ?h (?v c0) (?v c0)"
      "looked_up cmd ?h (?v c0) (?v c0) \<noteq> Inr None"
      by (auto simp: looked_up_def Let_def split: option.splits)
    then have ?point
      using run False alone(1) R(1,7) by (auto simp: at_one_point_def split: sum.splits option.splits)
    then show ?thesis ..
  next
    case key: True
    then have k0: "by_key (?v c0) ?p ?k = None" and tx: "texts_ok [?p, ?k]" by auto
    show ?thesis
    proof (cases "texts_ok [?p, ?x]")
      case False
      then have "looked_up cmd ?h (?v c0) a = Inl text_error" for a
        using k0 tx by (simp add: looked_up_def Let_def)
      then have "r = Inl text_error" "fst (ProcessIn sv pgStore en cmd (ss_own s c0)) = Inl text_error"
        "s' = waited (waited s c0) c1"
        using run key alone(1) by auto
      then show ?thesis using R(1,4) by (auto simp: at_one_point_def)
    next
      case tx2: True
      show ?thesis
      proof (cases "by_ext (?v c1) ?p ?x")
        case (Some u)
        note u = by_ext_Some [OF vok, THEN iffD1, OF Some]
        show ?thesis
        proof (cases "t_idempotencyKey u = ?k \<or> by_key (?v c1) ?p ?k = None")
          case True
          have "t_idempotencyKey u = ?k \<Longrightarrow> by_key (?v c1) ?p ?k = Some u"
            using u by_key_Some [OF vok, of ?p ?k u] by blast
          then have "looked_up cmd ?h (?v c0) (?v c1) = looked_up cmd ?h (?v c1) (?v c1)"
            "looked_up cmd ?h (?v c1) (?v c1) \<noteq> Inr None"
            using True Some k0 tx tx2 by (auto simp: looked_up_def Let_def split: option.splits)
          then have ?point
            using run key alone(2) R(2,8) by (auto simp: at_one_point_def split: sum.splits option.splits)
          then show ?thesis ..
        next
          case False
          then have "looked_up cmd ?h (?v c0) (?v c1) = Inl ErrExternalIDConflict"
            using Some k0 tx tx2 by (simp add: looked_up_def Let_def)
          then have ?both using run key False Some by (auto simp: both_taken_def)
          then show ?thesis ..
        qed
      next
        case None
        note x0 = absent_before(2) [OF assms(6) None]
        have l: "looked_up cmd ?h (?v c0) (?v c1) = Inr None" "looked_up cmd ?h (?v c0) (?v c0) = Inr None"
          using k0 tx tx2 x0 None by (simp_all add: looked_up_def Let_def)
        let ?s2 = "waited (waited s c0) c1" and ?i = "er_WalletID (pc_Request cmd)"
        have c: "interfere env ?s2 = c2" using assms(1,4) by (simp add: interfere_def)
        obtain g s3 where g: "Wallets_GetForUpdate (sharedStore env) ?i ?s2 = (g, s3)" by fastforce
        then have g3: "g = fst (walletRepo_Get ?i (ss_own s c2))" "ss_committed s3 = c2"
          "ss_locked s3 = (\<not> isl g)" "own_view s3 = ss_own s c2"
          using assms(1) find_reads(3) by (auto simp: shared_simps stmt_def Let_def c own_view_def lock_is_get)
        show ?thesis
        proof (cases "v_wallets (?v c2) ?i")
          case None
          then have n: "v_wallets (?v c0) ?i = None"
            using absent_before(3) [OF grows_trans [OF assms(6,7)]] by blast
          have "g = Inl ErrWalletNotFound" using g3(1) None by (simp add: pg_Get_eq [OF ok(3)])
          then have "r = Inl ErrWalletNotFound" "ss_committed s' = c2"
            "fst (ProcessIn sv pgStore en cmd (ss_own s c0)) = Inl ErrWalletNotFound"
            using run key l g g3(2) n alone(1) by (auto simp: obind_apply)
          then show ?thesis using R(1,5) by (auto simp: at_one_point_def)
        next
          case (Some w)
          then have w: "g = Inr w" using g3(1) by (simp add: pg_Get_eq [OF ok(3)])
          then have "behind_lock sv (sharedStore env) en cmd ?h w s3 = (r, s')"
            using run key l g by (simp add: obind_apply)
          from simD [OF sim_behind_lock _ this]
          have b: "behind_lock sv pgStore en cmd ?h w (ss_own s c2) = (r, own_view s')" "ss_committed s' = c2"
            using w g3 by auto
          have "ProcessIn sv pgStore en cmd (ss_own s c2) = (r, own_view s')"
          proof (cases "looked_up cmd ?h (?v c2) (?v c2)")
            case (Inl e)
            then show ?thesis
              using b(1) alone(3) by (simp add: behind_lock_def obind_apply lookup_alone [OF ok(3)])
          next
            case (Inr q)
            then show ?thesis
              using b(1) alone(3) Some
              by (cases q) (simp_all add: behind_lock_def obind_apply lookup_alone [OF ok(3)])
          qed
          then show ?thesis using b(2) R(3,9) by (auto simp: at_one_point_def split: sum.splits)
        qed
      qed
    qed
  qed
qed

subsection \<open>The unit of work among others\<close>

lemma at_one_point_Do:
  assumes "fn (new_session d) = (r0, s)" and "at_one_point R m d r0 s" and "reflp R"
    and "concurrent_Do env f fn d = (r, d')"
  shows "\<exists>d1 d2. R d d1 \<and> uow_Do f m d1 = (r, d2) \<and> R d2 d'"
proof -
  have refl: "R x x" for x using assms(3) by (simp add: reflp_def)
  obtain c where c: "R d c" "R c (ss_committed s)"
    "case r0 of Inl e \<Rightarrow> fst (m c) = Inl e | Inr a \<Rightarrow> c = ss_committed s \<and> m c = (Inr a, own_view s)"
    using assms(2) unfolding at_one_point_def by blast
  show ?thesis
  proof (cases "f_begin f")
    case (Some e)
    then have "uow_Do f m d = (r, d)" "d' = d" using assms(4) by (auto simp: concurrent_Do_def uow_Do_def)
    then show ?thesis using refl by metis
  next
    case None
    show ?thesis
    proof (cases r0)
      case (Inl e)
      then have "uow_Do f m c = (r, c)" "d' = ss_committed s"
        using assms(1,4) None c(3) by (auto simp: concurrent_Do_def uow_Do_def split: prod.splits)
      then show ?thesis using c(1,2) by metis
    next
      case (Inr a)
      then have "uow_Do f m c = (r, d')"
        using assms(1,4) None c(3) by (auto simp: concurrent_Do_def uow_Do_def split: option.splits)
      then show ?thesis using c(1) refl by metis
    qed
  qed
qed

lemma works_steps: "works_among sv env \<Longrightarrow> (sys_step sv)\<^sup>*\<^sup>* d (env n d)"
  by (simp add: works_among_def)

lemma steps_reflp: "reflp (sys_step sv)\<^sup>*\<^sup>*" and steps_transp: "transp (sys_step sv)\<^sup>*\<^sup>*"
  by (auto intro!: reflpI transpI elim: rtranclp_trans)

lemma steps_pg: "sound d \<Longrightarrow> (sys_step sv)\<^sup>*\<^sup>* d d' \<Longrightarrow> pg_ok d' \<and> grows (pg_view d) (pg_view d')"
  using steps_sound by (auto simp: sound_def)

text \<open>A unit of work that took effect at one point, as the database sees it.\<close>

lemma point_among:
  assumes "reachable sv d" and "fn (new_session d) = (r0, s)" and "concurrent_Do env f fn d = (r, d')"
    and "at_one_point (sys_step sv)\<^sup>*\<^sup>* m d r0 s" and "\<And>x. sys_step sv x (after f m x)"
  shows "reachable sv d' \<and>
    (\<exists>d1 d2. (sys_step sv)\<^sup>*\<^sup>* d d1 \<and> uow_Do f m d1 = (r, d2) \<and> (sys_step sv)\<^sup>*\<^sup>* d2 d')"
proof -
  obtain d1 d2 where p: "(sys_step sv)\<^sup>*\<^sup>* d d1" "uow_Do f m d1 = (r, d2)" "(sys_step sv)\<^sup>*\<^sup>* d2 d'"
    using at_one_point_Do [OF assms(2,4) steps_reflp assms(3)] by blast
  have "sys_step sv d1 d2" using assms(5) [of d1] p(2) by (simp add: after_def)
  then have "(sys_step sv)\<^sup>*\<^sup>* d d'" using p(1,3) by (meson rtranclp_trans rtranclp.rtrancl_into_rtrancl)
  then show ?thesis using p reachable_steps [OF assms(1)] by blast
qed

lemma unit_among:
  assumes "reachable sv d" and "fn (new_session d) = (r0, s)" and "concurrent_Do env f fn d = (r, d')"
    and "at_one_point (sys_step sv)\<^sup>*\<^sup>* m d r0 s \<or>
      r0 = Inl ErrExternalIDConflict \<and> (sys_step sv)\<^sup>*\<^sup>* d (ss_committed s) \<and> both_taken cmd (ss_committed s)"
    and "\<And>x. sys_step sv x (after f m x)"
  shows "reachable sv d' \<and>
    ((\<exists>d1 d2. (sys_step sv)\<^sup>*\<^sup>* d d1 \<and> uow_Do f m d1 = (r, d2) \<and> (sys_step sv)\<^sup>*\<^sup>* d2 d') \<or>
     (r = Inl ErrExternalIDConflict \<and> (sys_step sv)\<^sup>*\<^sup>* d d' \<and> both_taken cmd d'))"
  using assms(4)
proof
  assume "at_one_point (sys_step sv)\<^sup>*\<^sup>* m d r0 s"
  from point_among [OF assms(1-3) this assms(5)] show ?thesis by blast
next
  assume b: "r0 = Inl ErrExternalIDConflict \<and> (sys_step sv)\<^sup>*\<^sup>* d (ss_committed s) \<and> both_taken cmd (ss_committed s)"
  show ?thesis
  proof (cases "f_begin f")
    case (Some e)
    then have "uow_Do f m d = (r, d)" "d' = d" using assms(3) by (auto simp: concurrent_Do_def uow_Do_def)
    then show ?thesis using assms(1) by blast
  next
    case None
    then have "r = Inl ErrExternalIDConflict" "d' = ss_committed s"
      using assms(2,3) b by (auto simp: concurrent_Do_def)
    then show ?thesis using b reachable_steps [OF assms(1)] by blast
  qed
qed

lemma ProcessIn_unit:
  assumes "sound d" and "works_among sv env" and "ProcessIn sv (sharedStore env) en cmd (new_session d) = (r, s)"
  shows "at_one_point (sys_step sv)\<^sup>*\<^sup>* (ProcessIn sv pgStore en cmd) d r s \<or>
    r = Inl ErrExternalIDConflict \<and> (sys_step sv)\<^sup>*\<^sup>* d (ss_committed s) \<and> both_taken cmd (ss_committed s)"
proof -
  define c0 c1 c2 where c: "c0 = env 0 d" "c1 = env (Suc 0) c0" "c2 = env (Suc (Suc 0)) c1"
  have st: "(sys_step sv)\<^sup>*\<^sup>* d c0" "(sys_step sv)\<^sup>*\<^sup>* c0 c1" "(sys_step sv)\<^sup>*\<^sup>* c1 c2"
    unfolding c using works_steps [OF assms(2)] by auto
  note s0 = steps_sound [OF st(1) assms(1)]
  note s1 = steps_sound [OF st(2) conjunct1 [OF s0]]
  note s2 = steps_sound [OF st(3) conjunct1 [OF s1]]
  have "at_one_point (sys_step sv)\<^sup>*\<^sup>* (\<lambda>c. ProcessIn sv pgStore en cmd (ss_own (new_session d) c))
      (ss_committed (new_session d)) r s \<or>
    r = Inl ErrExternalIDConflict \<and> ss_committed s = c1 \<and> both_taken cmd (ss_own (new_session d) c1)"
    by (rule ProcessIn_among [where ?c0.0 = c0 and ?c1.0 = c1 and ?c2.0 = c2 and env = env])
      (use assms(3) st s0 s1 s2 steps_reflp steps_transp in \<open>auto simp: new_session_def c sound_def\<close>)
  then show ?thesis using st by (auto simp: new_session_def)
qed

text \<open>C5. An operation takes effect at one point, with one exception. Whatever other processes commit
  between its statements up to its row lock on the wallet, a unit of work that runs \<^verbatim>\<open>ProcessIn\<close>
  answers and does what it would have done alone on one of the databases between its start and its
  end, or it writes nothing and reports \<^const>\<open>ErrExternalIDConflict\<close>, which only happens when
  its key and its external id are both taken at its end, by two different operations. The two lookups
  are two statements, so when those two operations come in between, it may report the conflict of the
  external id where no run alone would. From the row lock on, others commit nothing in the model.\<close>

theorem operation_at_one_point:
  assumes "reachable sv d" and "clock_ok (e_now en)" and "works_among sv env"
    and "concurrent_Do env f (ProcessIn sv (sharedStore env) en cmd) d = (r, d')"
  shows "reachable sv d' \<and>
    ((\<exists>d1 d2. (sys_step sv)\<^sup>*\<^sup>* d d1 \<and> uow_Do f (ProcessIn sv pgStore en cmd) d1 = (r, d2) \<and>
              (sys_step sv)\<^sup>*\<^sup>* d2 d') \<or>
     (r = Inl ErrExternalIDConflict \<and> (sys_step sv)\<^sup>*\<^sup>* d d' \<and> both_taken cmd d'))"
proof -
  obtain r0 s where run: "ProcessIn sv (sharedStore env) en cmd (new_session d) = (r0, s)" by fastforce
  show ?thesis
    by (rule unit_among [OF assms(1) run assms(4)
        ProcessIn_unit [OF reachable_sound [OF assms(1)] assms(3) run] sys_step.processed [OF assms(2)]])
qed

subsection \<open>A message among others\<close>

text \<open>What the others commit once the row of the inbox is pending: not the same row, because its
  unique index makes them wait.\<close>

definition inbox_kept :: "string \<Rightarrow> string \<Rightarrow> db \<Rightarrow> db \<Rightarrow> bool" where
  "inbox_kept consumer messageID d d' \<longleftrightarrow>
    v_inbox (pg_view d') (consumer, messageID) = v_inbox (pg_view d) (consumer, messageID)"

definition spares_inbox :: "string \<Rightarrow> string \<Rightarrow> others \<Rightarrow> bool" where
  "spares_inbox consumer messageID env \<longleftrightarrow> (\<forall>n d. 0 < n \<longrightarrow> inbox_kept consumer messageID d (env n d))"

definition with_message :: "string \<Rightarrow> string \<Rightarrow> string \<Rightarrow> time \<Rightarrow> db \<Rightarrow> db" where
  "with_message c m h now d = snd (inboxRepo_Record c m h now d)"

definition refusal :: "string \<Rightarrow> error + InboxResult \<Rightarrow> error option" where
  "refusal h r =
    (case r of
       Inl e \<Rightarrow> Some e
     | Inr q \<Rightarrow>
         if ir_Inserted q then None
         else Some (if ir_ExistingHash q \<noteq> h then ErrValidation else ErrAlreadyProcessed))"

lemma refused:
  "refusal h (fst (Inbox_Record st c m h now s)) = Some e \<Longrightarrow>
    consumeIn sv st c m h now en cmd s = (Inl e, snd (Inbox_Record st c m h now s))"
  by (auto simp: consumeIn_def refusal_def obind_apply case_prod_beta split: sum.splits if_splits)

lemma record_known:
  assumes "\<not> (texts_ok [c, m, h] \<and> v_inbox (pg_view d) (c, m) = None)"
  shows "\<exists>e. refusal h (fst (inboxRepo_Record c m h now d)) = Some e"
  using assms by (auto simp: refusal_def inboxRepo_Record_def pg_view_def split: option.splits)

lemma record_new:
  assumes "texts_ok [c, m, h]" and "v_inbox (pg_view d) (c, m) = None"
  shows "inboxRepo_Record c m h now d = (Inr \<lparr>ir_Inserted = True, ir_ExistingHash = ''''\<rparr>, with_message c m h now d)"
    and "consumeIn sv pgStore c m h now en cmd d = ProcessIn sv pgStore en cmd (with_message c m h now d)"
  using assms
  by (auto simp: consumeIn_def obind_apply pgStore_simps inboxRepo_Record_def with_message_def pg_view_def
      split: option.splits)

lemma with_message_sound:
  assumes "sound d" and "texts_ok [c, m, h]" and "v_inbox (pg_view d) (c, m) = None"
  shows "sound (with_message c m h now d)"
    and "pg_view (with_message c m h now d) = (pg_view d)\<lparr>v_inbox := (v_inbox (pg_view d))((c, m) \<mapsto> h)\<rparr>"
proof -
  have i: "Inbox_Record pgStore c m h now d = (Inr \<lparr>ir_Inserted = True, ir_ExistingHash = ''''\<rparr>, with_message c m h now d)"
    using record_new(1) [OF assms(2,3)] by (simp add: pgStore_simps)
  show "sound (with_message c m h now d)" by (rule inbox_sound(1) [OF assms(1) i])
  show "pg_view (with_message c m h now d) = (pg_view d)\<lparr>v_inbox := (v_inbox (pg_view d))((c, m) \<mapsto> h)\<rparr>"
    using writesD(1) [OF pg.i_record soundD(1) [OF assms(1)] TrueI i] by simp
qed

lemma with_message_grows:
  assumes "sound d" and "sound d'" and "grows (pg_view d) (pg_view d')" and "texts_ok [c, m, h]"
    and "v_inbox (pg_view d) (c, m) = None" and "v_inbox (pg_view d') (c, m) = None"
  shows "grows (pg_view (with_message c m h now d)) (pg_view (with_message c m h now d'))"
  using assms(3) unfolding with_message_sound(2) [OF assms(1,4,5)] with_message_sound(2) [OF assms(2,4,6)]
  by (auto simp: grows_def map_le_def)

lemma with_message_taken:
  assumes "sound d" and "texts_ok [c, m, h]" and "v_inbox (pg_view d) (c, m) = None"
  shows "both_taken cmd (with_message c m h now d) = both_taken cmd d"
  unfolding both_taken_def with_message_sound(2) [OF assms] by (simp add: by_key_def by_ext_def)

lemma at_one_point_later:
  assumes "at_one_point R m c r s" and "S d c" and "transp S" and "\<And>x y. R x y \<Longrightarrow> S x y"
    and "\<And>x. R c x \<Longrightarrow> m' x = m x"
  shows "at_one_point S m' d r s"
  using assms unfolding at_one_point_def by (metis transpD)

lemma consumeIn_unit:
  assumes "sound d" and "works_among sv env" and "spares_inbox c m env"
    and run: "consumeIn sv (sharedStore env) c m h now en cmd (new_session d) = (r, s)"
  shows "at_one_point (sys_step sv)\<^sup>*\<^sup>* (consumeIn sv pgStore c m h now en cmd) d r s \<or>
    r = Inl ErrExternalIDConflict \<and> (sys_step sv)\<^sup>*\<^sup>* d (ss_committed s) \<and> both_taken cmd (ss_committed s)"
proof -
  define ca s1 where ca: "ca = env 0 d"
    and s1: "s1 = \<lparr>ss_clock = 1, ss_locked = False, ss_committed = ca, ss_own = with_message c m h now\<rparr>"
  have sa: "(sys_step sv)\<^sup>*\<^sup>* d ca" unfolding ca by (rule works_steps [OF assms(2)])
  note sca = conjunct1 [OF steps_sound [OF sa assms(1)]]
  have st: "Inbox_Record (sharedStore env) c m h now (new_session d) = (fst (inboxRepo_Record c m h now ca), s1)"
    by (simp add: shared_simps stmt_def Let_def interfere_def new_session_def ca s1 with_message_def [abs_def])
  show ?thesis
  proof (cases "texts_ok [c, m, h] \<and> v_inbox (pg_view ca) (c, m) = None")
    case False
    then obtain e where e: "refusal h (fst (inboxRepo_Record c m h now ca)) = Some e"
      using record_known by blast
    then have "r = Inl e \<and> s = s1"
      using refused [of h "sharedStore env" c m now "new_session d" e sv en cmd] run st by simp
    moreover have "fst (consumeIn sv pgStore c m h now en cmd ca) = Inl e"
      using refused [of h pgStore c m now ca e sv en cmd] e by (simp add: pgStore_simps)
    ultimately show ?thesis using sa by (auto simp: at_one_point_def s1)
  next
    case new: True
    define R where "R x y \<longleftrightarrow> (sys_step sv)\<^sup>*\<^sup>* x y \<and> inbox_kept c m x y" for x y
    define c0 c1 c2 where cs: "c0 = env 1 ca" "c1 = env 2 c0" "c2 = env 3 c1"
    have R: "R ca c0" "R c0 c1" "R c1 c2"
      using works_steps [OF assms(2)] assms(3) unfolding R_def cs spares_inbox_def by auto
    have rt: "reflp R" "transp R"
      unfolding R_def inbox_kept_def by (auto intro!: reflpI transpI elim: rtranclp_trans)
    have kept: "sound y \<and> v_inbox (pg_view y) (c, m) = None \<and> grows (pg_view x) (pg_view y)"
      if "R x y" "sound x" "v_inbox (pg_view x) (c, m) = None" for x y
      using that steps_sound [of sv x y] by (simp add: R_def inbox_kept_def)
    note k0 = kept [OF R(1) sca conjunct2 [OF new]]
    note k1 = kept [OF R(2)] and k2 = kept [OF R(3)]
    have k: "sound c0" "sound c1" "sound c2" "v_inbox (pg_view c0) (c, m) = None"
      "v_inbox (pg_view c1) (c, m) = None" "v_inbox (pg_view c2) (c, m) = None"
      "grows (pg_view c0) (pg_view c1)" "grows (pg_view c1) (pg_view c2)"
      using k0 k1 k2 by blast+
    have w: "pg_ok (with_message c m h now x)" if "sound x" "v_inbox (pg_view x) (c, m) = None" for x
      using with_message_sound(1) [OF that(1) conjunct1 [OF new] that(2)] by (simp add: sound_def)
    have p: "ProcessIn sv (sharedStore env) en cmd s1 = (r, s)"
      using run st record_new(1) [of c m h ca now] new by (simp add: consumeIn_def obind_apply)
    have "at_one_point R (\<lambda>x. ProcessIn sv pgStore en cmd (ss_own s1 x)) (ss_committed s1) r s \<or>
      r = Inl ErrExternalIDConflict \<and> ss_committed s = c1 \<and> both_taken cmd (ss_own s1 c1)"
      by (rule ProcessIn_among [where ?c0.0 = c0 and ?c1.0 = c1 and ?c2.0 = c2 and env = env, OF _ _ _ _ _ _ _ rt])
        (use p R k w with_message_grows new in \<open>auto simp: s1 cs numeral_2_eq_2 numeral_3_eq_3\<close>)
    then show ?thesis
    proof
      assume "at_one_point R (\<lambda>x. ProcessIn sv pgStore en cmd (ss_own s1 x)) (ss_committed s1) r s"
      then have "at_one_point (sys_step sv)\<^sup>*\<^sup>* (consumeIn sv pgStore c m h now en cmd) d r s"
        by (rule at_one_point_later [where c = "ss_committed s1"])
          (use sa steps_transp new record_new(2) in \<open>auto simp: s1 R_def inbox_kept_def\<close>)
      then show ?thesis ..
    next
      assume "r = Inl ErrExternalIDConflict \<and> ss_committed s = c1 \<and> both_taken cmd (ss_own s1 c1)"
      then show ?thesis
        using sa R with_message_taken [OF k(2) conjunct1 [OF new] k(5)]
        by (auto simp: s1 R_def intro: rtranclp_trans)
    qed
  qed
qed

text \<open>C15. A message takes effect at one point, with the exception of an operation. The unit of work of
  the consumer, the row of the inbox and the operation in one transaction, answers and does what it
  would have done alone on one of the databases between its start and its end, whatever other
  processes commit between its statements up to the row lock on the wallet, but for the same row of
  the inbox, which they cannot commit while it is pending; or it writes nothing and reports
  \<^const>\<open>ErrExternalIDConflict\<close> with the key and the external id both taken. From the row lock on,
  others commit nothing in the model.\<close>

theorem message_at_one_point:
  assumes "reachable sv d" and "clock_ok (e_now en)" and "works_among sv env"
    and "spares_inbox consumer messageID env"
    and "h = bodyHash sv (pc_Request cmd) (pc_IdempotencyKey cmd)"
    and "concurrent_Do env f (consumeIn sv (sharedStore env) consumer messageID h receivedAt en cmd) d = (r, d')"
  shows "reachable sv d' \<and>
    ((\<exists>d1 d2. (sys_step sv)\<^sup>*\<^sup>* d d1 \<and>
              uow_Do f (consumeIn sv pgStore consumer messageID h receivedAt en cmd) d1 = (r, d2) \<and>
              (sys_step sv)\<^sup>*\<^sup>* d2 d') \<or>
     (r = Inl ErrExternalIDConflict \<and> (sys_step sv)\<^sup>*\<^sup>* d d' \<and> both_taken cmd d'))"
proof -
  obtain r0 s where run: "consumeIn sv (sharedStore env) consumer messageID h receivedAt en cmd (new_session d) = (r0, s)"
    by fastforce
  show ?thesis
    by (rule unit_among [OF assms(1) run assms(6)
        consumeIn_unit [OF reachable_sound [OF assms(1)] assms(3,4) run]
        sys_step.consumed [OF assms(2), of sv _ f consumer messageID cmd receivedAt, folded assms(5)]])
qed

subsection \<open>A retry among others\<close>

text \<open>The store of a session whose claim skips the rows that others have locked.\<close>

definition sharedContended :: "others \<Rightarrow> uuid list \<Rightarrow> session Store" where
  "sharedContended env locked = (sharedStore env)
    \<lparr>Transactions_ClaimDuePendingReference := \<lambda>now. stmt env False (claim_due_skipping locked now)\<rparr>"

text \<open>The row that a transaction has claimed is locked: the others leave it as it is.\<close>

definition spares_tx :: "uuid \<Rightarrow> others \<Rightarrow> bool" where
  "spares_tx i env \<longleftrightarrow> (\<forall>n d. 0 < n \<longrightarrow>
    find (\<lambda>r. tr_id r = i) (db_txs (env n d)) = find (\<lambda>r. tr_id r = i) (db_txs d))"

definition behind_claim :: "Service \<Rightarrow> 's Store \<Rightarrow> env \<Rightarrow> Transaction \<Rightarrow> Wallet \<Rightarrow> ('s, bool) op" where
  "behind_claim sv st en tx w =
    obind (apply_tx sv st (e_entryID en) tx w (e_now en)) (\<lambda>(entry, tx, w).
    obind (Transactions_Update st tx) (\<lambda>_.
    obind (persistOutcome sv st en tx w entry) (\<lambda>_.
    ok True)))"

lemma resolveOne_split:
  "resolveOne sv st claimNow en =
    obind (otry (Transactions_ClaimDuePendingReference st claimNow)) (\<lambda>r. case r of
      Inl e \<Rightarrow> if e = ErrTransactionNotFound then ok False else fail e
    | Inr tx \<Rightarrow> obind (Wallets_GetForUpdate st (t_walletID tx)) (behind_claim sv st en tx))"
  unfolding resolveOne_def behind_claim_def ..

lemma other_claims:
  "behind_claim sv (contended locked) en tx = behind_claim sv pgStore en tx"
  "behind_claim sv (sharedContended env locked) en tx = behind_claim sv (sharedStore env) en tx"
proof -
  have a: "Wallets_Update (contended locked) = Wallets_Update pgStore"
    "Transactions_FindByExternalID (contended locked) = Transactions_FindByExternalID pgStore"
    "Transactions_HasProcessedReversal (contended locked) = Transactions_HasProcessedReversal pgStore"
    "Transactions_Update (contended locked) = Transactions_Update pgStore"
    "Ledger_Append (contended locked) = Ledger_Append pgStore" "Outbox_Add (contended locked) = Outbox_Add pgStore"
    by (simp_all add: contended_def)
  have b: "Wallets_Update (sharedContended env locked) = Wallets_Update (sharedStore env)"
    "Transactions_FindByExternalID (sharedContended env locked) = Transactions_FindByExternalID (sharedStore env)"
    "Transactions_HasProcessedReversal (sharedContended env locked) = Transactions_HasProcessedReversal (sharedStore env)"
    "Transactions_Update (sharedContended env locked) = Transactions_Update (sharedStore env)"
    "Ledger_Append (sharedContended env locked) = Ledger_Append (sharedStore env)"
    "Outbox_Add (sharedContended env locked) = Outbox_Add (sharedStore env)"
    by (simp_all add: sharedContended_def)
  show "behind_claim sv (contended locked) en tx = behind_claim sv pgStore en tx"
    unfolding behind_claim_def apply_tx_def resolveReferenceTx_def persistOutcome_def a ..
  show "behind_claim sv (sharedContended env locked) en tx = behind_claim sv (sharedStore env) en tx"
    unfolding behind_claim_def apply_tx_def resolveReferenceTx_def persistOutcome_def b ..
qed

lemma sim_update [sim_intros]: "sim (Transactions_Update pgStore t) (Transactions_Update (sharedStore env) t)"
  unfolding shared_simps by (rule sim_stmt)

lemma sim_behind_claim: "sim (behind_claim sv pgStore en tx w) (behind_claim sv (sharedStore env) en tx w)"
  unfolding behind_claim_def by (intro sim_intros)

lemma claim_reads: "snd (claim_due_skipping locked now d) = d"
  by (simp add: claim_due_skipping_def split: option.splits)

text \<open>A row that is still there can be claimed again, whatever else is due, when the others that are
  due are locked.\<close>

lemma claims_again:
  assumes "pg_ok c0" and "pg_ok c1" and "fst (claim_due_skipping locked now c0) = Inr tx"
    and "find (\<lambda>r. tr_id r = t_id tx) (db_txs c1) = find (\<lambda>r. tr_id r = t_id tx) (db_txs c0)"
  shows "\<exists>locked'. claim_due_skipping locked' now c1 = (Inr tx, c1)"
proof -
  let ?due = "\<lambda>c. filter (\<lambda>r. due_row (pg_time now) r \<and> tr_id r \<notin> set locked) (db_txs c)"
  obtain r where r: "earliest (?due c0) = Some r" "transactionRepo_scan r = Inr tx"
    using assms(3) by (auto simp: claim_due_skipping_def split: option.splits)
  then have in0: "r \<in> set (db_txs c0)" "due_row (pg_time now) r" using earliest_Some [OF r(1)] by auto
  have unique: "q = q'" if "pg_ok c" "q \<in> set (db_txs c)" "q' \<in> set (db_txs c)" "tr_id q = tr_id q'" for c q q'
  proof -
    have row: "row_of_snapshot (Snapshot_of (row_tx x)) = x" "t_id (row_tx x) = tr_id x" if "x \<in> set (db_txs c)" for x
      using pg_tx_row(3) [OF \<open>pg_ok c\<close> that] scan_tx_facts(1) [OF pg_tx_row(1) [OF \<open>pg_ok c\<close> that]] by auto
    have "row_tx q = row_tx q'"
      using unique_onD [of "\<lambda>_. True" t_id "v_txs (pg_view c)" "row_tx q" "row_tx q'"] that row(2)
      by (simp add: pg_ok_def view_ok_def pg_view_def)
    then show ?thesis using row(1) that(2,3) by metis
  qed
  have i: "t_id tx = tr_id r" using scan_tx_facts(1) r(2) pg_tx_row(1) [OF assms(1) in0(1)] by simp
  obtain q where q: "find (\<lambda>r. tr_id r = t_id tx) (db_txs c0) = Some q"
    using in0(1) i by (cases "find (\<lambda>r. tr_id r = t_id tx) (db_txs c0)") (auto simp: find_None_iff)
  then have \<open>q = r\<close> using unique [OF assms(1) _ in0(1)] i by (auto simp: find_Some_iff)
  have in1: "r \<in> set (db_txs c1)"
  proof -
    have "find (\<lambda>u. tr_id u = t_id tx) (db_txs c1) = Some r" using q assms(4) \<open>q = r\<close> by simp
    then show ?thesis by (auto simp: find_Some_iff)
  qed
  define l where "l = map tr_id (filter (\<lambda>u. tr_id u \<noteq> tr_id r) (db_txs c1))"
  let ?rs = "filter (\<lambda>u. due_row (pg_time now) u \<and> tr_id u \<notin> set l) (db_txs c1)"
  have s: "set ?rs = {r}"
    using in1 in0(2) unique [OF assms(2) _ in1] by (auto simp: l_def)
  then have "?rs \<noteq> []" by (metis empty_set insert_not_empty)
  then obtain u where "earliest ?rs = Some u" using earliest_None [of ?rs] by blast
  moreover from this have "u = r" using earliest_Some s by blast
  ultimately show ?thesis using r(2) by (intro exI [of _ l]) (simp add: claim_due_skipping_def)
qed

text \<open>What the second half of a retry does is what it would have done alone, on the database as it is
  when the wallet is locked.\<close>

lemma resolveOne_unit:
  assumes "sound d" and "works_among sv env"
    and "\<And>tx. fst (claim_due_skipping locked claimNow (env 0 d)) = Inr tx \<Longrightarrow> spares_tx (t_id tx) env"
    and "resolveOne sv (sharedContended env locked) claimNow en (new_session d) = (r, s)"
  shows "\<exists>locked'. at_one_point (sys_step sv)\<^sup>*\<^sup>* (resolveOne sv (contended locked') claimNow en) d r s"
proof -
  define c0 c1 where c: "c0 = env 0 d" "c1 = env (Suc 0) c0"
  have st: "(sys_step sv)\<^sup>*\<^sup>* d c0" "(sys_step sv)\<^sup>*\<^sup>* c0 c1"
    unfolding c using works_steps [OF assms(2)] by auto
  have ok: "pg_ok c0" "pg_ok c1"
    using steps_sound [OF st(1) assms(1)] steps_sound [OF st(2)] by (auto simp: sound_def)
  have st1: "(sys_step sv)\<^sup>*\<^sup>* d c1" using st by (rule rtranclp_trans)
  let ?claim = "claim_due_skipping locked claimNow" and ?s1 = "waited (new_session d) c0"
  have own: "ss_own ?s1 = id" "ss_committed ?s1 = c0" "\<not> ss_locked ?s1" by (simp_all add: new_session_def)
  have k: "stmt env False ?claim (new_session d) = (fst (?claim c0), ?s1)"
    by (simp add: stmt_def Let_def interfere_def c waited_def new_session_def claim_reads id_def [symmetric])
  have claims: "Transactions_ClaimDuePendingReference (sharedContended env locked) = (\<lambda>now. stmt env False (claim_due_skipping locked now))"
    "Wallets_GetForUpdate (sharedContended env locked) = (\<lambda>i. stmt env True (walletRepo_GetForUpdate i))"
    "Transactions_ClaimDuePendingReference (contended l) = claim_due_skipping l"
    "Wallets_GetForUpdate (contended l) = walletRepo_GetForUpdate" for l
    by (simp_all add: sharedContended_def shared_simps contended_def pgStore_def)
  show ?thesis
  proof (cases "fst (?claim c0)")
    case (Inl e)
    then have "?claim c0 = (Inl e, c0)" using claim_reads by (metis prod.collapse)
    then have "resolveOne sv (contended locked) claimNow en c0 =
        (if e = ErrTransactionNotFound then Inr False else Inl e, c0)"
      by (simp add: resolveOne_split claims obind_apply otry_def)
    moreover have "r = (if e = ErrTransactionNotFound then Inr False else Inl e)" "s = ?s1"
      using assms(4) by (auto simp: resolveOne_split claims obind_apply otry_def k Inl split: if_splits)
    ultimately show ?thesis
      using st(1) by (intro exI [of _ locked]) (auto simp: at_one_point_def own_view_def new_session_def)
  next
    case (Inr tx)
    obtain locked' where again: "claim_due_skipping locked' claimNow c1 = (Inr tx, c1)"
      using claims_again [OF ok Inr] assms(3) Inr c by (auto simp: spares_tx_def)
    have alone: "resolveOne sv (contended locked') claimNow en c1 =
        obind (walletRepo_GetForUpdate (t_walletID tx)) (behind_claim sv pgStore en tx) c1"
      by (simp add: resolveOne_split claims obind_apply otry_def again other_claims)
    have run: "obind (stmt env True (walletRepo_GetForUpdate (t_walletID tx)))
        (behind_claim sv (sharedStore env) en tx) ?s1 = (r, s)"
      using assms(4) by (simp add: resolveOne_split claims obind_apply otry_def k Inr other_claims)
    obtain g s2 where g: "stmt env True (walletRepo_GetForUpdate (t_walletID tx)) ?s1 = (g, s2)" by fastforce
    have g2: "g = fst (walletRepo_GetForUpdate (t_walletID tx) c1)" "ss_committed s2 = c1" "own_view s2 = c1"
        "ss_locked s2 \<longleftrightarrow> \<not> isl g"
      using g by (auto simp: stmt_def Let_def interfere_def own c new_session_def own_view_def find_reads(3) waited_def)
    have lock: "walletRepo_GetForUpdate (t_walletID tx) c1 = (g, c1)"
      using g2(1) find_reads(3) by (metis prod.collapse)
    show ?thesis
    proof (cases g)
      case (Inl e)
      then show ?thesis
        using run g alone lock st1 g2(2)
        by (intro exI [of _ locked']) (auto simp: obind_apply at_one_point_def)
    next
      case (Inr w)
      then have "behind_claim sv (sharedStore env) en tx w s2 = (r, s)" using run g by (simp add: obind_apply)
      moreover have "ss_locked s2" using g2(4) Inr by (simp add: isl_def)
      ultimately have "behind_claim sv pgStore en tx w c1 = (r, own_view s)" "ss_committed s = c1"
        using simD [OF sim_behind_claim] g2(2,3) by metis+
      then show ?thesis
        using alone lock Inr st1
        by (intro exI [of _ locked']) (auto simp: obind_apply at_one_point_def split: sum.splits)
    qed
  qed
qed


subsection \<open>A duplicate that commits while the lock is awaited\<close>

lemma duplicate_awaited:
  assumes "\<not> ss_locked s" and "c = ss_committed s" and "n = ss_clock s"
    and "env n c = c" and "env (Suc n) c = c" and "env (Suc (Suc n)) c = c2"
    and "pg_ok (ss_own s c)" and "pg_ok (ss_own s c2)" and "pc_IdempotencyKey cmd \<noteq> ''''"
    and "looked_up cmd (hash_of sv cmd) (pg_view (ss_own s c)) (pg_view (ss_own s c)) = Inr None"
    and "v_wallets (pg_view (ss_own s c2)) (er_WalletID (pc_Request cmd)) = Some w"
    and "looked_up cmd (hash_of sv cmd) (pg_view (ss_own s c2)) (pg_view (ss_own s c2)) = Inr (Some res)"
  shows "\<exists>s'. ProcessIn sv (sharedStore env) en cmd s = (Inr res, s') \<and> own_view s' = ss_own s c2 \<and> ss_committed s' = c2"
proof -
  let ?h = "hash_of sv cmd" and ?i = "er_WalletID (pc_Request cmd)" and ?s2 = "waited (waited s c) c"
  have "texts_ok [er_ProviderID (pc_Request cmd), pc_IdempotencyKey cmd] \<and>
      by_key (pg_view (ss_own s c)) (er_ProviderID (pc_Request cmd)) (pc_IdempotencyKey cmd) = None"
    using assms(10) by (auto simp: looked_up_def Let_def split: if_splits option.splits)
  then have l: "lookupExisting (sharedStore env) cmd ?h s = (Inr None, ?s2)"
    using lookup_among [OF assms(1), where env = env, of c c cmd ?h] assms(2-5,7,10) by simp
  obtain s3 where g: "Wallets_GetForUpdate (sharedStore env) ?i ?s2 = (Inr w, s3)"
    and g3: "ss_committed s3 = c2" "ss_locked s3" "own_view s3 = ss_own s c2"
    using assms(1-6,11) find_reads(3)
    by (auto simp: shared_simps stmt_def Let_def interfere_def own_view_def lock_is_get pg_Get_eq [OF assms(8)])
  obtain q s' where b: "behind_lock sv (sharedStore env) en cmd ?h w s3 = (q, s')" by fastforce
  note d = simD [OF sim_behind_lock g3(2) b]
  have "behind_lock sv pgStore en cmd ?h w (ss_own s c2) = (Inr res, ss_own s c2)"
    using assms(12) by (simp add: behind_lock_def obind_apply lookup_alone [OF assms(8)])
  then show ?thesis
    using d g3 l g b by (simp add: ProcessIn_split [OF assms(9)] obind_apply)
qed

definition demo_others :: "nat \<Rightarrow> others" where
  "demo_others k n d = (if n = k \<and> d = db1 then db2 else d)"

lemma demo_others_work: "works_among demo_sv (demo_others k)"
  using db2_step by (auto simp: works_among_def demo_others_def)

lemma demo_others_spare: "spares_inbox c m (demo_others k)"
  by (auto simp: spares_inbox_def inbox_kept_def demo_others_def pg_view_def db1_def db2_def)

abbreviation demo_bet :: ProcessCommand where "demo_bet \<equiv> demo_cmd ''x'' KindBet 3000 ''''"

lemma demo_looked_up:
  "looked_up demo_bet (hash_of demo_sv demo_bet) (pg_view db1) (pg_view db1) = Inr None"
  "looked_up demo_bet (hash_of demo_sv demo_bet) (pg_view db2) (pg_view db2) =
    Inr (Some \<lparr>pr_Transaction = row_tx demo_tx2, pr_IdempotentReplay = True\<rparr>)"
  "v_wallets (pg_view db2) 7 \<noteq> None"
proof -
  have h: "hash_of demo_sv demo_bet = ''163''" by code_simp
  show "looked_up demo_bet (hash_of demo_sv demo_bet) (pg_view db1) (pg_view db1) = Inr None"
    unfolding h by code_simp
  show "looked_up demo_bet (hash_of demo_sv demo_bet) (pg_view db2) (pg_view db2) =
    Inr (Some \<lparr>pr_Transaction = row_tx demo_tx2, pr_IdempotentReplay = True\<rparr>)"
    unfolding h by code_simp
  show "v_wallets (pg_view db2) 7 \<noteq> None" by code_simp
qed

lemma db1_neq_db2: "db1 \<noteq> db2" by (simp add: db1_def db2_def)
lemma demo_pg: "pg_ok db1" "pg_ok db2" "sound db1" "sound db2"
  using soundD(1) reachable_sound db1_reachable db2_reachable by blast+

lemma demo_bet_key: "pc_IdempotencyKey demo_bet \<noteq> ''''" "er_WalletID (pc_Request demo_bet) = 7"
  by (simp_all add: demo_cmd_def demo_request_def)

lemma demo_duplicate:
  "\<exists>x. concurrent_Do (demo_others 2) no_faults (ProcessIn demo_sv (sharedStore (demo_others 2))
     (demo_env 9000000000 90) demo_bet) db1 = (Inr x, db2) \<and> pr_IdempotentReplay x"
proof -
  obtain w where w: "v_wallets (pg_view db2) 7 = Some w" using demo_looked_up(3) by blast
  have "\<exists>s'. ProcessIn demo_sv (sharedStore (demo_others 2)) (demo_env 9000000000 90) demo_bet (new_session db1) =
      (Inr \<lparr>pr_Transaction = row_tx demo_tx2, pr_IdempotentReplay = True\<rparr>, s') \<and>
      own_view s' = ss_own (new_session db1) db2 \<and> ss_committed s' = db2"
    by (rule duplicate_awaited [where c = db1 and n = 0 and w = w])
      (use demo_pg demo_looked_up w demo_bet_key in \<open>auto simp: new_session_def demo_others_def\<close>)
  then show ?thesis by (auto simp: concurrent_Do_def new_session_def)
qed

theorem operation_at_one_point_witness:
  "\<exists>x d1 d2. concurrent_Do (demo_others 2) no_faults (ProcessIn demo_sv (sharedStore (demo_others 2))
       (demo_env 9000000000 90) demo_bet) db1 = (Inr x, db2) \<and>
     pr_IdempotentReplay x \<and> (sys_step demo_sv)\<^sup>*\<^sup>* db1 d1 \<and>
     uow_Do no_faults (ProcessIn demo_sv pgStore (demo_env 9000000000 90) demo_bet) d1 = (Inr x, d2) \<and>
     (sys_step demo_sv)\<^sup>*\<^sup>* d2 db2"
proof -
  obtain x where x: "concurrent_Do (demo_others 2) no_faults (ProcessIn demo_sv (sharedStore (demo_others 2))
       (demo_env 9000000000 90) demo_bet) db1 = (Inr x, db2)" "pr_IdempotentReplay x"
    using demo_duplicate by blast
  from operation_at_one_point [OF db1_reachable _ demo_others_work x(1)]
  show ?thesis using x by (auto simp: demo_clock)
qed

abbreviation demo_body :: string where
  "demo_body \<equiv> bodyHash demo_sv (pc_Request demo_bet) (pc_IdempotencyKey demo_bet)"

lemma demo_duplicate_message:
  "\<exists>x. concurrent_Do (demo_others 3) no_faults (consumeIn demo_sv (sharedStore (demo_others 3)) ''c'' ''m'' demo_body
     9000000000 (demo_env 9000000000 90) demo_bet) db1 = (Inr x, with_message ''c'' ''m'' demo_body 9000000000 db2) \<and>
     pr_IdempotentReplay x"
proof -
  let ?o = "with_message ''c'' ''m'' demo_body 9000000000"
  define s1 where "s1 = \<lparr>ss_clock = 1, ss_locked = False, ss_committed = db1, ss_own = ?o\<rparr>"
  have t: "texts_ok [''c'', ''m'', demo_body]" by code_simp
  have i: "v_inbox (pg_view db1) (''c'', ''m'') = None" "v_inbox (pg_view db2) (''c'', ''m'') = None"
    by (simp_all add: pg_view_def db1_def db2_def)
  note v = with_message_sound [OF demo_pg(3) t i(1)] with_message_sound [OF demo_pg(4) t i(2)]
  have k: "by_key (a\<lparr>v_inbox := n\<rparr>) = by_key a" "by_ext (a\<lparr>v_inbox := n\<rparr>) = by_ext a" for a n
    by (simp_all add: fun_eq_iff by_key_def by_ext_def)
  have b: "looked_up demo_bet h (a\<lparr>v_inbox := n\<rparr>) (b\<lparr>v_inbox := n'\<rparr>) = looked_up demo_bet h a b" for h a b n n'
    unfolding looked_up_def k ..
  obtain w where w: "v_wallets (pg_view db2) 7 = Some w" using demo_looked_up(3) by blast
  have "\<exists>s'. ProcessIn demo_sv (sharedStore (demo_others 3)) (demo_env 9000000000 90) demo_bet s1 =
      (Inr \<lparr>pr_Transaction = row_tx demo_tx2, pr_IdempotentReplay = True\<rparr>, s') \<and>
      own_view s' = ss_own s1 db2 \<and> ss_committed s' = db2"
    by (rule duplicate_awaited [where c = db1 and n = 1 and w = w])
      (use v soundD(1) demo_looked_up w demo_bet_key in \<open>auto simp: s1_def b demo_others_def\<close>)
  moreover have "Inbox_Record (sharedStore (demo_others 3)) ''c'' ''m'' demo_body 9000000000 (new_session db1) =
      (Inr \<lparr>ir_Inserted = True, ir_ExistingHash = ''''\<rparr>, s1)"
    using arg_cong [OF record_new(1) [OF t i(1), of 9000000000], of fst]
    by (simp add: shared_simps stmt_def Let_def interfere_def new_session_def s1_def demo_others_def with_message_def [abs_def])
  ultimately show ?thesis by (auto simp: concurrent_Do_def consumeIn_def obind_apply s1_def)
qed

theorem message_at_one_point_witness:
  "\<exists>x d1 d2. concurrent_Do (demo_others 3) no_faults (consumeIn demo_sv (sharedStore (demo_others 3)) ''c'' ''m''
       demo_body 9000000000 (demo_env 9000000000 90) demo_bet) db1 =
       (Inr x, with_message ''c'' ''m'' demo_body 9000000000 db2) \<and> pr_IdempotentReplay x \<and>
     (sys_step demo_sv)\<^sup>*\<^sup>* db1 d1 \<and>
     uow_Do no_faults (consumeIn demo_sv pgStore ''c'' ''m'' demo_body 9000000000 (demo_env 9000000000 90) demo_bet) d1
       = (Inr x, d2) \<and> (sys_step demo_sv)\<^sup>*\<^sup>* d2 (with_message ''c'' ''m'' demo_body 9000000000 db2)"
proof -
  obtain x where x: "concurrent_Do (demo_others 3) no_faults (consumeIn demo_sv (sharedStore (demo_others 3)) ''c'' ''m''
       demo_body 9000000000 (demo_env 9000000000 90) demo_bet) db1 =
       (Inr x, with_message ''c'' ''m'' demo_body 9000000000 db2)" "pr_IdempotentReplay x"
    using demo_duplicate_message by blast
  from message_at_one_point [OF db1_reachable _ demo_others_work demo_others_spare refl x(1)]
  show ?thesis using x by (auto simp: demo_clock)
qed

text \<open>Another process refunds a bet between the claim and the lock.\<close>

definition demo_refund :: others where
  "demo_refund k d = (if k = 1 \<and> d = db3 then db4 else d)"

lemma demo_refund_others:
  "works_among demo_sv demo_refund" "spares_tx i demo_refund \<longleftrightarrow> find (\<lambda>r. tr_id r = i) (db_txs db4) = find (\<lambda>r. tr_id r = i) (db_txs db3)"
  using db4_step by (auto simp: works_among_def spares_tx_def demo_refund_def)

lemma demo_claimed: "map_sum id t_id (fst (claim_due_skipping [99] 5000000000 db3)) = Inr 30"
  by code_simp

lemma demo_spared: "find (\<lambda>r. tr_id r = 30) (db_txs db4) = find (\<lambda>r. tr_id r = 30) (db_txs db3)"
  by code_simp

lemma demo_retried:
  "fst (concurrent_Do demo_refund no_faults (resolveOne demo_sv (sharedContended demo_refund [99]) 5000000000
     (demo_env 5000000000 50)) db3) = Inr True"
  by code_simp


end
