(* ===== verification/Leases.thy ===== *)
theory Leases
  imports Publishing Interleaving
begin

text \<open>
  The lease of an event over the steps of the system. As long as nobody reports on the event, no
  step takes its lease away before it ends: the units of work of the use cases only add events, a
  claim leaves the rows that it does not take as they are, and the reports on other events do not
  touch it.
\<close>

subsection \<open>An event under its lease\<close>

definition leased :: "uuid \<Rightarrow> time \<Rightarrow> db \<Rightarrow> bool" where
  "leased i until d \<longleftrightarrow>
    i \<in> xr_event_id ` set (db_outbox d) \<and>
    (\<forall>r \<in> set (db_outbox d). xr_event_id r = i \<longrightarrow> xr_locked_until r = Some until)"

text \<open>The steps of the system in which no claim has a clock after the end of the lease, and no report
  of an outcome is about the event.\<close>

inductive lease_step :: "Service \<Rightarrow> uuid \<Rightarrow> time \<Rightarrow> db \<Rightarrow> db \<Rightarrow> bool" for sv i until where
  processed: "clock_ok (e_now en) \<Longrightarrow> lease_step sv i until d (after f (ProcessIn sv pgStore en cmd) d)"
| consumed: "clock_ok (e_now en) \<Longrightarrow>
    lease_step sv i until d (after f (consumeIn sv pgStore consumer messageID
      (bodyHash sv (pc_Request cmd) (pc_IdempotencyKey cmd)) receivedAt en cmd) d)"
| resolved: "clock_ok (e_now en) \<Longrightarrow>
    lease_step sv i until d (after f (resolveOne sv (contended locked) claimNow en) d)"
| opened: "clock_ok (e_now en) \<Longrightarrow>
    Open j (oc_PlayerID cmd) (oc_InitialBalance cmd) (e_now en) = Inr w \<Longrightarrow>
    lease_step sv i until d (after f (openIn sv pgStore en cmd w) d)"
| claimed: "op_store p = contended locked \<Longrightarrow> pg_time now \<le> until \<Longrightarrow>
    lease_step sv i until d (after f (claimIn p now) d)"
| published: "j \<noteq> i \<Longrightarrow> lease_step sv i until d (after f (Outbox_MarkPublished pgStore j now) d)"
| batch_published: "i \<notin> set ids \<Longrightarrow>
    lease_step sv i until d (after f (Outbox_MarkPublishedBatch pgStore ids now) d)"
| rescheduled: "j \<noteq> i \<Longrightarrow> lease_step sv i until d (after f (Outbox_Reschedule pgStore j next text) d)"
| time_passes: "lease_step sv i until d (d\<lparr>db_now := now\<rparr>)"

lemma lease_step_sys: "lease_step sv i until d d' \<Longrightarrow> sys_step sv d d'"
  by (induction rule: lease_step.induct) (auto intro: sys_step.intros)

subsection \<open>What keeps the lease\<close>

definition keeps :: "uuid \<Rightarrow> time \<Rightarrow> (db, 'a) op \<Rightarrow> bool" where
  "keeps i until m \<longleftrightarrow> (\<forall>d. leased i until d \<longrightarrow> leased i until (snd (m d)))"

named_theorems keeps_intros

lemma keeps_basic [keeps_intros]: "keeps i u (ok a)" "keeps i u (fail e)" "keeps i u (lift r)"
  by (simp_all add: keeps_def)

lemma keeps_same: "(\<And>d. db_outbox (snd (m d)) = db_outbox d) \<Longrightarrow> keeps i u m"
  by (simp add: keeps_def leased_def)

lemma keeps_rows:
  assumes "\<And>d. \<exists>f. db_outbox (snd (m d)) = map f (db_outbox d) \<and>
    (\<forall>r. xr_event_id (f r) = xr_event_id r \<and>
      (xr_event_id r = i \<and> xr_locked_until r = Some u \<longrightarrow> xr_locked_until (f r) = Some u))"
  shows "keeps i u m"
  unfolding keeps_def
proof (intro allI impI)
  fix d assume d: "leased i u d"
  obtain f where f: "db_outbox (snd (m d)) = map f (db_outbox d)" "\<And>r. xr_event_id (f r) = xr_event_id r"
    "\<And>r. xr_event_id r = i \<Longrightarrow> xr_locked_until r = Some u \<Longrightarrow> xr_locked_until (f r) = Some u"
    using assms [of d] by blast
  show "leased i u (snd (m d))"
    using d unfolding leased_def f(1) by (auto simp: f(2) image_iff intro: f(3))
qed

lemma keeps_obind [keeps_intros]: "keeps i u m \<Longrightarrow> (\<And>a. keeps i u (f a)) \<Longrightarrow> keeps i u (obind m f)"
  unfolding keeps_def obind_def by (auto split: prod.splits sum.splits)

lemma keeps_otry [keeps_intros]: "keeps i u m \<Longrightarrow> keeps i u (otry m)"
  unfolding keeps_def otry_def by (auto split: prod.splits)

lemma keeps_branches [keeps_intros]:
  "(b \<Longrightarrow> keeps i u x) \<Longrightarrow> (\<not> b \<Longrightarrow> keeps i u y) \<Longrightarrow> keeps i u (if b then x else y)"
  "(\<And>e. keeps i u (f e)) \<Longrightarrow> (\<And>a. keeps i u (g a)) \<Longrightarrow> keeps i u (case r of Inl e \<Rightarrow> f e | Inr a \<Rightarrow> g a)"
  "keeps i u x \<Longrightarrow> (\<And>a. keeps i u (h a)) \<Longrightarrow> keeps i u (case q of None \<Rightarrow> x | Some a \<Rightarrow> h a)"
  "(\<And>a b. keeps i u (k a b)) \<Longrightarrow> keeps i u (case p of (a, b) \<Rightarrow> k a b)"
  "(\<And>t. keeps i u (dn t)) \<Longrightarrow> (\<And>a t. keeps i u (rs a t)) \<Longrightarrow>
    keeps i u (case z of Done t \<Rightarrow> dn t | Resolved a t \<Rightarrow> rs a t)"
  by (cases r; cases q; cases p; cases z; simp)+

lemma keeps_after: "keeps i u m \<Longrightarrow> leased i u d \<Longrightarrow> leased i u (after f m d)"
  by (rule after_cases) (auto simp: keeps_def dest!: spec [of _ d])

lemma keeps_reads [keeps_intros]:
  "keeps i u (Wallets_GetForUpdate pgStore j)" "keeps i u (Transactions_FindByIdempotencyKey pgStore p k)"
  "keeps i u (Transactions_FindByExternalID pgStore p x)" "keeps i u (Transactions_HasProcessedReversal pgStore j)"
  "keeps i u (claim_due_skipping locked now)" "keeps i u (Outbox_Lag pgStore now)"
  by (rule keeps_same;
      simp add: pgStore_simps walletRepo_GetForUpdate_def transactionRepo_FindByIdempotencyKey_def
        transactionRepo_FindByExternalID_def transactionRepo_HasProcessedReversal_def query_tx_def
        claim_due_skipping_def outboxRepo_Lag_def split: option.splits list.splits)+

lemma keeps_writes [keeps_intros]:
  "keeps i u (Wallets_Create pgStore w)" "keeps i u (Wallets_Update pgStore w n)"
  "keeps i u (Transactions_Insert pgStore t)" "keeps i u (Transactions_Update pgStore t)"
  "keeps i u (Ledger_Append pgStore e)" "keeps i u (Inbox_Record pgStore c m h now)"
  by (rule keeps_same;
      auto simp: pgStore_simps walletRepo_Create_def sql_insert_wallet_def walletRepo_Update_def
        sql_update_wallet_def transactionRepo_Insert_def sql_insert_tx_def transactionRepo_Update_def
        sql_update_tx_def ledgerRepo_Append_def sql_insert_ledger_def inboxRepo_Record_def Let_def
        split: option.splits sum.splits)+

lemma keeps_add [keeps_intros]: "keeps i u (Outbox_Add pgStore ev)"
  by (auto simp: keeps_def leased_def pgStore_simps outboxRepo_Add_def split: sum.splits)

lemma keeps_marks:
  "j \<noteq> i \<Longrightarrow> keeps i u (Outbox_MarkPublished pgStore j now)"
  "i \<notin> set ids \<Longrightarrow> keeps i u (Outbox_MarkPublishedBatch pgStore ids now)"
  "j \<noteq> i \<Longrightarrow> keeps i u (Outbox_Reschedule pgStore j next text)"
  by (auto simp: keeps_def leased_def pgStore_simps outboxRepo_MarkPublished_def
      outboxRepo_MarkPublishedBatch_def outboxRepo_Reschedule_def publish_row_def image_iff
      split: if_splits)

subsection \<open>The units of work\<close>

lemma keeps_lookup [keeps_intros]: "keeps i u (lookupExisting pgStore cmd hash)"
  unfolding lookupExisting_def Let_def by (intro keeps_intros)

lemma keeps_apply [keeps_intros]: "keeps i u (apply_tx sv pgStore j tx w now)"
proof -
  have r: "keeps i u (resolveReferenceTx sv pgStore tx w now)"
    unfolding resolveReferenceTx_def Let_def by (intro keeps_intros)
  show ?thesis
    unfolding apply_tx_def by (cases "t_kind tx"; simp only: Kind.case; intro keeps_intros r)
qed

lemma keeps_persist [keeps_intros]: "keeps i u (persistOutcome sv pgStore en tx w entry)"
  unfolding persistOutcome_def by (cases "t_status tx"; simp only: Status.case; intro keeps_intros)

lemma keeps_Process [keeps_intros]: "keeps i u (ProcessIn sv pgStore en cmd)"
  unfolding ProcessIn_def Let_def by (intro keeps_intros)

lemma keeps_consume: "keeps i u (consumeIn sv pgStore consumer messageID hash receivedAt en cmd)"
  unfolding consumeIn_def by (intro keeps_intros)

lemma keeps_open: "keeps i u (openIn sv pgStore en cmd w)"
  unfolding openIn_def by (intro keeps_intros)

lemma keeps_retry: "keeps i u (resolveOne sv (contended locked) claimNow en)"
proof -
  have "keeps i u (behind_claim sv pgStore en tx w)" for tx w
    unfolding behind_claim_def by (intro keeps_intros)
  moreover have "Transactions_ClaimDuePendingReference (contended locked) = claim_due_skipping locked"
    "Wallets_GetForUpdate (contended locked) = Wallets_GetForUpdate pgStore"
    by (simp_all add: contended_def)
  ultimately show ?thesis unfolding resolveOne_split other_claims by (simp only:) (intro keeps_intros)
qed

subsection \<open>The claims\<close>

lemma claim_run:
  assumes "claim_skipping locked p now lease n d = (Inr recs, d')"
  defines "ids \<equiv> claim_ids (pg_time now) (nat (sint n)) (filter (\<lambda>r. xr_event_id r \<notin> set locked) (db_outbox d))"
  defines "rows \<equiv> map (\<lambda>r. if xr_event_id r \<in> set ids then lease_row p (pg_time (now + sint lease)) r else r) (db_outbox d)"
  shows "recs = map outbox_record (filter (\<lambda>r. xr_event_id r \<in> set ids) rows)" and "d' = d\<lparr>db_outbox := rows\<rparr>"
  using assms(1) unfolding claim_skipping_def Let_def ids_def [symmetric] rows_def [symmetric]
  by (simp_all split: if_splits)

lemma lease_row_fields [simp]:
  "xr_event_id (lease_row p u r) = xr_event_id r" "xr_locked_until (lease_row p u r) = Some u"
  by (simp_all add: lease_row_def)

lemma claim_leases_rows:
  assumes "claim_skipping locked p now lease n d = (Inr recs, d')" and "i \<in> set (map or_EventID recs)"
  shows "leased i (pg_time (now + sint lease)) d'"
  using assms(2) unfolding claim_run [OF assms(1)]
  by (auto simp: leased_def outbox_record_def image_iff split: if_splits)

lemma leased_not_claimed:
  assumes "leased i u d" and "pg_time now \<le> u"
  shows "i \<notin> set (claim_ids (pg_time now) k (filter P (db_outbox d)))"
proof
  assume "i \<in> set (claim_ids (pg_time now) k (filter P (db_outbox d)))"
  then obtain r where "r \<in> set (db_outbox d)" "claimable (pg_time now) r" "xr_event_id r = i"
    unfolding claim_ids_def by (auto dest!: in_set_takeD)
  then show False using assms by (auto simp: leased_def claimable_def)
qed

lemma claim_keeps:
  assumes "leased i u d" and "pg_time now \<le> u"
  shows "leased i u (snd (claim_skipping locked p now lease n d))"
    and "claim_skipping locked p now lease n d = (Inr recs, d') \<Longrightarrow> i \<notin> set (map or_EventID recs)"
proof -
  note n = leased_not_claimed [OF assms, of "nat (sint n)" "\<lambda>r. xr_event_id r \<notin> set locked"]
  show "i \<notin> set (map or_EventID recs)" if "claim_skipping locked p now lease n d = (Inr recs, d')"
    using n unfolding claim_run(1) [OF that] by (auto simp: outbox_record_def split: if_splits)
  show "leased i u (snd (claim_skipping locked p now lease n d))"
  proof (cases "fst (claim_skipping locked p now lease n d)")
    case (Inl e)
    then have "snd (claim_skipping locked p now lease n d) = d"
      by (auto simp: claim_skipping_def Let_def split: if_splits)
    then show ?thesis using assms(1) by simp
  next
    case (Inr recs)
    then have "claim_skipping locked p now lease n d = (Inr recs, snd (claim_skipping locked p now lease n d))"
      by (metis prod.collapse)
    from claim_run(2) [OF this] show ?thesis using n assms(1) by (auto simp: leased_def image_iff)
  qed
qed

lemma claimIn_keeps:
  assumes "op_store p = contended locked" and "pg_time now \<le> u" and "leased i u d"
  shows "leased i u (snd (claimIn p now d))"
proof -
  have s: "Outbox_Claim (op_store p) = claim_skipping locked" "Outbox_Lag (op_store p) = Outbox_Lag pgStore"
    by (simp_all add: assms(1) contended_def)
  let ?m = "claim_skipping locked (ob_PublisherID (op_cfg p)) now (ob_Lease (op_cfg p)) (ob_BatchSize (op_cfg p))"
  obtain x d1 where m: "?m d = (x, d1)" by fastforce
  with claim_keeps(1) [OF assms(3,2)] have "leased i u d1" by (metis snd_conv)
  moreover have "keeps i u (obind (Outbox_Lag pgStore now) (\<lambda>_. ok b))" for b :: "OutboxRecord list"
    by (intro keeps_intros)
  ultimately have "leased i u (snd (obind (Outbox_Lag pgStore now) (\<lambda>_. ok b) d1))" for b :: "OutboxRecord list"
    unfolding keeps_def by blast
  with \<open>leased i u d1\<close> show ?thesis
    by (cases x) (simp_all add: claimIn_def s obind_def m)
qed

lemma lease_step_keeps:
  assumes "lease_step sv i u d d'" and "leased i u d"
  shows "leased i u d'"
  using assms
proof (induction rule: lease_step.induct)
  case (claimed p locked now d f)
  then show ?case
    using claimIn_keeps [OF claimed(1,2)] by (intro keeps_after) (simp_all add: keeps_def)
next
  case (time_passes d now)
  then show ?case by (simp add: leased_def)
qed (auto intro!: keeps_after keeps_Process keeps_consume keeps_retry keeps_open keeps_marks)

subsection \<open>Nobody else gets the event\<close>

text \<open>C20. A lease keeps other publishers away. After a claim has returned an event, and as long as
  nobody reports that event published or puts it off, no claim of any publisher whose clock is not
  past the end of the lease returns it, whatever happens in between: operations, messages, retries,
  openings, the claims of any number of publishers, and the reports on other events.\<close>

theorem lease_excludes:
  assumes "Outbox_Claim (contended locked) p now lease n d = (Inr recs, d1)"
    and "i \<in> set (map or_EventID recs)"
    and "(lease_step sv i (pg_time (now + sint lease)))\<^sup>*\<^sup>* d1 d2"
    and "Outbox_Claim (contended locked') p' now' lease' n' d2 = (Inr recs', d3)"
    and "pg_time now' \<le> pg_time (now + sint lease)"
  shows "i \<notin> set (map or_EventID recs')"
proof -
  have "leased i (pg_time (now + sint lease)) d1"
    using claim_leases_rows assms(1,2) by (simp add: contended_simps)
  with assms(3) have "leased i (pg_time (now + sint lease)) d2"
    by induction (auto dest: lease_step_keeps)
  then show ?thesis using claim_keeps(2) [OF _ assms(5)] assms(4) by (simp add: contended_simps)
qed

lemma two_runs:
  "case x of (Inr a, d) \<Rightarrow> (case f d of (Inr b, d') \<Rightarrow> P a b | _ \<Rightarrow> False) | _ \<Rightarrow> False \<Longrightarrow>
    \<exists>a d b d'. x = (Inr a, d) \<and> f d = (Inr b, d') \<and> P a b"
  by (cases x; cases "fst x"; cases "f (snd x)"; cases "fst (f (snd x))") auto

text \<open>Two publishers have claimed; a third gets what is left.\<close>

lemma demo_claims:
  "case Outbox_Claim (contended []) ''a'' 2000000000 (30 * Second) 2 db4 of
     (Inr recs, d1) \<Rightarrow>
       (case Outbox_Claim (contended []) ''c'' 4000000000 (30 * Second) 10
            (after no_faults (claimIn demo_publisher 3000000000) d1) of
          (Inr recs', d3) \<Rightarrow> length recs = 2 \<and> length recs' = 1
        | _ \<Rightarrow> False)
   | _ \<Rightarrow> False"
  by code_simp

theorem lease_excludes_witness:
  "\<exists>recs d1 recs' d3. Outbox_Claim (contended []) ''a'' 2000000000 (30 * Second) 2 db4 = (Inr recs, d1) \<and>
     Outbox_Claim (contended []) ''c'' 4000000000 (30 * Second) 10
       (after no_faults (claimIn demo_publisher 3000000000) d1) = (Inr recs', d3) \<and>
     length recs = 2 \<and> length recs' = 1 \<and> set (map or_EventID recs) \<inter> set (map or_EventID recs') = {}"
proof -
  obtain recs d1 recs' d3 where
    c: "Outbox_Claim (contended []) ''a'' 2000000000 (30 * Second) 2 db4 = (Inr recs, d1)"
      "Outbox_Claim (contended []) ''c'' 4000000000 (30 * Second) 10
         (after no_faults (claimIn demo_publisher 3000000000) d1) = (Inr recs', d3)"
    and l: "length recs = 2 \<and> length recs' = 1"
    using two_runs [OF demo_claims] by blast
  let ?u = "pg_time (2000000000 + sint (30 * Second))"
  have t: "pg_time 3000000000 \<le> ?u" "pg_time 4000000000 \<le> ?u" by code_simp+
  have "op_store demo_publisher = contended []" by (simp add: demo_publisher_def)
  then have s: "(lease_step demo_sv i ?u)\<^sup>*\<^sup>* d1 (after no_faults (claimIn demo_publisher 3000000000) d1)" for i
    using lease_step.claimed t(1) by blast
  have "i \<notin> set (map or_EventID recs')" if "i \<in> set (map or_EventID recs)" for i
    by (rule lease_excludes [OF c(1) that s c(2) t(2)])
  then show ?thesis using c l by blast
qed

end
