(* ===== verification/Paging.thy ===== *)
theory Paging
  imports Integrity
begin

text \<open>
  The paged ledger of \<^verbatim>\<open>internal/app/wallets.go\<close> as a client reads it: one page after the
  other, each with the cursor that the page before returned, while the system goes on working. The
  pages put together are the ledger of the wallet as it was when the last page was read.
\<close>


subsection \<open>A page\<close>

definition records :: "View \<Rightarrow> uuid \<Rightarrow> LedgerRecord list" where
  "records v i = filter (\<lambda>r. l_walletID (lr_Entry r) = i) (v_ledger v)"

definition after_seq :: "int64 \<Rightarrow> LedgerRecord list \<Rightarrow> LedgerRecord list" where
  "after_seq a rs = filter (\<lambda>r. sint a < sint (lr_Seq r)) rs"

definition page_of :: "nat \<Rightarrow> LedgerRecord list \<Rightarrow> LedgerPage" where
  "page_of n rs =
    (if n < length rs
     then \<lparr>lp_Entries = map lr_Entry (take n rs), lp_NextCursor = encodeCursor (lr_Seq (rs ! (n - 1)))\<rparr>
     else \<lparr>lp_Entries = map lr_Entry rs, lp_NextCursor = ''''\<rparr>)"

lemma pageLimit_range: "1 \<le> sint (pageLimit l)" "sint (pageLimit l) \<le> 200"
  by (auto simp: pageLimit_def)

lemma entries_records: "entries v i = map lr_Entry (records v i)"
  by (simp add: entries_def records_def filter_map comp_def ledger_entries_def)

lemma pg_list_eq:
  assumes "pg_ok d" and "0 \<le> sint limit"
  shows "ledgerRepo_List i a limit d = (Inr (take (nat (sint limit))
    (filter (\<lambda>r. l_walletID (lr_Entry r) = i \<and> sint a < sint (lr_Seq r)) (v_ledger (pg_view d)))), d)"
proof -
  let ?rows = "take (nat (sint limit)) (sort_key (\<lambda>r. sint (gr_seq r))
    (filter (\<lambda>r. gr_wallet_id r = i \<and> sint a < sint (gr_seq r)) (db_ledger d)))"
  have "scan_all ledgerRepo_scan ?rows = Inr (map row_record ?rows)"
    by (rule scan_all_ok) (auto dest!: in_set_takeD pg_ledger_row(1) [OF assms(1)])
  then have run: "ledgerRepo_List i a limit d = (Inr (map row_record ?rows), d)"
    using assms(2) by (simp add: ledgerRepo_List_def)
  show ?thesis
    using conjunct1 [OF pg_l_list [unfolded reads_def, rule_format, OF conjI [OF assms(1) run]]]
    unfolding run by simp
qed

lemma ListLedger_eq:
  assumes "sound d" and "v_wallets (pg_view d) i = Some w" and "decodeCursor cur = Inr a"
  shows "ListLedger pgStore no_faults i cur l d =
    (Inr (page_of (nat (sint (pageLimit l))) (after_seq a (records (pg_view d) i))), d)"
proof -
  let ?n = "sint (pageLimit l)"
  let ?rs = "after_seq a (records (pg_view d) i)"
  have n: "1 \<le> ?n" "?n \<le> 200" by (rule pageLimit_range)+
  have n1: "sint (pageLimit l + 1) = ?n + 1"
    using sint_add64 [of "pageLimit l" 1] n by (simp add: fits64_def)
  have w: "walletRepo_Get i d = (Inr w, d)"
    using assms(2) by (simp add: pg_Get_eq [OF soundD(1) [OF assms(1)]])
  note run = pg_list_eq [OF soundD(1) [OF assms(1)], of "pageLimit l + 1" i a]
  have rs: "ledgerRepo_List i a (pageLimit l + 1) d = (Inr (take (Suc (nat ?n)) ?rs), d)"
    using run n by (simp add: n1 after_seq_def records_def nat_add_distrib conj_commute)
  let ?m = "nat ?n"
  have m: "0 < ?m" "int ?m = ?n" using n by simp_all
  have big: "int (length (take (Suc ?m) ?rs)) > ?n \<longleftrightarrow> ?m < length ?rs" using m by (auto simp: min_def)
  have i: "nat (?n - 1) = ?m - 1" using m by simp
  show ?thesis
  proof (cases "?m < length ?rs")
    case True
    then show ?thesis
      using w rs m big by (simp add: page_of_def ListLedger_def Let_def assms(3) pgStore_simps uow_Do_def
          obind_apply i del: length_take)
  next
    case False
    then show ?thesis
      using w rs m big by (simp add: page_of_def ListLedger_def Let_def assms(3) pgStore_simps uow_Do_def
          obind_apply del: length_take)
  qed
qed

subsection \<open>Reading all pages\<close>

text \<open>One database for each request; None when a request fails or the list is too short.\<close>

fun read_pages :: "uuid \<Rightarrow> int64 \<Rightarrow> string \<Rightarrow> db list \<Rightarrow> LedgerEntry list option" where
  "read_pages i l cur [] = None"
| "read_pages i l cur (d # ds) =
    (case ListLedger pgStore no_faults i cur l d of
       (Inl _, _) \<Rightarrow> None
     | (Inr p, _) \<Rightarrow>
         if lp_NextCursor p = '''' then Some (lp_Entries p)
         else map_option ((@) (lp_Entries p)) (read_pages i l (lp_NextCursor p) ds))"


lemma after_seq_split:
  assumes "sorted_wrt (\<lambda>a b. sint (lr_Seq a) < sint (lr_Seq b)) (P @ Q)" and "\<forall>r \<in> set (P @ Q). 0 < sint (lr_Seq r)"
    and "a = (if P = [] then 0 else lr_Seq (last P))"
  shows "after_seq a (P @ Q) = Q"
proof (cases P rule: rev_cases)
  case Nil
  then show ?thesis using assms by (simp add: after_seq_def)
next
  case (snoc P' r)
  have "\<forall>p \<in> set P. sint (lr_Seq p) \<le> sint a" "\<forall>q \<in> set Q. sint a < sint (lr_Seq q)"
    using assms by (auto simp: snoc sorted_wrt_append less_imp_le)
  then have "filter (\<lambda>r. sint a < sint (lr_Seq r)) P = []" "filter (\<lambda>r. sint a < sint (lr_Seq r)) Q = Q"
    by (auto simp: filter_empty_conv filter_id_conv not_less)
  then show ?thesis by (simp add: after_seq_def)
qed

lemma records_ordered:
  assumes "sound d"
  shows "sorted_wrt (\<lambda>a b. sint (lr_Seq a) < sint (lr_Seq b)) (records (pg_view d) i)"
    and "\<forall>r \<in> set (records (pg_view d) i). 0 < sint (lr_Seq r)"
  using soundD(3) [OF assms] by (auto simp: view_ok_def records_def sorted_wrt_filter)

definition position :: "LedgerRecord list \<Rightarrow> int64" where
  "position P = (if P = [] then 0 else lr_Seq (last P))"

lemma position_take:
  assumes "1 \<le> m" and "m < length Q"
  shows "position (P @ take m Q) = lr_Seq (Q ! (m - 1))"
proof -
  have t: "take m Q \<noteq> []" using assms by auto
  have "last (take m Q) = Q ! (m - 1)" using assms t by (simp add: last_conv_nth min_def)
  then show ?thesis using t by (simp add: position_def)
qed

lemma read_pages_all:
  assumes "ds \<noteq> []" and "sorted_wrt (\<lambda>d d'. grows (pg_view d) (pg_view d')) ds"
    and "\<forall>d \<in> set ds. sound d \<and> v_wallets (pg_view d) i \<noteq> None \<and> prefix P (records (pg_view d) i)"
    and "decodeCursor cur = Inr (position P)"
    and "length (records (pg_view (last ds)) i) < length ds + length P"
  shows "\<exists>es. \<exists>d \<in> set ds. read_pages i l cur ds = Some es \<and> map lr_Entry P @ es = entries (pg_view d) i"
  using assms
proof (induction ds arbitrary: P cur)
  case (Cons d ds)
  let ?m = "nat (sint (pageLimit l))"
  have m: "1 \<le> ?m" using pageLimit_range(1) [of l] by simp
  have s: "sound d" using Cons.prems(3) by simp
  obtain w where w: "v_wallets (pg_view d) i = Some w" using Cons.prems(3) by auto
  obtain Q where q: "records (pg_view d) i = P @ Q" using Cons.prems(3) by (auto simp: prefix_def)
  have "after_seq (position P) (records (pg_view d) i) = Q"
    unfolding q by (rule after_seq_split) (use records_ordered [OF s, of i] in \<open>simp_all add: q position_def\<close>)
  then have run: "ListLedger pgStore no_faults i cur l d = (Inr (page_of ?m Q), d)"
    using ListLedger_eq [OF s w Cons.prems(4)] by simp
  show ?case
  proof (cases "?m < length Q")
    case False
    then show ?thesis using run by (simp add: page_of_def entries_records q)
  next
    case True
    let ?P = "P @ take ?m Q"
    let ?cur = "encodeCursor (lr_Seq (Q ! (?m - 1)))"
    have p: "position ?P = lr_Seq (Q ! (?m - 1))"
      using True m by (intro position_take)
    have "Q ! (?m - 1) \<in> set (records (pg_view d) i)" using True m by (simp add: q)
    then have dec: "decodeCursor ?cur = Inr (position ?P)"
      unfolding p using records_ordered(2) [OF s, of i] by (intro decodeCursor_encode) auto
    have pre: "prefix (records (pg_view d) i) (records (pg_view d') i)" if "d' \<in> set ds" for d'
      using Cons.prems(2) that by (auto simp: grows_def records_def prefix_def)
    have ne: "ds \<noteq> []" using Cons.prems(5) True by (auto simp: q)
    have "length Q + length P \<le> length (records (pg_view (last ds)) i)"
      using prefix_length_le [OF pre [OF last_in_set [OF ne]]] by (simp add: q)
    then have len: "length (records (pg_view (last ds)) i) < length ds + length ?P"
      using Cons.prems(5) True m ne by (simp add: min_def)
    have "prefix ?P (P @ Q)" by (simp add: take_is_prefix)
    then have "prefix ?P (records (pg_view d') i)" if "d' \<in> set ds" for d'
      using pre [OF that] unfolding q by (rule prefix_order.trans)
    then have "\<exists>es. \<exists>d \<in> set ds. read_pages i l ?cur ds = Some es \<and> map lr_Entry ?P @ es = entries (pg_view d) i"
      using Cons.prems(2,3) by (intro Cons.IH ne dec len) auto
    then obtain es d' where e: "d' \<in> set ds" "read_pages i l ?cur ds = Some es"
      "map lr_Entry ?P @ es = entries (pg_view d') i" by blast
    have "?cur \<noteq> ''''" by (simp add: encodeCursor_def EncodeToString_def)
    then have "read_pages i l cur (d # ds) = Some (map lr_Entry (take ?m Q) @ es)"
      using run True e(2) by (simp add: page_of_def)
    then show ?thesis using e(1,3) by auto
  qed
qed simp


text \<open>C25. Reading the ledger page by page is reading it at once. Start with the empty cursor on a
  reachable database where the wallet exists and follow the cursors while the system takes any
  steps in between, whatever page size is asked for: with more requests than the wallet has entries
  the last page comes, and all pages together are the whole ledger of the wallet, in its order, as
  it was at one of the requests. No entry is lost, doubled or reordered by what happens in between.\<close>

theorem pages_are_the_ledger:
  assumes "ds \<noteq> []" and "reachable sv (hd ds)" and "sorted_wrt (\<lambda>d d'. (sys_step sv)\<^sup>*\<^sup>* d d') ds"
    and "GetWallet pgStore no_faults i (hd ds) = (Inr w, hd ds)"
    and "length (entries (pg_view (last ds)) i) < length ds"
  shows "\<exists>es. \<exists>d \<in> set ds. read_pages i l '''' ds = Some es \<and> es = entries (pg_view d) i"
proof -
  have st: "(sys_step sv)\<^sup>*\<^sup>* (hd ds) d" if "d \<in> set ds" for d
    using assms(1,3) that by (cases ds) auto
  have s: "sound d" "reachable sv d" if "d \<in> set ds" for d
    using reachable_steps [OF assms(2) st [OF that]] reachable_sound by blast+
  have g: "sorted_wrt (\<lambda>d d'. grows (pg_view d) (pg_view d')) ds"
    using assms(3) by (rule sorted_wrt_mono_rel [rotated]) (use s steps_sound in blast)
  have "v_wallets (pg_view (hd ds)) i = Some w"
    using get_wallet [OF s(1) [OF hd_in_set [OF assms(1)]] assms(4)] by simp
  then have v: "v_wallets (pg_view d) i \<noteq> None" if "d \<in> set ds" for d
    using steps_sound [OF st [OF that] s(1) [OF hd_in_set [OF assms(1)]]] by (fastforce simp: grows_def)
  have z: "decodeCursor '''' = Inr (position [])" by (simp add: decodeCursor_def position_def)
  show ?thesis
    using read_pages_all [OF assms(1) g _ z, of i l] s v assms(5) by (simp add: entries_records)
qed

theorem pages_are_the_ledger_witness:
  "\<exists>es. read_pages 7 1 '''' [db2, db4, db4, db4] = Some es \<and>
     es \<in> {entries (pg_view db2) 7, entries (pg_view db4) 7}"
proof -
  have s: "sorted_wrt (\<lambda>d d'. (sys_step demo_sv)\<^sup>*\<^sup>* d d') [db2, db4, db4, db4]"
    using db3_step db4_step by auto
  have g: "GetWallet pgStore no_faults 7 db2 = (Inr (row_wallet (hd (db_wallets db2))), db2)"
    by code_simp
  have n: "length (entries (pg_view db4) 7) = 3" by code_simp
  show ?thesis
    using pages_are_the_ledger [of "[db2, db4, db4, db4]" demo_sv 7 _ 1] db2_reachable s g n by auto
qed

end
