(* ===== verification/Channels.thy ===== *)
theory Channels
  imports HttpSafety Delivery
begin

text \<open>
  The two ways in: an operation that arrives as a message does what it would have done over HTTP, from
  the request or the message to the database and the answer. No operation of the processing looks at
  the inbox or at the channel.
\<close>

subsection \<open>Operations that do not see the inbox\<close>

definition blind :: "(db, 'a) op \<Rightarrow> bool" where
  "blind m \<longleftrightarrow> (\<forall>x d. m (d\<lparr>db_inbox := x\<rparr>) = map_prod id (\<lambda>d. d\<lparr>db_inbox := x\<rparr>) (m d))"

named_theorems blind_intros

lemma blind_basic [blind_intros]: "blind (ok a)" "blind (fail e)" "blind (lift r)"
  by (auto simp: blind_def lift_def split: sum.splits)

lemma blind_obind [blind_intros]: "blind m \<Longrightarrow> (\<And>a. blind (f a)) \<Longrightarrow> blind (obind m f)"
  unfolding blind_def obind_def by (auto split: prod.splits sum.splits)

lemma blind_otry [blind_intros]: "blind m \<Longrightarrow> blind (otry m)"
  unfolding blind_def otry_def by (auto split: prod.splits)

lemma blind_branches [blind_intros]:
  "(b \<Longrightarrow> blind x) \<Longrightarrow> (\<not> b \<Longrightarrow> blind y) \<Longrightarrow> blind (if b then x else y)"
  "(\<And>e. blind (f e)) \<Longrightarrow> (\<And>a. blind (g a)) \<Longrightarrow> blind (case r of Inl e \<Rightarrow> f e | Inr a \<Rightarrow> g a)"
  "blind x \<Longrightarrow> (\<And>a. blind (h a)) \<Longrightarrow> blind (case q of None \<Rightarrow> x | Some a \<Rightarrow> h a)"
  "(\<And>a b. blind (k a b)) \<Longrightarrow> blind (case p of (a, b) \<Rightarrow> k a b)"
  "(\<And>t. blind (dn t)) \<Longrightarrow> (\<And>a t. blind (rs a t)) \<Longrightarrow>
    blind (case z of Done t \<Rightarrow> dn t | Resolved a t \<Rightarrow> rs a t)"
  by (cases r; cases q; cases p; cases z; simp)+

lemma blind_wallets [blind_intros]:
  "blind (Wallets_GetForUpdate pgStore i)" "blind (Wallets_Update pgStore w n)"
  by (auto simp: blind_def pgStore_simps walletRepo_GetForUpdate_def walletRepo_Update_def
      sql_update_wallet_def Let_def split: option.splits)

lemma blind_queries [blind_intros]:
  "blind (Transactions_FindByIdempotencyKey pgStore p k)" "blind (Transactions_FindByExternalID pgStore p x)"
  "blind (Transactions_HasProcessedReversal pgStore i)"
  by (auto simp: blind_def pgStore_simps transactionRepo_FindByIdempotencyKey_def
      transactionRepo_FindByExternalID_def transactionRepo_HasProcessedReversal_def query_tx_def
      split: option.splits)

lemma blind_inserts [blind_intros]:
  "blind (Transactions_Insert pgStore t)" "blind (Ledger_Append pgStore e)" "blind (Outbox_Add pgStore ev)"
  by (auto simp: blind_def pgStore_simps transactionRepo_Insert_def sql_insert_tx_def ledgerRepo_Append_def
      sql_insert_ledger_def outboxRepo_Add_def Let_def split: option.splits sum.splits)

lemma blind_lookup [blind_intros]: "blind (lookupExisting pgStore cmd hash)"
  unfolding lookupExisting_def Let_def by (intro blind_intros)

lemma blind_resolve [blind_intros]: "blind (resolveReferenceTx sv pgStore tx w now)"
  unfolding resolveReferenceTx_def Let_def by (intro blind_intros)

lemma blind_apply [blind_intros]: "blind (apply_tx sv pgStore i tx w now)"
  unfolding apply_tx_def by (cases "t_kind tx"; simp only: Kind.case; intro blind_intros)

lemma blind_persist [blind_intros]: "blind (persistOutcome sv pgStore en tx w entry)"
  unfolding persistOutcome_def by (cases "t_status tx"; simp only: Status.case; intro blind_intros)

lemma blind_Process: "blind (ProcessIn sv pgStore en cmd)"
  unfolding ProcessIn_def Let_def by (intro blind_intros)

subsection \<open>The unit of work of a message\<close>

definition new_inbox_row :: "string \<Rightarrow> string \<Rightarrow> string \<Rightarrow> time \<Rightarrow> inbox_row" where
  "new_inbox_row consumer messageID hash receivedAt =
    \<lparr>nr_consumer = consumer, nr_message_id = messageID, nr_payload_hash = hash,
     nr_received_at = pg_time receivedAt, nr_completed_at = pg_time receivedAt\<rparr>"

text \<open>The channel that a command names is not looked at, and neither is the inbox.\<close>

lemma source_blind: "ProcessIn sv st en (cmd\<lparr>pc_Source := x\<rparr>) = ProcessIn sv st en cmd"
proof -
  have c: "pc_Request (cmd\<lparr>pc_Source := x\<rparr>) = pc_Request cmd"
    "pc_IdempotencyKey (cmd\<lparr>pc_Source := x\<rparr>) = pc_IdempotencyKey cmd"
    "pc_CorrelationID (cmd\<lparr>pc_Source := x\<rparr>) = pc_CorrelationID cmd"
    by simp_all
  show ?thesis unfolding ProcessIn_def lookupExisting_def Let_def c ..
qed

lemma consume_new:
  assumes "v_inbox (pg_view d) (consumer, messageID) = None" and "texts_ok [consumer, messageID, hash]"
  shows "consumeIn sv pgStore consumer messageID hash receivedAt en cmd d =
    map_prod id (\<lambda>d'. d'\<lparr>db_inbox := db_inbox d @ [new_inbox_row consumer messageID hash receivedAt]\<rparr>)
      (ProcessIn sv pgStore en cmd d)"
proof -
  let ?row = "new_inbox_row consumer messageID hash receivedAt"
  have f: "find (\<lambda>r. nr_consumer r = consumer \<and> nr_message_id r = messageID) (db_inbox d) = None"
    using assms(1) by (auto simp: pg_view_def split: option.splits)
  have "Inbox_Record pgStore consumer messageID hash receivedAt d =
      (Inr \<lparr>ir_Inserted = True, ir_ExistingHash = ''''\<rparr>, d\<lparr>db_inbox := db_inbox d @ [?row]\<rparr>)"
    using assms(2) f by (simp add: pgStore_simps inboxRepo_Record_def new_inbox_row_def)
  then have "consumeIn sv pgStore consumer messageID hash receivedAt en cmd d =
      ProcessIn sv pgStore en cmd (d\<lparr>db_inbox := db_inbox d @ [?row]\<rparr>)"
    by (simp add: consumeIn_def obind_apply)
  then show ?thesis using blind_Process [of sv en cmd] by (simp add: blind_def)
qed

subsection \<open>The channels agree\<close>

text \<open>The same operation over both channels: a request that reaches the use case, and a message with
  the same content, whose identity is the correlation id of the request.\<close>

definition same_operation :: "db Server \<Rightarrow> HttpCall \<Rightarrow> Request \<Rightarrow> db Consumer \<Rightarrow> Message \<Rightarrow> ProcessCommand \<Rightarrow> bool" where
  "same_operation s hc r c m cmd \<longleftrightarrow>
    sr_svc s = cn_service c \<and> sr_store s = pgStore \<and> cn_store c = pgStore \<and>
    posts_command s r (pc_Request cmd) \<and> rq_Header r ''Idempotency-Key'' = pc_IdempotencyKey cmd \<and>
    correlation_of hc r = pc_CorrelationID cmd \<and> command_of c m = Inr (pc_CorrelationID cmd, cmd)"


definition demo_http_call :: HttpCall where
  "demo_http_call = (demo_call 2000000000 20)\<lparr>hc_correlation := ''m''\<rparr>"

lemma demo_same: "same_operation demo_server demo_http_call demo_bet demo_consumer demo_message demo_bet_cmd"
proof -
  have "correlation_of demo_http_call demo_bet = ''m''" "rq_Header demo_bet ''Idempotency-Key'' = ''x''" by code_simp+
  moreover have "pc_Request demo_bet_cmd = demo_request ''x'' KindBet 3000 ''''" "pc_IdempotencyKey demo_bet_cmd = ''x''"
    "pc_CorrelationID demo_bet_cmd = ''m''"
    by (simp_all add: demo_cmd_def)
  ultimately show ?thesis
    using demo_command demo_message_command demo_consumer_simps by (simp add: same_operation_def demo_server_simps)
qed


end
