(* ===== verification/Lifecycle.thy ===== *)
theory Lifecycle
  imports Outbox Consumer "HOL-Library.Multiset"
begin

text \<open>
  The goroutines of \<^verbatim>\<open>internal/workers/outbox.go\<close> (\<^verbatim>\<open>loop\<close>, which runs both workers) and of
  \<^verbatim>\<open>internal/adapters/sqs/consumer.go\<close> (\<^verbatim>\<open>Start\<close>, \<^verbatim>\<open>loop\<close>, \<^verbatim>\<open>Stop\<close>) as state
  machines: a step of a goroutine and a call of \<^verbatim>\<open>Stop\<close> interleave in any order. A \<^verbatim>\<open>select\<close>
  with several ready cases takes any of them. What a tick and the handling of a message do is in
  Outbox and Consumer; here only that they run matters. Each \<^verbatim>\<open>Start\<close> is called once.
\<close>

subsection \<open>The periodic loop\<close>

datatype loop_pc = Selecting | Ticking | Returned

text \<open>\<^verbatim>\<open>lo_started\<close> is that \<^verbatim>\<open>l.cancel\<close> is not nil; \<^verbatim>\<open>l.done\<close> is closed when the goroutine
  has returned; \<^verbatim>\<open>lo_timer\<close> is what the timer was last set to, and \<^verbatim>\<open>lo_ticks\<close> counts the
  ticks begun.\<close>

record loop =
  lo_started :: bool
  lo_cancelled :: bool
  lo_pc :: loop_pc
  lo_timer :: int64
  lo_ticks :: nat

definition new_loop :: loop where
  "new_loop = \<lparr>lo_started = False, lo_cancelled = False, lo_pc = Returned, lo_timer = 0, lo_ticks = 0\<rparr>"

definition loop_start :: "loop \<Rightarrow> loop" where
  "loop_start l = l\<lparr>lo_started := True, lo_cancelled := False, lo_pc := Selecting, lo_timer := 0\<rparr>"

definition loop_cancel :: "loop \<Rightarrow> loop" where
  "loop_cancel l = (if lo_started l then l\<lparr>lo_cancelled := True\<rparr> else l)"

text \<open>The results that a \<^verbatim>\<open>stop\<close> can return when it has cancelled; the context is that of the
  caller.\<close>

definition stop_returns :: "loop \<Rightarrow> error option \<Rightarrow> error option \<Rightarrow> bool" where
  "stop_returns l ctx r \<longleftrightarrow>
    (if \<not> lo_started l then r = None
     else (lo_pc l = Returned \<and> r = None) \<or> (ctx \<noteq> None \<and> r = ctx))"

inductive loop_step :: "int64 \<Rightarrow> loop \<Rightarrow> loop \<Rightarrow> bool" for interval where
  returns: "lo_pc l = Selecting \<Longrightarrow> lo_cancelled l \<Longrightarrow> loop_step interval l (l\<lparr>lo_pc := Returned\<rparr>)"
| fires: "lo_pc l = Selecting \<Longrightarrow>
    loop_step interval l (l\<lparr>lo_pc := Ticking, lo_ticks := Suc (lo_ticks l)\<rparr>)"
| ticked: "lo_pc l = Ticking \<Longrightarrow>
    loop_step interval l (if lo_cancelled l then l\<lparr>lo_pc := Returned\<rparr>
      else l\<lparr>lo_pc := Selecting, lo_timer := next_delay interval again\<rparr>)"
| stopped: "loop_step interval l (loop_cancel l)"

inductive_cases loop_stepE: "loop_step interval l l'"

text \<open>How many ticks can still begin, once cancelled.\<close>

definition ticks_left :: "loop \<Rightarrow> nat" where
  "ticks_left l = (if lo_pc l = Selecting then 1 else 0)"

lemma cancelled_step:
  assumes "loop_step interval l l'" and "lo_started l \<and> lo_cancelled l"
  shows "lo_started l' \<and> lo_cancelled l' \<and> lo_ticks l' + ticks_left l' \<le> lo_ticks l + ticks_left l \<and>
    (lo_pc l = Returned \<longrightarrow> lo_pc l' = Returned) \<and> lo_ticks l \<le> lo_ticks l'"
  using assms by cases (auto simp: ticks_left_def loop_cancel_def)

lemma cancelled_steps:
  assumes "(loop_step interval)\<^sup>*\<^sup>* l l'" and "lo_started l \<and> lo_cancelled l"
  shows "lo_started l' \<and> lo_cancelled l' \<and> lo_ticks l' + ticks_left l' \<le> lo_ticks l + ticks_left l \<and>
    (lo_pc l = Returned \<longrightarrow> lo_pc l' = Returned) \<and> lo_ticks l \<le> lo_ticks l'"
  using assms
proof (induction rule: rtranclp_induct)
  case (step x y)
  then show ?case using cancelled_step [of interval x y] by fastforce
qed simp

lemma started_steps: "(loop_step interval)\<^sup>*\<^sup>* l l' \<Longrightarrow> lo_started l \<Longrightarrow> lo_started l'"
  by (induction rule: rtranclp_induct) (auto elim!: loop_stepE simp: loop_cancel_def)

text \<open>C27. A worker stops. From the call of \<^verbatim>\<open>Stop\<close> on a started worker, at whatever point its
  goroutine is, at most one more tick begins, and none when one is running; and once \<^verbatim>\<open>Stop\<close>
  has returned without error no tick runs and none ever begins again.\<close>

theorem stop_is_final:
  assumes "(loop_step interval)\<^sup>*\<^sup>* (loop_start new_loop) l" and "(loop_step interval)\<^sup>*\<^sup>* (loop_cancel l) l1"
    and "(loop_step interval)\<^sup>*\<^sup>* l1 l2"
  shows "lo_ticks l1 \<le> lo_ticks l + 1 \<and> (lo_pc l = Ticking \<longrightarrow> lo_ticks l1 = lo_ticks l) \<and>
    (stop_returns l1 None r \<longrightarrow> r = None \<and> lo_pc l1 = Returned \<and> lo_pc l2 = Returned \<and> lo_ticks l2 = lo_ticks l1)"
proof -
  have s: "lo_started l" using started_steps [OF assms(1)] by (simp add: loop_start_def)
  then have c: "loop_cancel l = l\<lparr>lo_cancelled := True\<rparr>" by (simp add: loop_cancel_def)
  note a = cancelled_steps [OF assms(2)]
  have a: "lo_started l1" "lo_cancelled l1" "lo_ticks l1 + ticks_left l1 \<le> lo_ticks l + ticks_left l" "lo_ticks l \<le> lo_ticks l1"
    using a s by (simp_all add: c ticks_left_def)
  note b = cancelled_steps [OF assms(3) conjI [OF a(1,2)]]
  have "ticks_left l \<le> 1" "lo_pc l = Ticking \<Longrightarrow> ticks_left l = 0" by (simp_all add: ticks_left_def)
  moreover have "lo_ticks l2 = lo_ticks l1" if "lo_pc l1 = Returned"
    using b that by (auto simp: ticks_left_def)
  ultimately show ?thesis
    using a b by (auto simp: stop_returns_def)
qed


theorem stop_is_final_witness:
  "\<exists>l l1. (loop_step 500)\<^sup>*\<^sup>* (loop_start new_loop) l \<and> lo_pc l = Ticking \<and>
     (loop_step 500)\<^sup>*\<^sup>* (loop_cancel l) l1 \<and> stop_returns l1 None None \<and> lo_ticks l1 = 1"
proof -
  define l where "l = (loop_start new_loop)\<lparr>lo_pc := Ticking, lo_ticks := 1\<rparr>"
  define l1 where "l1 = (loop_cancel l)\<lparr>lo_pc := Returned\<rparr>"
  have "loop_step 500 (loop_start new_loop) l"
    using loop_step.fires [of "loop_start new_loop" 500] by (simp add: l_def loop_start_def new_loop_def)
  then have a: "(loop_step 500)\<^sup>*\<^sup>* (loop_start new_loop) l" by (rule r_into_rtranclp)
  have "loop_step 500 (loop_cancel l) l1"
    using loop_step.ticked [of "loop_cancel l" 500 True]
    by (simp add: l_def l1_def loop_cancel_def loop_start_def)
  then have b: "(loop_step 500)\<^sup>*\<^sup>* (loop_cancel l) l1" by (rule r_into_rtranclp)
  have p: "lo_pc l = Ticking" "stop_returns l1 None None" "lo_ticks l = 1"
    by (simp_all add: l_def l1_def stop_returns_def)
  show ?thesis using stop_is_final [OF a b rtranclp.rtrancl_refl] a b p by metis
qed

subsection \<open>The consumer's workers\<close>

text \<open>Where a goroutine stands: before the condition of its loop, in \<^verbatim>\<open>ReceiveMessage\<close>, among the
  messages it has received, waiting after an error, and at its end. What it has received is handled
  with a context that the cancellation does not reach.\<close>

datatype worker = Checking | Receiving | Handling (in_flight: "Message list") | Pausing | Exited
  where "in_flight Checking = []" | "in_flight Receiving = []" | "in_flight Pausing = []" | "in_flight Exited = []"

record pool =
  cp_cancelled :: bool
  cp_workers :: "worker list"
  cp_received :: "Message list"
  cp_handled :: "Message list"

definition pool_start :: "ConsumerConfig \<Rightarrow> pool" where
  "pool_start cfg = \<lparr>cp_cancelled = False, cp_workers = replicate (nat (sint (Workers cfg))) Checking,
     cp_received = [], cp_handled = []\<rparr>"

definition pool_cancel :: "pool \<Rightarrow> pool" where
  "pool_cancel p = p\<lparr>cp_cancelled := True\<rparr>"

definition goes :: "pool \<Rightarrow> nat \<Rightarrow> worker \<Rightarrow> pool" where
  "goes p i w = p\<lparr>cp_workers := (cp_workers p)[i := w]\<rparr>"

definition at :: "pool \<Rightarrow> nat \<Rightarrow> worker \<Rightarrow> bool" where
  "at p i w \<longleftrightarrow> i < length (cp_workers p) \<and> cp_workers p ! i = w"

inductive pool_step :: "pool \<Rightarrow> pool \<Rightarrow> bool" where
  polls: "at p i Checking \<Longrightarrow> \<not> cp_cancelled p \<Longrightarrow> pool_step p (goes p i Receiving)"
| leaves: "at p i Checking \<Longrightarrow> cp_cancelled p \<Longrightarrow> pool_step p (goes p i Exited)"
| receives: "at p i Receiving \<Longrightarrow>
    pool_step p ((goes p i (Handling ms))\<lparr>cp_received := cp_received p @ ms\<rparr>)"
| fails: "at p i Receiving \<Longrightarrow> pool_step p (goes p i (if cp_cancelled p then Exited else Pausing))"
| resumes: "at p i Pausing \<Longrightarrow> pool_step p (goes p i Checking)"
| handles: "at p i (Handling (m # ms)) \<Longrightarrow>
    pool_step p ((goes p i (Handling ms))\<lparr>cp_handled := cp_handled p @ [m]\<rparr>)"
| empties: "at p i (Handling []) \<Longrightarrow> pool_step p (goes p i Checking)"
| cancels: "pool_step p (pool_cancel p)"

inductive_cases pool_stepE: "pool_step p p'"

text \<open>\<^verbatim>\<open>c.done\<close> is closed when the wait group is down to zero.\<close>

definition pool_stop_returns :: "pool \<Rightarrow> error option \<Rightarrow> error option \<Rightarrow> bool" where
  "pool_stop_returns p ctx r \<longleftrightarrow>
    (list_all (\<lambda>w. w = Exited) (cp_workers p) \<and> r = None) \<or> (ctx \<noteq> None \<and> r = ctx)"

definition pool_ok :: "pool \<Rightarrow> bool" where
  "pool_ok p \<longleftrightarrow>
    mset (cp_received p) = mset (cp_handled p) + mset (concat (map in_flight (cp_workers p)))"

lemma in_flight_update:
  "i < length ws \<Longrightarrow> mset (concat (map in_flight (ws[i := w]))) + mset (in_flight (ws ! i)) =
    mset (concat (map in_flight ws)) + mset (in_flight w)"
  by (induction ws arbitrary: i) (auto split: nat.splits)

definition in_pool :: "pool \<Rightarrow> Message multiset" where
  "in_pool p = mset (concat (map in_flight (cp_workers p)))"

lemma in_pool_goes:
  "at p i v \<Longrightarrow> in_pool (goes p i w) + mset (in_flight v) = in_pool p + mset (in_flight w)"
  using in_flight_update [of i "cp_workers p" w] unfolding in_pool_def goes_def at_def by simp

lemma goes_log [simp]: "cp_received (goes p i w) = cp_received p" "cp_handled (goes p i w) = cp_handled p"
  by (simp_all add: goes_def)

lemma in_pool_log [simp]:
  "in_pool (p\<lparr>cp_received := x\<rparr>) = in_pool p" "in_pool (p\<lparr>cp_handled := x\<rparr>) = in_pool p"
  "in_pool (pool_cancel p) = in_pool p"
  by (simp_all add: in_pool_def pool_cancel_def)

lemma pool_ok_goes:
  assumes "at p i v" and "pool_ok p" and "in_flight v = []" and "in_flight w = []"
  shows "pool_ok (goes p i w)"
  using in_pool_goes [OF assms(1), of w] assms(2-4) unfolding pool_ok_def in_pool_def [symmetric] by simp

lemma pool_ok_step: "pool_step p p' \<Longrightarrow> pool_ok p \<Longrightarrow> pool_ok p'"
proof (induction rule: pool_step.induct)
  case (receives p i ms)
  then show ?case using in_pool_goes [OF receives(1), of "Handling ms"]
    by (simp add: pool_ok_def in_pool_def [symmetric])
next
  case (handles p i m ms)
  then show ?case using in_pool_goes [OF handles(1), of "Handling ms"]
    by (simp add: pool_ok_def in_pool_def [symmetric])
next
  case (cancels p)
  then show ?case by (simp add: pool_ok_def pool_cancel_def)
qed (auto elim: pool_ok_goes)

lemma pool_ok_steps: "pool_step\<^sup>*\<^sup>* p p' \<Longrightarrow> pool_ok p \<Longrightarrow> pool_ok p'"
  by (induction rule: rtranclp_induct) (auto intro: pool_ok_step)

definition all_exited :: "pool \<Rightarrow> bool" where
  "all_exited p \<longleftrightarrow> list_all (\<lambda>w. w = Exited) (cp_workers p)"

lemma exited_step:
  assumes "pool_step p p'" and "all_exited p"
  shows "all_exited p' \<and> cp_received p' = cp_received p \<and> cp_handled p' = cp_handled p"
proof -
  have "\<not> at p i w" if "w \<noteq> Exited" for i w
    using assms(2) that by (auto simp: all_exited_def at_def list_all_length)
  then show ?thesis
    using assms by (auto elim!: pool_stepE simp: pool_cancel_def all_exited_def)
qed

lemma exited_steps:
  "pool_step\<^sup>*\<^sup>* p p' \<Longrightarrow> all_exited p \<Longrightarrow>
    all_exited p' \<and> cp_received p' = cp_received p \<and> cp_handled p' = cp_handled p"
  by (induction rule: rtranclp_induct) (auto dest: exited_step)

text \<open>C28. The consumer drains. Whatever its workers do and whenever the cancellation comes, when
  \<^verbatim>\<open>Stop\<close> returns without error every message that a worker received has been handled, and from
  then on no message is received or handled.\<close>

theorem consumer_drains:
  assumes "pool_step\<^sup>*\<^sup>* (pool_start cfg) p" and "pool_step\<^sup>*\<^sup>* p p'" and "pool_stop_returns p None r"
  shows "r = None \<and> mset (cp_handled p) = mset (cp_received p) \<and>
    cp_received p' = cp_received p \<and> cp_handled p' = cp_handled p"
proof -
  have "pool_ok (pool_start cfg)" by (simp add: pool_ok_def pool_start_def)
  then have ok: "pool_ok p" using pool_ok_steps [OF assms(1)] by blast
  have x: "all_exited p" "r = None" using assms(3) by (auto simp: pool_stop_returns_def all_exited_def)
  then have "concat (map in_flight (cp_workers p)) = []" by (auto simp: all_exited_def list_all_iff)
  then show ?thesis using ok x exited_steps [OF assms(2) x(1)] by (simp add: pool_ok_def)
qed


definition one_worker :: "bool \<Rightarrow> worker \<Rightarrow> Message list \<Rightarrow> Message list \<Rightarrow> pool" where
  "one_worker c w rs hs = \<lparr>cp_cancelled = c, cp_workers = [w], cp_received = rs, cp_handled = hs\<rparr>"

lemma at_one: "at (one_worker c w rs hs) 0 w"
  by (simp add: at_def one_worker_def)

lemma one_worker_run:
  "pool_step\<^sup>*\<^sup>* (one_worker False Checking [] []) (one_worker True Exited [m] [m])"
proof -
  have s1: "pool_step (one_worker False Checking [] []) (one_worker False Receiving [] [])"
    using pool_step.polls [OF at_one, of False "[]" "[]"] by (simp add: goes_def one_worker_def)
  have s2: "pool_step (one_worker False Receiving [] []) (one_worker False (Handling [m]) [m] [])"
    using pool_step.receives [OF at_one, of False "[]" "[]" "[m]"] by (simp add: goes_def one_worker_def)
  have s3: "pool_step (one_worker False (Handling [m]) [m] []) (one_worker True (Handling [m]) [m] [])"
    using pool_step.cancels [of "one_worker False (Handling [m]) [m] []"]
    by (simp add: pool_cancel_def one_worker_def)
  have s4: "pool_step (one_worker True (Handling [m]) [m] []) (one_worker True (Handling []) [m] [m])"
    using pool_step.handles [OF at_one, of True m "[]" "[m]" "[]"] by (simp add: goes_def one_worker_def)
  have s5: "pool_step (one_worker True (Handling []) [m] [m]) (one_worker True Checking [m] [m])"
    using pool_step.empties [OF at_one, of True "[m]" "[m]"] by (simp add: goes_def one_worker_def)
  have s6: "pool_step (one_worker True Checking [m] [m]) (one_worker True Exited [m] [m])"
    using pool_step.leaves [OF at_one, of True "[m]" "[m]"] by (simp add: goes_def one_worker_def)
  show ?thesis
    by (rule converse_rtranclp_into_rtranclp [where r = pool_step], rule s1)
      (rule converse_rtranclp_into_rtranclp [where r = pool_step], rule s2,
       rule converse_rtranclp_into_rtranclp [where r = pool_step], rule s3,
       rule converse_rtranclp_into_rtranclp [where r = pool_step], rule s4,
       rule converse_rtranclp_into_rtranclp [where r = pool_step], rule s5,
       rule r_into_rtranclp [where r = pool_step], rule s6)
qed

theorem consumer_drains_witness:
  "\<exists>m p. pool_step\<^sup>*\<^sup>* (one_worker False Checking [] []) p \<and> pool_stop_returns p None None \<and>
     cp_received p = [m] \<and> mset (cp_handled p) = {#m#}"
proof -
  fix m :: Message
  define cfg where "cfg = \<lparr>QueueName = '''', DLQName = '''', ConsumerName = '''', WaitTime = 0,
    VisibilityTimeout = 0, MaxMessages = 1, Workers = 1, CrashAfterCommit = False\<rparr>"
  have s: "pool_start cfg = one_worker False Checking [] []"
    by (simp add: pool_start_def one_worker_def cfg_def)
  have r: "pool_stop_returns (one_worker True Exited [m] [m]) None None" "cp_received (one_worker True Exited [m] [m]) = [m]"
    by (simp_all add: pool_stop_returns_def one_worker_def)
  show ?thesis
    using consumer_drains [OF one_worker_run [folded s] rtranclp.rtrancl_refl r(1)] one_worker_run r
    by (intro exI [of _ m] exI [of _ "one_worker True Exited [m] [m]"]) auto
qed

end
