(* ===== verification/Startup.thy ===== *)
theory Startup
  imports Configuration Http Delivery
begin

text \<open>
  \<^verbatim>\<open>internal/fxapp/app.go\<close>, \<^verbatim>\<open>internal/adapters/postgres/pool.go\<close> and the two commands: how the
  configuration reaches the service, the consumer, the publisher and the server, what has to work
  before the process starts, the order of the lifecycle hooks, and the exit codes of the commands.
  What the libraries do is a parameter: the outcome of opening the pool and of the migrations, the
  broker, the OIDC verifier of a configuration, the HTTP client and the migration source. The
  container calls the constructors when an \<^verbatim>\<open>fx.Invoke\<close> first needs them, module by module.
\<close>

subsection \<open>The parts\<close>

text \<open>A crash hook is there when its name is the configured one.\<close>

definition crashPoint :: "AppConfig \<Rightarrow> string \<Rightarrow> bool" where
  "crashPoint cfg name \<longleftrightarrow> cf_CrashPoint cfg = name"

definition service_config :: "AppConfig \<Rightarrow> Config" where
  "service_config cfg =
    \<lparr>PendingReferenceBaseBackoff = cf_PendingBaseBackoff cfg,
     PendingReferenceMaxBackoff = cf_PendingMaxBackoff cfg,
     PendingReferenceMaxAttempts = cf_PendingMaxAttempts cfg\<rparr>"

definition consumer_config :: "AppConfig \<Rightarrow> ConsumerConfig" where
  "consumer_config cfg =
    \<lparr>QueueName = cf_SQSWagerQueue cfg, DLQName = cf_SQSWagerDLQ cfg,
     ConsumerName = cf_SQSConsumerName cfg, WaitTime = cf_SQSWaitTime cfg,
     VisibilityTimeout = cf_SQSVisibilityTimeout cfg, MaxMessages = scast (cf_SQSMaxMessages cfg),
     Workers = cf_SQSConsumerWorkers cfg,
     CrashAfterCommit = crashPoint cfg ''consumer.after_commit''\<rparr>"

definition outbox_config :: "AppConfig \<Rightarrow> OutboxConfig" where
  "outbox_config cfg =
    \<lparr>ob_PublisherID = cf_InstanceID cfg, ob_PollInterval = cf_OutboxPollInterval cfg,
     ob_BatchSize = cf_OutboxBatchSize cfg, ob_Lease = cf_OutboxLease cfg,
     ob_BaseBackoff = cf_OutboxBaseBackoff cfg, ob_MaxBackoff = cf_OutboxMaxBackoff cfg,
     ob_CrashAfterClaim = crashPoint cfg ''outbox.after_claim'',
     ob_CrashAfterPublish = crashPoint cfg ''outbox.after_publish''\<rparr>"

definition auth_config :: "AppConfig \<Rightarrow> AuthConfig" where
  "auth_config cfg =
    \<lparr>Issuer = cf_OIDCIssuer cfg, JWKSURL = cf_OIDCJWKSURL cfg, Audience = cf_OIDCAudience cfg\<rparr>"

text \<open>The poll interval of the pending reference worker.\<close>

definition NewPendingReferenceWorker :: "int64 \<Rightarrow> int64" where
  "NewPendingReferenceWorker poll = (if sint poll \<le> 0 then Second else poll)"

text \<open>\<^verbatim>\<open>NewPool\<close>: the limits it passes on; None keeps the value of the connection string.\<close>

record PoolConfig =
  pl_DSN :: string
  pl_MaxConns :: "int32 option"
  pl_ConnectTimeout :: "int64 option"

definition NewPool_config :: "string \<Rightarrow> int32 \<Rightarrow> int64 \<Rightarrow> PoolConfig" where
  "NewPool_config dsn conns connect =
    \<lparr>pl_DSN = dsn, pl_MaxConns = (if sint conns > 0 then Some conns else None),
     pl_ConnectTimeout = (if sint connect > 0 then Some connect else None)\<rparr>"

definition pool_config :: "AppConfig \<Rightarrow> PoolConfig" where
  "pool_config cfg = NewPool_config (cf_DatabaseURL cfg) (cf_DBMaxConns cfg) (10 * Second)"

subsection \<open>Migrations\<close>

text \<open>The errors of golang-migrate: the two it uses as signals and the others.\<close>

datatype MigrateError = ErrNoChange | ErrNilVersion | MigrateError string

text \<open>\<^verbatim>\<open>Up\<close>, \<^verbatim>\<open>Down\<close> and \<^verbatim>\<open>Steps\<close> on the library's answer.\<close>

definition migrated :: "MigrateError option \<Rightarrow> MigrateError option" where
  "migrated r = (if r = Some ErrNoChange then None else r)"

definition Version :: "MigrateError + nat \<times> bool \<Rightarrow> MigrateError + nat \<times> bool" where
  "Version r = (if r = Inl ErrNilVersion then Inr (0, False) else r)"

record Migrator =
  mg_Up :: "MigrateError option"
  mg_Down :: "MigrateError option"
  mg_Steps :: "int64 \<Rightarrow> MigrateError option"
  mg_Version :: "MigrateError + nat \<times> bool"

text \<open>\<^verbatim>\<open>NewMigrator\<close> opens the library's migrator on the rewritten connection string.\<close>

definition NewMigrator :: "(string \<Rightarrow> MigrateError + Migrator) \<Rightarrow> string \<Rightarrow> MigrateError + Migrator" where
  "NewMigrator lib dsn = lib (migrateDSN dsn)"

definition migrate :: "(string \<Rightarrow> MigrateError + Migrator) \<Rightarrow> AppConfig \<Rightarrow> MigrateError option" where
  "migrate lib cfg =
    (if \<not> cf_DBAutoMigrate cfg then None
     else (case NewMigrator lib (cf_DatabaseURL cfg) of
             Inl e \<Rightarrow> Some e
           | Inr m \<Rightarrow> migrated (mg_Up m)))"

text \<open>\<^verbatim>\<open>cmd/migrate\<close>: its exit code for the DSN and the arguments. \<^verbatim>\<open>flag.Arg\<close> beyond the
  arguments is the empty text.\<close>

definition migrate_command :: "(string \<Rightarrow> MigrateError + Migrator) \<Rightarrow> string \<Rightarrow> string list \<Rightarrow> nat" where
  "migrate_command lib dsn args =
    (if dsn = '''' then 2
     else if args = [] then 2
     else
       (case NewMigrator lib dsn of
          Inl _ \<Rightarrow> 1
        | Inr m \<Rightarrow>
            let code = (\<lambda>r. if r = None then 0 else 1) in
            if hd args = ''up'' then code (migrated (mg_Up m))
            else if hd args = ''down'' then code (migrated (mg_Down m))
            else if hd args = ''steps'' then
              (case ParseInt (if length args < 2 then '''' else args ! 1) of
                 Inl _ \<Rightarrow> 1
               | Inr n \<Rightarrow> code (migrated (mg_Steps m n)))
            else if hd args = ''version'' then (case Version (mg_Version m) of Inl _ \<Rightarrow> 1 | Inr _ \<Rightarrow> 0)
            else 1))"

subsection \<open>Readiness\<close>

text \<open>\<^verbatim>\<open>Verifier.Ready\<close> on the text of the error that the key set gave for the token "invalid".\<close>

definition Verifier_Ready :: "string option \<Rightarrow> string option" where
  "Verifier_Ready r =
    (case r of
       Some text \<Rightarrow> if contains text ''fetching keys'' then Some text else None
     | None \<Rightarrow> None)"

definition newReadinessChecks :: "string list" where
  "newReadinessChecks = [''postgres'', ''sqs'', ''oidc'']"

text \<open>What each check asks: the pool, the broker, the key set.\<close>

definition readiness ::
  "error option \<Rightarrow> Broker \<Rightarrow> (string \<Rightarrow> error) \<Rightarrow> string option \<Rightarrow> AppConfig \<Rightarrow> 's World \<Rightarrow> string \<Rightarrow> error option" where
  "readiness ping bk err_of signature cfg w name =
    (if name = ''postgres'' then ping
     else if name = ''sqs'' then
       (case fst (Client_Ready bk (cf_SQSWagerQueue cfg) w) of Inl e \<Rightarrow> Some e | Inr _ \<Rightarrow> None)
     else map_option err_of (Verifier_Ready signature))"

subsection \<open>The process\<close>

text \<open>\<^verbatim>\<open>sqs.NewClient\<close>: what it passes to the AWS library; None leaves the library's own choice.\<close>

record SqsConfig =
  sc_Region :: string
  sc_Endpoint :: string
  sc_AccessKeyID :: string
  sc_SecretAccessKey :: string

record ClientOptions =
  co_Region :: string
  co_MaxAttempts :: nat
  co_Credentials :: "(string \<times> string) option"
  co_BaseEndpoint :: "string option"

definition NewClient_options :: "SqsConfig \<Rightarrow> ClientOptions" where
  "NewClient_options cfg =
    \<lparr>co_Region = sc_Region cfg, co_MaxAttempts = 3,
     co_Credentials =
       (if sc_AccessKeyID cfg \<noteq> '''' then Some (sc_AccessKeyID cfg, sc_SecretAccessKey cfg) else None),
     co_BaseEndpoint = (if sc_Endpoint cfg \<noteq> '''' then Some (sc_Endpoint cfg) else None)\<rparr>"

text \<open>What the libraries give.\<close>

record 's Libraries =
  lb_store :: "'s Store"
  lb_pool :: "PoolConfig \<Rightarrow> error option"
  lb_migrate :: "string \<Rightarrow> MigrateError + Migrator"
  lb_migrate_error :: "MigrateError \<Rightarrow> error"
  lb_getenv :: "string \<Rightarrow> string"
  lb_client :: "ClientOptions \<Rightarrow> error option"
  lb_broker :: Broker
  lb_verifier :: "AuthConfig \<Rightarrow> string \<Rightarrow> IDToken option"
  lb_verifier_error :: error
  lb_uuid_string :: "uuid \<Rightarrow> string"
  lb_sha256_hex :: "string \<Rightarrow> string"
  lb_parseUUID :: "string \<Rightarrow> uuid option"
  lb_jsonOpen :: "string \<Rightarrow> OpenWalletRequest option"
  lb_jsonTransaction :: "string \<Rightarrow> TransactionRequest option"
  lb_jsonEnvelope :: "string \<Rightarrow> SqsEnvelope option"
  lb_error_text :: "error \<Rightarrow> string"
  lb_NewString :: string

record 's App =
  ap_server :: "'s Server"
  ap_consumer :: "'s Consumer"
  ap_publisher :: "'s OutboxPublisher"
  ap_pending_poll :: int64

definition new_service :: "'s Libraries \<Rightarrow> AppConfig \<Rightarrow> Service" where
  "new_service lb cfg = NewService (lb_uuid_string lb) (lb_sha256_hex lb) (service_config cfg)"

definition new_consumer :: "'s Libraries \<Rightarrow> AppConfig \<Rightarrow> 's Consumer" where
  "new_consumer lb cfg =
    NewConsumer (new_service lb cfg) (lb_store lb) (lb_broker lb) (lb_parseUUID lb) (lb_jsonEnvelope lb)
      (consumer_config cfg)"

definition new_publisher :: "'s Libraries \<Rightarrow> AppConfig \<Rightarrow> 's OutboxPublisher" where
  "new_publisher lb cfg =
    \<lparr>op_store = lb_store lb, op_broker = lb_broker lb, op_uuid_string = lb_uuid_string lb,
     op_error_text = lb_error_text lb, op_queue = cf_SQSEventsQueue cfg,
     op_cfg = NewOutboxConfig (lb_NewString lb) (outbox_config cfg)\<rparr>"

definition new_server :: "'s Libraries \<Rightarrow> AppConfig \<Rightarrow> Verifier \<Rightarrow> 's Server" where
  "new_server lb cfg v =
    \<lparr>sr_svc = new_service lb cfg, sr_store = lb_store lb, sr_verifier = v,
     sr_checks = newReadinessChecks, sr_parseUUID = lb_parseUUID lb, sr_jsonOpen = lb_jsonOpen lb,
     sr_jsonTransaction = lb_jsonTransaction lb\<rparr>"

definition aws_options :: "'s Libraries \<Rightarrow> AppConfig \<Rightarrow> ClientOptions" where
  "aws_options lb cfg = NewClient_options
    \<lparr>sc_Region = cf_AWSRegion cfg, sc_Endpoint = cf_SQSEndpoint cfg,
     sc_AccessKeyID = lb_getenv lb ''AWS_ACCESS_KEY_ID'',
     sc_SecretAccessKey = lb_getenv lb ''AWS_SECRET_ACCESS_KEY''\<rparr>"

definition new_client :: "'s Libraries \<Rightarrow> AppConfig \<Rightarrow> ('s World, unit) op" where
  "new_client lb cfg =
    (case lb_client lb (aws_options lb cfg) of
       Some e \<Rightarrow> fail e
     | None \<Rightarrow>
         Resolve (lb_broker lb) [cf_SQSWagerQueue cfg, cf_SQSWagerDLQ cfg, cf_SQSEventsQueue cfg])"

definition new_verifier :: "'s Libraries \<Rightarrow> AppConfig \<Rightarrow> Verifier option" where
  "new_verifier lb cfg = NewVerifier (lb_verifier lb) (auth_config cfg)"

text \<open>The graph, or the first error: pool, migrations, queues, verifier.\<close>

definition Options :: "'s Libraries \<Rightarrow> AppConfig \<Rightarrow> ('s World, 's App) op" where
  "Options lb cfg =
    (case lb_pool lb (pool_config cfg) of
       Some e \<Rightarrow> fail e
     | None \<Rightarrow>
         (case migrate (lb_migrate lb) cfg of
            Some e \<Rightarrow> fail (lb_migrate_error lb e)
          | None \<Rightarrow>
              obind (new_client lb cfg) (\<lambda>_.
              (case new_verifier lb cfg of
                 None \<Rightarrow> fail (lb_verifier_error lb)
               | Some v \<Rightarrow>
                   ok \<lparr>ap_server = new_server lb cfg v, ap_consumer = new_consumer lb cfg,
                       ap_publisher = new_publisher lb cfg,
                       ap_pending_poll = NewPendingReferenceWorker (cf_PendingPollInterval cfg)\<rparr>))))"

text \<open>The hooks in the order in which they are appended; the container runs the stop hooks in the
  opposite order.\<close>

datatype Hook = ClosePool | ConsumerHook | HTTPServerHook | OutboxHook | PendingHook

definition consumer_hooks :: "AppConfig \<Rightarrow> Hook list" where
  "consumer_hooks cfg = (if \<not> cf_SQSConsumerEnabled cfg then [] else [ConsumerHook])"

definition worker_hooks :: "AppConfig \<Rightarrow> Hook list" where
  "worker_hooks cfg =
    (if cf_OutboxEnabled cfg then [OutboxHook] else []) @
    (if cf_PendingWorkerEnabled cfg then [PendingHook] else [])"

definition hooks :: "AppConfig \<Rightarrow> Hook list" where
  "hooks cfg = [ClosePool] @ consumer_hooks cfg @ [HTTPServerHook] @ worker_hooks cfg"

definition stop_timeout :: "AppConfig \<Rightarrow> int64" where
  "stop_timeout cfg = cf_WorkerShutdownTimeout cfg + cf_HTTPShutdownTimeout cfg + 5 * Second"

text \<open>\<^verbatim>\<open>cmd/wager\<close>: None runs the server, Some is the exit code. The HTTP client answers the
  status of a GET, None for an error.\<close>

definition probe :: "(string \<Rightarrow> nat option) \<Rightarrow> AppConfig \<Rightarrow> nat" where
  "probe http_get cfg =
    (let addr = cf_HTTPAddr cfg;
         addr = (if hd addr = CHR '':'' then ''127.0.0.1'' @ addr else addr)
     in case http_get (''http://'' @ addr @ ''/health/ready'') of
          None \<Rightarrow> 1
        | Some status \<Rightarrow> if status \<noteq> 200 then 1 else 0)"

definition main_command :: "(string \<Rightarrow> nat option) \<Rightarrow> bool \<Rightarrow> OS \<Rightarrow> nat option" where
  "main_command http_get healthcheck os =
    (case Load os of (cfg, errs) \<Rightarrow>
       if errs \<noteq> [] then Some 2
       else if healthcheck then Some (probe http_get cfg)
       else None)"


subsection \<open>What the configuration becomes\<close>


lemma Load_validates: "Load os = (cfg, []) \<Longrightarrow> Validate cfg = []"
  by (auto simp: Load_def)

lemma scast_small: "0 < sint (n :: int32) \<Longrightarrow> sint (scast n :: int64) = sint n"
  by (simp add: sint_up_scast is_up_def source_size_def target_size_def word_size)

lemma hostname_nonempty: "hostname os \<noteq> ''''"
  by (auto simp: hostname_def split: option.splits)

lemma consumer_effective:
  assumes "1 \<le> sint (cf_SQSConsumerWorkers cfg)" and "1 \<le> sint (scast (cf_SQSMaxMessages cfg) :: int64)"
  shows "cn_cfg (new_consumer lb cfg) = (consumer_config cfg)\<lparr>WaitTime :=
    if 0 < sint (cf_SQSWaitTime cfg) then cf_SQSWaitTime cfg else 5 * Second\<rparr>"
  using assms by (simp add: new_consumer_def NewConsumer_def Let_def consumer_config_def)

lemma publisher_effective:
  assumes "1 \<le> sint (cf_OutboxBatchSize cfg)" and "1 \<le> sint (cf_OutboxLease cfg)" and "cf_InstanceID cfg \<noteq> ''''"
  shows "op_cfg (new_publisher lb cfg) = (outbox_config cfg)
    \<lparr>ob_PollInterval := if 0 < sint (cf_OutboxPollInterval cfg) then cf_OutboxPollInterval cfg else 500000000,
     ob_BaseBackoff := if 0 < sint (cf_OutboxBaseBackoff cfg) then cf_OutboxBaseBackoff cfg else Second,
     ob_MaxBackoff := if 0 < sint (cf_OutboxMaxBackoff cfg) then cf_OutboxMaxBackoff cfg else Minute\<rparr>"
  using assms by (simp add: new_publisher_def NewOutboxConfig_def Let_def outbox_config_def)

text \<open>C39. A configuration that loads is the one in force. The limits that \<^verbatim>\<open>Validate\<close> checks reach
  the service, the consumer, the publisher and the pool as they are: none is replaced by a default of
  the part that uses it, no conversion changes one, the publisher has a name of its own, and without
  a crash point no hook that ends the process is there. A duration that is not positive is replaced
  by the default of the part.\<close>

theorem configured_exactly:
  assumes "Load os = (cfg, [])"
  shows "PendingReferenceMaxAttempts (sv_cfg (new_service lb cfg)) = cf_PendingMaxAttempts cfg \<and>
    sint (MaxMessages (cn_cfg (new_consumer lb cfg))) = sint (cf_SQSMaxMessages cfg) \<and>
    Workers (cn_cfg (new_consumer lb cfg)) = cf_SQSConsumerWorkers cfg \<and>
    WaitTime (cn_cfg (new_consumer lb cfg)) =
      (if 0 < sint (cf_SQSWaitTime cfg) then cf_SQSWaitTime cfg else 5 * Second) \<and>
    ob_BatchSize (op_cfg (new_publisher lb cfg)) = cf_OutboxBatchSize cfg \<and>
    ob_Lease (op_cfg (new_publisher lb cfg)) = cf_OutboxLease cfg \<and>
    ob_PublisherID (op_cfg (new_publisher lb cfg)) = cf_InstanceID cfg \<and>
    ob_MaxBackoff (op_cfg (new_publisher lb cfg)) =
      (if 0 < sint (cf_OutboxMaxBackoff cfg) then cf_OutboxMaxBackoff cfg else Minute) \<and>
    pl_MaxConns (pool_config cfg) = Some (cf_DBMaxConns cfg) \<and>
    (cf_CrashPoint cfg = '''' \<longrightarrow>
      \<not> CrashAfterCommit (cn_cfg (new_consumer lb cfg)) \<and>
      \<not> ob_CrashAfterClaim (op_cfg (new_publisher lb cfg)) \<and>
      \<not> ob_CrashAfterPublish (op_cfg (new_publisher lb cfg)))"
proof -
  note v = Validate_ok [OF Load_validates [OF assms]]
  have i: "cf_InstanceID cfg \<noteq> ''''"
    using assms by (auto simp: Load_def read_config_def env_var_nonempty hostname_nonempty)
  have m: "sint (scast (cf_SQSMaxMessages cfg) :: int64) = sint (cf_SQSMaxMessages cfg)"
    using v(1) by (intro scast_small) auto
  have m1: "1 \<le> sint (scast (cf_SQSMaxMessages cfg) :: int64)" using m v(1) by simp
  note c = consumer_effective [OF v(2) m1, of lb]
  note o = publisher_effective [OF v(3,4) i, of lb]
  have s: "PendingReferenceMaxAttempts (sv_cfg (new_service lb cfg)) = cf_PendingMaxAttempts cfg"
    using v(5) by (simp add: new_service_def NewService_def service_config_def Let_def)
  have p: "pl_MaxConns (pool_config cfg) = Some (cf_DBMaxConns cfg)"
    using v(6) by (simp add: pool_config_def NewPool_config_def)
  show ?thesis
    unfolding c o s p by (simp add: m consumer_config_def outbox_config_def crashPoint_def)
qed


subsection \<open>Starting\<close>

lemma QueueURL_known: "wd_urls w n = Some u \<Longrightarrow> QueueURL bk n w = (Inr u, w)"
  by (simp add: QueueURL_def)

lemma QueueURL_works:
  assumes "\<forall>log n. \<exists>u. bk_url bk log n = Inr u"
  shows "\<exists>u w'. QueueURL bk n w = (Inr u, w') \<and> wd_db w' = wd_db w \<and> wd_urls w' n = Some u \<and>
    wd_urls w \<subseteq>\<^sub>m wd_urls w'"
proof (cases "wd_urls w n")
  case None
  obtain u where "bk_url bk (wd_log w) n = Inr u" using assms by blast
  then show ?thesis
    using None by (auto simp: QueueURL_def call_url_def obind_apply Let_def map_le_def)
next
  case (Some u)
  then show ?thesis by (auto simp: QueueURL_known)
qed

lemma Resolve_works:
  assumes "\<forall>log n. \<exists>u. bk_url bk log n = Inr u"
  shows "\<exists>w'. Resolve bk ns w = (Inr (), w') \<and> wd_db w' = wd_db w \<and> set ns \<subseteq> dom (wd_urls w') \<and>
    wd_urls w \<subseteq>\<^sub>m wd_urls w'"
proof (induction ns arbitrary: w)
  case (Cons n ns)
  obtain u w1 where q: "QueueURL bk n w = (Inr u, w1)" "wd_db w1 = wd_db w" "wd_urls w1 n = Some u"
    "wd_urls w \<subseteq>\<^sub>m wd_urls w1"
    using QueueURL_works [OF assms, of n w] by blast
  obtain w2 where r: "Resolve bk ns w1 = (Inr (), w2)" "wd_db w2 = wd_db w1" "set ns \<subseteq> dom (wd_urls w2)"
    "wd_urls w1 \<subseteq>\<^sub>m wd_urls w2"
    using Cons.IH [of w1] by blast
  have "n \<in> dom (wd_urls w2)" using q(3) r(4) by (metis domI map_le_def)
  then show ?case
    using q r by (auto simp: obind_apply intro: map_le_trans)
qed simp

text \<open>The graph of a configuration that loads is built, and every queue has its address.\<close>

lemma Options_built:
  assumes "Load os = (cfg, [])" and "lb_pool lb (pool_config cfg) = None"
    and "migrate (lb_migrate lb) cfg = None" and "\<forall>log n. \<exists>u. bk_url (lb_broker lb) log n = Inr u"
    and "lb_client lb (aws_options lb cfg) = None"
  obtains app w' where "Options lb cfg w = (Inr app, w')" and "wd_db w' = wd_db w"
    and "ap_consumer app = new_consumer lb cfg" and "ap_publisher app = new_publisher lb cfg"
    and "\<exists>c. Start (new_consumer lb cfg) w' = (Inr c, w')"
    and "wd_log (snd (publisher_url bk (op_queue (new_publisher lb cfg)) w')) = wd_log w'"
proof -
  have "new_verifier lb cfg =
      Some \<lparr>vf_cfg = auth_config cfg, vf_verify = lb_verifier lb (auth_config cfg)\<rparr>"
    using Validate_ok(7-9) [OF Load_validates [OF assms(1)]]
    by (simp add: new_verifier_def NewVerifier_def auth_config_def)
  moreover obtain w' where r: "new_client lb cfg w = (Inr (), w')" "wd_db w' = wd_db w"
    and d: "{cf_SQSWagerQueue cfg, cf_SQSWagerDLQ cfg, cf_SQSEventsQueue cfg} \<subseteq> dom (wd_urls w')"
    using Resolve_works [OF assms(4), of "[cf_SQSWagerQueue cfg, cf_SQSWagerDLQ cfg, cf_SQSEventsQueue cfg]" w]
    unfolding new_client_def by (auto simp: assms(5))
  ultimately have o: "\<exists>app. Options lb cfg w = (Inr app, w') \<and>
      ap_consumer app = new_consumer lb cfg \<and> ap_publisher app = new_publisher lb cfg"
    using assms(2,3) by (simp add: Options_def obind_apply)
  obtain a b e where u: "wd_urls w' (cf_SQSWagerQueue cfg) = Some a" "wd_urls w' (cf_SQSWagerDLQ cfg) = Some b"
    "wd_urls w' (cf_SQSEventsQueue cfg) = Some e" using d by auto
  have c: "cn_broker (new_consumer lb cfg) = lb_broker lb" "QueueName (cn_cfg (new_consumer lb cfg)) = cf_SQSWagerQueue cfg"
    "DLQName (cn_cfg (new_consumer lb cfg)) = cf_SQSWagerDLQ cfg" "op_queue (new_publisher lb cfg) = cf_SQSEventsQueue cfg"
    by (simp_all add: new_consumer_def NewConsumer_def consumer_config_def new_publisher_def Let_def)
  have "\<exists>c. Start (new_consumer lb cfg) w' = (Inr c, w')"
    using u by (simp add: Start_def c obind_apply QueueURL_known)
  moreover have "wd_log (snd (publisher_url bk (op_queue (new_publisher lb cfg)) w')) = wd_log w'"
    using u by (simp add: publisher_url_def c obind_apply QueueURL_known)
  ultimately show ?thesis using o r(2) that by blast
qed

text \<open>The order of the stop hooks is the opposite of \<^const>\<open>hooks\<close>: the pool closes last, after the
  server and every worker.\<close>

lemma pool_closes_last: "last (rev (hooks cfg)) = ClosePool \<and> distinct (hooks cfg)"
  by (simp add: hooks_def consumer_hooks_def worker_hooks_def)

text \<open>The key set only fetches keys for a token that parses: the token "invalid" fails before that, so
  the readiness of the verifier says nothing about the identity provider.\<close>

lemma Verifier_Ready_malformed: "Verifier_Ready (Some (''oidc: malformed jwt: '' @ t)) = None \<longleftrightarrow>
    \<not> contains (''oidc: malformed jwt: '' @ t) ''fetching keys''"
  by (simp add: Verifier_Ready_def)


subsection \<open>The defaults, started\<close>

definition demo_libraries :: "db Libraries" where
  "demo_libraries =
    \<lparr>lb_store = pgStore, lb_pool = (\<lambda>_. None),
     lb_migrate = (\<lambda>_. Inr \<lparr>mg_Up = Some ErrNoChange, mg_Down = None, mg_Steps = (\<lambda>_. None), mg_Version = Inr (1, False)\<rparr>),
     lb_migrate_error = (\<lambda>_. ErrCanceled), lb_getenv = (\<lambda>_. ''''), lb_client = (\<lambda>_. None), lb_broker = demo_broker, lb_verifier = (\<lambda>_ _. None),
     lb_verifier_error = ErrInvalidToken, lb_uuid_string = (\<lambda>_. ''u''), lb_sha256_hex = (\<lambda>s. s),
     lb_parseUUID = (\<lambda>_. None), lb_jsonOpen = (\<lambda>_. None), lb_jsonTransaction = (\<lambda>_. None),
     lb_jsonEnvelope = (\<lambda>_. None), lb_error_text = (\<lambda>_. ''error''), lb_NewString = ''new''\<rparr>"

lemma demo_loads: "Load no_os = (read_config no_os, [])"
  using defaults_valid [of no_os] by (simp add: Load_def no_os_def)

theorem configured_exactly_witness:
  "sint (MaxMessages (cn_cfg (new_consumer demo_libraries (read_config no_os)))) = 10 \<and>
   ob_PublisherID (op_cfg (new_publisher demo_libraries (read_config no_os))) = ''host''"
proof -
  have "sint (cf_SQSMaxMessages (read_config no_os)) = 10" "cf_InstanceID (read_config no_os) = ''host''"
    by (simp_all add: read_config_def no_os_def integer_def env_var_def hostname_def)
  then show ?thesis using configured_exactly [OF demo_loads, of demo_libraries] by simp
qed

end
