(* ===== verification/Shutdown.thy ===== *)
theory Shutdown
  imports Startup Lifecycle
begin

text \<open>
  The life of the process of \<^verbatim>\<open>internal/fxapp/app.go\<close>: the hooks of its parts, started in order and
  stopped in the opposite order, while the parts run. The container is a library: it starts the next
  hook when the one before has started, stops what has started when one fails or a signal arrives,
  and goes on to the next stop hook whatever the one before returned. Of the HTTP server, another
  library, what counts is that it accepts requests until \<^verbatim>\<open>Shutdown\<close>, which returns without error
  only when none is in flight.
\<close>

record Running =
  rn_hooks :: "Hook list"
  rn_started :: "Hook list"
  rn_waiting :: bool
  rn_stopping :: bool
  rn_start_error :: "error option"
  rn_stop_errors :: "error list"
  rn_pool_open :: bool
  rn_serving :: bool
  rn_requests :: nat
  rn_consumer :: "pool option"
  rn_outbox :: loop
  rn_pending :: loop

text \<open>\<^verbatim>\<open>rn_started\<close> has the latest hook first: it is the order in which they are stopped. While
  \<^verbatim>\<open>rn_waiting\<close> holds, the stop of the first of them has been called and has not returned.\<close>

definition built :: "AppConfig \<Rightarrow> Running" where
  "built cfg =
    \<lparr>rn_hooks = hooks cfg, rn_started = [], rn_waiting = False, rn_stopping = False,
     rn_start_error = None, rn_stop_errors = [], rn_pool_open = True, rn_serving = False,
     rn_requests = 0, rn_consumer = None, rn_outbox = new_loop, rn_pending = new_loop\<rparr>"

text \<open>The hooks of the HTTP server: the first argument is what \<^verbatim>\<open>net.Listen\<close> returns. A stop is
  what it does when it is called, and when it returns what; \<^verbatim>\<open>ctx\<close> is the error of its context,
  the time-out of the part or that of the container.\<close>

definition http_on_start :: "error option \<Rightarrow> Running \<Rightarrow> error option \<times> Running" where
  "http_on_start listen s =
    (case listen of Some e \<Rightarrow> (Some e, s) | None \<Rightarrow> (None, s\<lparr>rn_serving := True\<rparr>))"

definition http_on_stop :: "Running \<Rightarrow> Running" where
  "http_on_stop s = s\<lparr>rn_serving := False\<rparr>"

definition http_stop_returns :: "Running \<Rightarrow> error option \<Rightarrow> error option \<Rightarrow> bool" where
  "http_stop_returns s ctx r \<longleftrightarrow> (rn_requests s = 0 \<and> r = None) \<or> (ctx \<noteq> None \<and> r = ctx)"

text \<open>\<^verbatim>\<open>Start\<close> and \<^verbatim>\<open>Stop\<close> of the two workers, and of the consumer, whose start fails when a
  queue has no address.\<close>

definition publisher_start :: "Running \<Rightarrow> Running" where
  "publisher_start s = s\<lparr>rn_outbox := loop_start (rn_outbox s)\<rparr>"

definition publisher_stop :: "Running \<Rightarrow> Running" where
  "publisher_stop s = s\<lparr>rn_outbox := loop_cancel (rn_outbox s)\<rparr>"

definition pending_start :: "Running \<Rightarrow> Running" where
  "pending_start s = s\<lparr>rn_pending := loop_start (rn_pending s)\<rparr>"

definition pending_stop :: "Running \<Rightarrow> Running" where
  "pending_stop s = s\<lparr>rn_pending := loop_cancel (rn_pending s)\<rparr>"

definition consumer_start :: "AppConfig \<Rightarrow> error option \<Rightarrow> Running \<Rightarrow> error option \<times> Running" where
  "consumer_start cfg urls s =
    (case urls of
       Some e \<Rightarrow> (Some e, s)
     | None \<Rightarrow> (None, s\<lparr>rn_consumer := Some (pool_start (consumer_config cfg))\<rparr>))"

definition consumer_stop :: "Running \<Rightarrow> Running" where
  "consumer_stop s = s\<lparr>rn_consumer := map_option pool_cancel (rn_consumer s)\<rparr>"

lemmas hook_defs [simp] = http_on_start_def http_on_stop_def http_stop_returns_def publisher_start_def
  publisher_stop_def pending_start_def pending_stop_def consumer_start_def consumer_stop_def

definition on_start :: "AppConfig \<Rightarrow> error option \<Rightarrow> Hook \<Rightarrow> Running \<Rightarrow> error option \<times> Running" where
  "on_start cfg res h s =
    (case h of
       ClosePool \<Rightarrow> (None, s)
     | ConsumerHook \<Rightarrow> consumer_start cfg res s
     | HTTPServerHook \<Rightarrow> http_on_start res s
     | OutboxHook \<Rightarrow> (None, publisher_start s)
     | PendingHook \<Rightarrow> (None, pending_start s))"

definition on_stop :: "Hook \<Rightarrow> Running \<Rightarrow> Running" where
  "on_stop h s =
    (case h of
       ClosePool \<Rightarrow> s\<lparr>rn_pool_open := False\<rparr>
     | ConsumerHook \<Rightarrow> consumer_stop s
     | HTTPServerHook \<Rightarrow> http_on_stop s
     | OutboxHook \<Rightarrow> publisher_stop s
     | PendingHook \<Rightarrow> pending_stop s)"

definition stop_hook_returns :: "Hook \<Rightarrow> Running \<Rightarrow> error option \<Rightarrow> error option \<Rightarrow> bool" where
  "stop_hook_returns h s ctx r \<longleftrightarrow>
    (case h of
       ClosePool \<Rightarrow> r = None
     | ConsumerHook \<Rightarrow>
         (case rn_consumer s of None \<Rightarrow> r = None | Some p \<Rightarrow> pool_stop_returns p ctx r)
     | HTTPServerHook \<Rightarrow> http_stop_returns s ctx r
     | OutboxHook \<Rightarrow> stop_returns (rn_outbox s) ctx r
     | PendingHook \<Rightarrow> stop_returns (rn_pending s) ctx r)"

inductive app_step :: "AppConfig \<Rightarrow> Running \<Rightarrow> Running \<Rightarrow> bool" for cfg where
  starts: "\<not> rn_stopping s \<Longrightarrow> rn_hooks s = h # hs \<Longrightarrow> on_start cfg res h s = (None, s') \<Longrightarrow>
    app_step cfg s (s'\<lparr>rn_hooks := hs, rn_started := h # rn_started s\<rparr>)"
| fails: "\<not> rn_stopping s \<Longrightarrow> rn_hooks s = h # hs \<Longrightarrow> on_start cfg res h s = (Some e, s') \<Longrightarrow>
    app_step cfg s (s'\<lparr>rn_hooks := [], rn_stopping := True, rn_start_error := Some e\<rparr>)"
| signalled: "\<not> rn_stopping s \<Longrightarrow> rn_hooks s = [] \<Longrightarrow> app_step cfg s (s\<lparr>rn_stopping := True\<rparr>)"
| stops: "rn_stopping s \<Longrightarrow> \<not> rn_waiting s \<Longrightarrow> rn_started s = h # hs \<Longrightarrow>
    app_step cfg s ((on_stop h s)\<lparr>rn_waiting := True\<rparr>)"
| stopped: "rn_waiting s \<Longrightarrow> rn_started s = h # hs \<Longrightarrow> stop_hook_returns h s ctx r \<Longrightarrow>
    app_step cfg s (s\<lparr>rn_waiting := False, rn_started := hs,
      rn_stop_errors := rn_stop_errors s @ (case r of None \<Rightarrow> [] | Some e \<Rightarrow> [e])\<rparr>)"
| consumer_runs: "rn_consumer s = Some p \<Longrightarrow> pool_step p p' \<Longrightarrow> cp_cancelled p' = cp_cancelled p \<Longrightarrow>
    app_step cfg s (s\<lparr>rn_consumer := Some p'\<rparr>)"
| outbox_runs: "loop_step interval (rn_outbox s) l \<Longrightarrow> lo_cancelled l = lo_cancelled (rn_outbox s) \<Longrightarrow>
    app_step cfg s (s\<lparr>rn_outbox := l\<rparr>)"
| pending_runs: "loop_step interval (rn_pending s) l \<Longrightarrow> lo_cancelled l = lo_cancelled (rn_pending s) \<Longrightarrow>
    app_step cfg s (s\<lparr>rn_pending := l\<rparr>)"
| request_begins: "rn_serving s \<Longrightarrow> app_step cfg s (s\<lparr>rn_requests := Suc (rn_requests s)\<rparr>)"
| request_ends: "rn_requests s = Suc n \<Longrightarrow> app_step cfg s (s\<lparr>rn_requests := n\<rparr>)"

subsection \<open>What a part that is not running does\<close>

definition quiet :: "Hook \<Rightarrow> Running \<Rightarrow> bool" where
  "quiet h s \<longleftrightarrow>
    (case h of
       ClosePool \<Rightarrow> True
     | ConsumerHook \<Rightarrow> (case rn_consumer s of None \<Rightarrow> True | Some p \<Rightarrow> all_exited p)
     | HTTPServerHook \<Rightarrow> \<not> rn_serving s \<and> rn_requests s = 0
     | OutboxHook \<Rightarrow> lo_pc (rn_outbox s) = Returned
     | PendingHook \<Rightarrow> lo_pc (rn_pending s) = Returned)"

lemma Returned_step: "loop_step interval l l' \<Longrightarrow> lo_pc l = Returned \<Longrightarrow> lo_pc l' = Returned"
  by (auto elim!: loop_stepE simp: loop_cancel_def)

lemma all_exited_cancel: "all_exited (pool_cancel p) = all_exited p"
  by (simp add: all_exited_def pool_cancel_def)

text \<open>The parts that have not been started, or have been stopped without error, are quiet, the order
  of the hooks is kept, and the pool is open until only its own hook is left.\<close>

definition order_ok :: "AppConfig \<Rightarrow> Running \<Rightarrow> bool" where
  "order_ok cfg s \<longleftrightarrow>
    prefix (rev (rn_started s)) (hooks cfg) \<and>
    (if rn_stopping s then rn_hooks s = [] \<and> (rn_waiting s \<longrightarrow> rn_started s \<noteq> [])
     else rev (rn_started s) @ rn_hooks s = hooks cfg \<and> \<not> rn_waiting s \<and> rn_pool_open s) \<and>
    (rn_pool_open s \<or> set (rn_started s) \<subseteq> {ClosePool})"

definition parts_ok :: "Running \<Rightarrow> bool" where
  "parts_ok s \<longleftrightarrow>
    (rn_stop_errors s = [] \<longrightarrow> (\<forall>h. h \<notin> set (rn_started s) \<longrightarrow> quiet h s)) \<and>
    (rn_waiting s \<and> rn_started s \<noteq> [] \<and> hd (rn_started s) = HTTPServerHook \<longrightarrow> \<not> rn_serving s) \<and>
    (OutboxHook \<in> set (rn_started s) \<longrightarrow> lo_started (rn_outbox s)) \<and>
    (PendingHook \<in> set (rn_started s) \<longrightarrow> lo_started (rn_pending s)) \<and>
    (case rn_consumer s of None \<Rightarrow> True | Some p \<Rightarrow> pool_ok p)"

lemma hooks_order: "distinct (hooks cfg)" "\<exists>hs. hooks cfg = ClosePool # hs"
  by (simp_all add: hooks_def consumer_hooks_def worker_hooks_def)

lemma on_start_fields:
  assumes "on_start cfg res h s = (r, s')"
  shows "rn_hooks s' = rn_hooks s" "rn_started s' = rn_started s" "rn_stopping s' = rn_stopping s"
    "rn_waiting s' = rn_waiting s" "rn_pool_open s' = rn_pool_open s" "rn_stop_errors s' = rn_stop_errors s"
    "rn_requests s' = rn_requests s"
  using assms by (auto simp: on_start_def split: Hook.splits option.splits)

lemma on_stop_fields:
  "rn_hooks (on_stop h s) = rn_hooks s" "rn_started (on_stop h s) = rn_started s"
  "rn_stopping (on_stop h s) = rn_stopping s" "rn_waiting (on_stop h s) = rn_waiting s"
  "rn_stop_errors (on_stop h s) = rn_stop_errors s" "rn_requests (on_stop h s) = rn_requests s"
  "rn_pool_open (on_stop h s) = (rn_pool_open s \<and> h \<noteq> ClosePool)"
  by (simp_all add: on_stop_def split: Hook.splits)

text \<open>The last hook to stop is that of the pool.\<close>

lemma pool_alone:
  assumes "prefix (rev (ClosePool # hs)) (hooks cfg)"
  shows "hs = []"
proof -
  obtain rest where r: "hooks cfg = ClosePool # rest" using hooks_order(2) by blast
  obtain zs where z: "hooks cfg = rev hs @ ClosePool # zs" using assms by (auto simp: prefix_def)
  show ?thesis
  proof (cases "rev hs")
    case (Cons x xs)
    then have "x = ClosePool" using r z by simp
    then show ?thesis using z Cons hooks_order(1) [of cfg] by simp
  qed simp
qed

lemma order_ok_step:
  assumes "app_step cfg s s'" and "order_ok cfg s"
  shows "order_ok cfg s'"
  using assms(1)
proof cases
  case (starts h hs res t)
  note f = on_start_fields [OF starts(4)]
  have "rev (h # rn_started s) @ hs = hooks cfg" using assms(2) starts(2,3) by (simp add: order_ok_def)
  then show ?thesis
    using assms(2) starts(2) unfolding starts(1) order_ok_def by (auto simp: f prefix_def)
next
  case (fails h hs res e t)
  then show ?thesis using assms(2) on_start_fields [OF fails(4)] by (auto simp: order_ok_def)
next
  case (stops h hs)
  have "hs = []" if "h = ClosePool" using assms(2) stops(4) that pool_alone by (auto simp: order_ok_def)
  then show ?thesis using assms(2) stops by (auto simp: order_ok_def on_stop_fields)
next
  case (stopped h hs ctx r)
  then show ?thesis using assms(2) by (auto simp: order_ok_def prefix_def split: if_splits)
qed (use assms(2) in \<open>auto simp: order_ok_def\<close>)

lemma stop_returned:
  assumes "stop_hook_returns h s ctx None" and "h = HTTPServerHook \<Longrightarrow> \<not> rn_serving s"
    and "h = OutboxHook \<Longrightarrow> lo_started (rn_outbox s)" and "h = PendingHook \<Longrightarrow> lo_started (rn_pending s)"
  shows "quiet h s"
  using assms
  by (cases h) (auto simp: stop_hook_returns_def quiet_def stop_returns_def pool_stop_returns_def all_exited_def
      split: option.splits if_splits)

lemma quiet_on_start:
  "on_start cfg res h s = (r, s') \<Longrightarrow> g \<noteq> h \<Longrightarrow> quiet g s \<Longrightarrow> quiet g s'"
  "on_start cfg res h s = (Some e, s') \<Longrightarrow> s' = s"
  by (auto simp: on_start_def quiet_def split: Hook.splits option.splits)

lemma quiet_on_stop: "quiet g s \<Longrightarrow> quiet g (on_stop h s)"
  by (auto simp: on_stop_def quiet_def all_exited_cancel loop_cancel_def split: Hook.splits option.splits)

lemma pool_ok_more: "pool_ok (pool_start c)" "pool_ok (pool_cancel p) = pool_ok p"
  by (simp_all add: pool_ok_def pool_start_def pool_cancel_def)

lemma started_step: "loop_step interval l l' \<Longrightarrow> lo_started l \<Longrightarrow> lo_started l'"
  by (auto elim!: loop_stepE simp: loop_cancel_def)

lemma loop_cancel_started: "lo_started (loop_cancel l) = lo_started l"
  by (simp add: loop_cancel_def)

lemma parts_ok_step:
  assumes "app_step cfg s s'" and "order_ok cfg s" and "parts_ok s"
  shows "parts_ok s'"
  using assms(1)
proof cases
  case (starts h hs res t)
  note f = on_start_fields [OF starts(4)]
  have p: "OutboxHook \<in> set (rn_started s) \<longrightarrow> lo_started (rn_outbox s)"
    "PendingHook \<in> set (rn_started s) \<longrightarrow> lo_started (rn_pending s)"
    "case rn_consumer s of None \<Rightarrow> True | Some p \<Rightarrow> pool_ok p"
    using assms(3) by (simp_all add: parts_ok_def)
  have w: "\<not> rn_waiting s" using assms(2) starts(2) by (simp add: order_ok_def)
  have "quiet g t" if "rn_stop_errors s = []" "g \<noteq> h" "g \<notin> set (rn_started s)" for g
    using assms(3) that quiet_on_start(1) [OF starts(4)] by (auto simp: parts_ok_def)
  moreover have "quiet g (t\<lparr>rn_hooks := hs, rn_started := h # rn_started s\<rparr>) = quiet g t" for g
    by (simp add: quiet_def split: Hook.splits)
  moreover have "(OutboxHook \<in> set (h # rn_started s) \<longrightarrow> lo_started (rn_outbox t)) \<and>
      (PendingHook \<in> set (h # rn_started s) \<longrightarrow> lo_started (rn_pending t)) \<and>
      (case rn_consumer t of None \<Rightarrow> True | Some p \<Rightarrow> pool_ok p)"
    using p starts(4)
    by (cases h; cases res) (auto simp: on_start_def loop_start_def pool_ok_more)
  ultimately show ?thesis unfolding starts(1) parts_ok_def using w by (simp add: f)
next
  case (fails h hs res e t)
  have "quiet g (s\<lparr>rn_hooks := [], rn_stopping := True, rn_start_error := Some e\<rparr>) = quiet g s" for g
    by (simp add: quiet_def split: Hook.splits)
  then show ?thesis
    unfolding fails(1) quiet_on_start(2) [OF fails(4)] using assms(3) by (simp add: parts_ok_def)
next
  case signalled
  have "quiet g (s\<lparr>rn_stopping := True\<rparr>) = quiet g s" for g by (simp add: quiet_def split: Hook.splits)
  then show ?thesis unfolding signalled(1) using assms(3) by (simp add: parts_ok_def)
next
  case (stops h hs)
  have "quiet g ((on_stop h s)\<lparr>rn_waiting := True\<rparr>) = quiet g (on_stop h s)" for g
    by (simp add: quiet_def split: Hook.splits)
  moreover have "rn_serving (on_stop h s) = (rn_serving s \<and> h \<noteq> HTTPServerHook)"
    "lo_started (rn_outbox (on_stop h s)) = lo_started (rn_outbox s)"
    "lo_started (rn_pending (on_stop h s)) = lo_started (rn_pending s)"
    "(case rn_consumer (on_stop h s) of None \<Rightarrow> True | Some p \<Rightarrow> pool_ok p) =
     (case rn_consumer s of None \<Rightarrow> True | Some p \<Rightarrow> pool_ok p)"
    by (auto simp: on_stop_def loop_cancel_started pool_ok_more split: Hook.splits option.splits)
  ultimately show ?thesis
    unfolding stops(1) parts_ok_def
    using assms(3) stops(4) quiet_on_stop by (auto simp: parts_ok_def on_stop_fields)
next
  case (stopped h hs ctx r)
  let ?s = "s\<lparr>rn_waiting := False, rn_started := hs,
      rn_stop_errors := rn_stop_errors s @ (case r of None \<Rightarrow> [] | Some e \<Rightarrow> [e])\<rparr>"
  have q: "quiet g ?s = quiet g s" for g by (simp add: quiet_def split: Hook.splits)
  have "quiet h s" if "r = None"
    by (rule stop_returned [OF stopped(4) [unfolded that]]) (use assms(3) stopped(2,3) in \<open>auto simp: parts_ok_def\<close>)
  then show ?thesis
    unfolding stopped(1) parts_ok_def q using assms(3) stopped(3)
    by (auto simp: parts_ok_def split: option.splits)
next
  case (consumer_runs p p')
  have "quiet g (s\<lparr>rn_consumer := Some p'\<rparr>)" if "quiet g s" for g
    using that exited_step [OF consumer_runs(3)] consumer_runs(2) by (auto simp: quiet_def split: Hook.splits)
  then show ?thesis
    unfolding consumer_runs(1) using assms(3) consumer_runs(2) pool_ok_step [OF consumer_runs(3)]
    by (auto simp: parts_ok_def)
next
  case (outbox_runs interval l)
  have "quiet g (s\<lparr>rn_outbox := l\<rparr>)" if "quiet g s" for g
    using that Returned_step [OF outbox_runs(2)] by (auto simp: quiet_def split: Hook.splits)
  then show ?thesis
    unfolding outbox_runs(1) using assms(3) started_step [OF outbox_runs(2)] by (auto simp: parts_ok_def)
next
  case (pending_runs interval l)
  have "quiet g (s\<lparr>rn_pending := l\<rparr>)" if "quiet g s" for g
    using that Returned_step [OF pending_runs(2)] by (auto simp: quiet_def split: Hook.splits)
  then show ?thesis
    unfolding pending_runs(1) using assms(3) started_step [OF pending_runs(2)] by (auto simp: parts_ok_def)
next
  case request_begins
  have "quiet g (s\<lparr>rn_requests := Suc (rn_requests s)\<rparr>)" if "quiet g s" for g
    using that request_begins(2) by (auto simp: quiet_def split: Hook.splits)
  then show ?thesis unfolding request_begins(1) using assms(3) by (auto simp: parts_ok_def)
next
  case (request_ends n)
  have "quiet g (s\<lparr>rn_requests := n\<rparr>)" if "quiet g s" for g
    using that request_ends(2) by (auto simp: quiet_def split: Hook.splits)
  then show ?thesis unfolding request_ends(1) using assms(3) by (auto simp: parts_ok_def)
qed

lemma life_steps:
  "(app_step cfg)\<^sup>*\<^sup>* (built cfg) s \<Longrightarrow> order_ok cfg s \<and> parts_ok s"
proof (induction rule: rtranclp_induct)
  case base
  then show ?case by (auto simp: built_def order_ok_def parts_ok_def quiet_def new_loop_def split: Hook.splits)
next
  case (step s s')
  then show ?case using order_ok_step parts_ok_step by blast
qed

text \<open>C29. A clean shutdown. Whatever the parts do and whenever a signal or a failed start stops the
  process, the pool of connections is closed only after every other part has been told to stop; and
  when no stop hook has returned an error, at that moment no request is in flight, every worker of
  the consumer has left and all its messages are handled, and neither worker loop runs, so that no
  part can use the pool any more.\<close>

theorem shutdown_is_clean:
  assumes "(app_step cfg)\<^sup>*\<^sup>* (built cfg) s" and "\<not> rn_pool_open s"
  shows "rn_stopping s \<and> set (rn_started s) \<subseteq> {ClosePool} \<and>
    (rn_stop_errors s = [] \<longrightarrow>
      \<not> rn_serving s \<and> rn_requests s = 0 \<and>
      (\<forall>p. rn_consumer s = Some p \<longrightarrow> all_exited p \<and> mset (cp_handled p) = mset (cp_received p)) \<and>
      lo_pc (rn_outbox s) = Returned \<and> lo_pc (rn_pending s) = Returned)"
proof -
  note o = conjunct1 [OF life_steps [OF assms(1)]] and p = conjunct2 [OF life_steps [OF assms(1)]]
  have st: "rn_stopping s" "set (rn_started s) \<subseteq> {ClosePool}"
    using o assms(2) by (auto simp: order_ok_def split: if_splits)
  have q: "quiet h s" if "rn_stop_errors s = []" "h \<noteq> ClosePool" for h
    using p st(2) that by (auto simp: parts_ok_def)
  have "mset (cp_handled c) = mset (cp_received c)" if "rn_consumer s = Some c" "all_exited c" for c
  proof -
    have "concat (map in_flight (cp_workers c)) = []" using that(2) by (auto simp: all_exited_def list_all_iff)
    then show ?thesis using p that(1) by (simp add: parts_ok_def pool_ok_def)
  qed
  then show ?thesis
    using st q [of HTTPServerHook] q [of ConsumerHook] q [of OutboxHook] q [of PendingHook]
    by (auto simp: quiet_def)
qed

subsection \<open>A run of the process\<close>

definition demo_life :: "Hook list \<Rightarrow> Hook list \<Rightarrow> bool \<Rightarrow> bool \<Rightarrow> bool \<Rightarrow> pool option \<Rightarrow> Running" where
  "demo_life todo started waiting stopping serving c =
    \<lparr>rn_hooks = todo, rn_started = started, rn_waiting = waiting, rn_stopping = stopping,
     rn_start_error = None, rn_stop_errors = [], rn_pool_open = True, rn_serving = serving,
     rn_requests = 0, rn_consumer = c, rn_outbox = new_loop, rn_pending = new_loop\<rparr>"

definition demo_config :: AppConfig where
  "demo_config = (read_config no_os)\<lparr>cf_SQSConsumerEnabled := True, cf_SQSConsumerWorkers := 1,
     cf_OutboxEnabled := False, cf_PendingWorkerEnabled := False\<rparr>"

lemma demo_hooks: "hooks demo_config = [ClosePool, ConsumerHook, HTTPServerHook]"
  by (simp add: hooks_def consumer_hooks_def worker_hooks_def demo_config_def)

lemma demo_pool: "pool_start (consumer_config demo_config) = one_worker False Checking [] []"
  by (simp add: pool_start_def one_worker_def consumer_config_def demo_config_def)

lemma demo_consumer_step:
  assumes "pool_step p p'" and "cp_cancelled p' = cp_cancelled p"
  shows "app_step cfg (demo_life todo started waiting stopping serving (Some p))
    (demo_life todo started waiting stopping serving (Some p'))"
  using app_step.consumer_runs [of "demo_life todo started waiting stopping serving (Some p)" p p'] assms
  by (simp add: demo_life_def)

lemma demo_starts:
  "(app_step demo_config)\<^sup>*\<^sup>* (built demo_config)
     (demo_life [] [HTTPServerHook, ConsumerHook, ClosePool] False False True (Some (one_worker False Checking [] [])))"
proof -
  let ?s0 = "demo_life [ClosePool, ConsumerHook, HTTPServerHook] [] False False False None"
  let ?s1 = "demo_life [ConsumerHook, HTTPServerHook] [ClosePool] False False False None"
  let ?s2 = "demo_life [HTTPServerHook] [ConsumerHook, ClosePool] False False False (Some (one_worker False Checking [] []))"
  have "built demo_config = ?s0" by (simp add: built_def demo_life_def demo_hooks)
  moreover have "app_step demo_config ?s0 ?s1"
    using app_step.starts [of ?s0 ClosePool _ demo_config None ?s0] by (simp add: demo_life_def on_start_def)
  moreover have "app_step demo_config ?s1 ?s2"
    using app_step.starts [of ?s1 ConsumerHook _ demo_config None
        "?s1\<lparr>rn_consumer := Some (one_worker False Checking [] [])\<rparr>"] by (simp add: demo_life_def on_start_def demo_pool)
  moreover have "app_step demo_config ?s2
      (demo_life [] [HTTPServerHook, ConsumerHook, ClosePool] False False True (Some (one_worker False Checking [] [])))"
    using app_step.starts [of ?s2 HTTPServerHook _ demo_config None "?s2\<lparr>rn_serving := True\<rparr>"] by (simp add: demo_life_def on_start_def)
  ultimately show ?thesis by (metis rtranclp.rtrancl_refl rtranclp.rtrancl_into_rtrancl)
qed

lemma demo_worker:
  "pool_step (one_worker False Checking [] []) (one_worker False Receiving [] [])"
  "pool_step (one_worker False Receiving [] []) (one_worker False (Handling [m]) [m] [])"
  "pool_step (one_worker True (Handling [m]) [m] []) (one_worker True (Handling []) [m] [m])"
  "pool_step (one_worker True (Handling []) [m] [m]) (one_worker True Checking [m] [m])"
  "pool_step (one_worker True Checking [m] [m]) (one_worker True Exited [m] [m])"
  using pool_step.polls [OF at_one, of False "[]" "[]"] pool_step.receives [OF at_one, of False "[]" "[]" "[m]"]
    pool_step.handles [OF at_one, of True m "[]" "[m]" "[]"] pool_step.empties [OF at_one, of True "[m]" "[m]"]
    pool_step.leaves [OF at_one, of True "[m]" "[m]"]
  by (simp_all add: goes_def one_worker_def)

lemma demo_stops:
  "(app_step demo_config)\<^sup>*\<^sup>*
     (demo_life [] [HTTPServerHook, ConsumerHook, ClosePool] False False True (Some (one_worker False Checking [] [])))
     (demo_life [] [ConsumerHook, ClosePool] True True False (Some (one_worker True (Handling [m]) [m] [])))"
proof -
  let ?h = "one_worker False (Handling [m]) [m] []"
  let ?s = "\<lambda>w. demo_life [] [HTTPServerHook, ConsumerHook, ClosePool] False False True (Some w)"
  let ?a = "demo_life [] [HTTPServerHook, ConsumerHook, ClosePool] False True True (Some ?h)"
  let ?b = "demo_life [] [HTTPServerHook, ConsumerHook, ClosePool] True True False (Some ?h)"
  let ?c = "demo_life [] [ConsumerHook, ClosePool] False True False (Some ?h)"
  have "app_step demo_config (?s (one_worker False Checking [] [])) (?s (one_worker False Receiving [] []))"
    "app_step demo_config (?s (one_worker False Receiving [] [])) (?s ?h)"
    using demo_worker(1) demo_worker(2) [of m] by (auto intro!: demo_consumer_step simp: one_worker_def)
  moreover have "app_step demo_config (?s ?h) ?a"
    using app_step.signalled [of "?s ?h" demo_config] by (simp add: demo_life_def)
  moreover have "app_step demo_config ?a ?b"
    using app_step.stops [of ?a HTTPServerHook _ demo_config] by (simp add: demo_life_def on_stop_def)
  moreover have "app_step demo_config ?b ?c"
    using app_step.stopped [of ?b HTTPServerHook _ None None demo_config]
    by (simp add: demo_life_def stop_hook_returns_def)
  moreover have "app_step demo_config ?c (demo_life [] [ConsumerHook, ClosePool] True True False (Some (one_worker True (Handling [m]) [m] [])))"
    using app_step.stops [of ?c ConsumerHook _ demo_config]
    by (simp add: demo_life_def on_stop_def pool_cancel_def one_worker_def)
  ultimately show ?thesis by (meson converse_rtranclp_into_rtranclp r_into_rtranclp)
qed

lemma demo_closes:
  "(app_step demo_config)\<^sup>*\<^sup>*
     (demo_life [] [ConsumerHook, ClosePool] True True False (Some (one_worker True (Handling [m]) [m] [])))
     ((demo_life [] [ClosePool] True True False (Some (one_worker True Exited [m] [m])))\<lparr>rn_pool_open := False\<rparr>)"
proof -
  let ?s = "\<lambda>w. demo_life [] [ConsumerHook, ClosePool] True True False (Some w)"
  let ?d = "demo_life [] [ClosePool] False True False (Some (one_worker True Exited [m] [m]))"
  have "app_step demo_config (?s (one_worker True (Handling [m]) [m] [])) (?s (one_worker True (Handling []) [m] [m]))"
    "app_step demo_config (?s (one_worker True (Handling []) [m] [m])) (?s (one_worker True Checking [m] [m]))"
    "app_step demo_config (?s (one_worker True Checking [m] [m])) (?s (one_worker True Exited [m] [m]))"
    using demo_worker(3-5) [of m] by (auto intro!: demo_consumer_step simp: one_worker_def)
  moreover have "app_step demo_config (?s (one_worker True Exited [m] [m])) ?d"
    using app_step.stopped [of "?s (one_worker True Exited [m] [m])" ConsumerHook _ None None demo_config]
    by (simp add: demo_life_def stop_hook_returns_def pool_stop_returns_def one_worker_def)
  moreover have "app_step demo_config ?d
      ((demo_life [] [ClosePool] True True False (Some (one_worker True Exited [m] [m])))\<lparr>rn_pool_open := False\<rparr>)"
    using app_step.stops [of ?d ClosePool _ demo_config] by (simp add: demo_life_def on_stop_def)
  ultimately show ?thesis by (meson converse_rtranclp_into_rtranclp r_into_rtranclp)
qed

theorem shutdown_is_clean_witness:
  "\<exists>m s p. (app_step demo_config)\<^sup>*\<^sup>* (built demo_config) s \<and> \<not> rn_pool_open s \<and>
     rn_stop_errors s = [] \<and> rn_requests s = 0 \<and> rn_consumer s = Some p \<and> all_exited p \<and>
     cp_received p = [m] \<and> mset (cp_handled p) = {#m#}"
proof -
  fix m :: Message
  let ?p = "one_worker True Exited [m] [m]"
  let ?s = "(demo_life [] [ClosePool] True True False (Some ?p))\<lparr>rn_pool_open := False\<rparr>"
  have r: "(app_step demo_config)\<^sup>*\<^sup>* (built demo_config) ?s"
    using demo_starts demo_stops demo_closes by (meson rtranclp_trans)
  have f: "\<not> rn_pool_open ?s" "rn_stop_errors ?s = []" "rn_consumer ?s = Some ?p" "cp_received ?p = [m]"
    by (simp_all add: demo_life_def one_worker_def)
  from shutdown_is_clean [OF r f(1)] f
  have "rn_requests ?s = 0 \<and> all_exited ?p \<and> mset (cp_handled ?p) = {#m#}" by simp
  then show ?thesis using r f by blast
qed

text \<open>A stop that times out does not hold the others up: the pool may be closed while a worker still
  has a message in its hands, although the comment of \<^verbatim>\<open>newPool\<close> says that every part has stopped.
  Its unit of work fails and the message comes again.\<close>

lemma closes_under_a_worker:
  "\<exists>s p. (app_step demo_config)\<^sup>*\<^sup>* (built demo_config) s \<and> \<not> rn_pool_open s \<and>
     rn_consumer s = Some p \<and> \<not> all_exited p"
proof -
  fix m :: Message
  let ?p = "one_worker True (Handling [m]) [m] []"
  let ?s = "demo_life [] [ConsumerHook, ClosePool] True True False (Some ?p)"
  let ?t = "(demo_life [] [ClosePool] False True False (Some ?p))\<lparr>rn_stop_errors := [ErrDeadlineExceeded]\<rparr>"
  let ?u = "?t\<lparr>rn_waiting := True, rn_pool_open := False\<rparr>"
  have "app_step demo_config ?s ?t"
    using app_step.stopped [of ?s ConsumerHook _ "Some ErrDeadlineExceeded" "Some ErrDeadlineExceeded" demo_config]
    by (simp add: demo_life_def stop_hook_returns_def pool_stop_returns_def)
  moreover have "app_step demo_config ?t ?u"
    using app_step.stops [of ?t ClosePool _ demo_config] by (simp add: demo_life_def on_stop_def)
  ultimately have "(app_step demo_config)\<^sup>*\<^sup>* (built demo_config) ?u"
    using demo_starts demo_stops by (meson rtranclp_trans rtranclp.rtrancl_into_rtrancl)
  moreover have "\<not> rn_pool_open ?u" "rn_consumer ?u = Some ?p" "\<not> all_exited ?p"
    by (simp_all add: demo_life_def one_worker_def all_exited_def)
  ultimately show ?thesis by blast
qed

end
