(* ===== verification/Boot.thy ===== *)
theory Boot
  imports Shutdown
begin

text \<open>
  The start of the process, \<^verbatim>\<open>internal/fxapp/app.go\<close>: the container builds the graph and runs the
  start hooks in their order. \<^verbatim>\<open>net.Listen\<close> is a parameter, as everything outside.
\<close>

definition hook_result ::
  "'s Libraries \<Rightarrow> (string \<Rightarrow> error option) \<Rightarrow> AppConfig \<Rightarrow> Hook \<Rightarrow> 's World \<Rightarrow> error option \<times> 's World" where
  "hook_result lb listen cfg h w =
    (case h of
       ConsumerHook \<Rightarrow>
         (case Start (new_consumer lb cfg) w of (Inl e, w') \<Rightarrow> (Some e, w') | (Inr c, w') \<Rightarrow> (None, w'))
     | HTTPServerHook \<Rightarrow> (listen (cf_HTTPAddr cfg), w)
     | _ \<Rightarrow> (None, w))"

fun start_hooks ::
  "'s Libraries \<Rightarrow> (string \<Rightarrow> error option) \<Rightarrow> AppConfig \<Rightarrow> Hook list \<Rightarrow> Running \<Rightarrow> 's World
    \<Rightarrow> (error + Running) \<times> 's World" where
  "start_hooks lb listen cfg [] s w = (Inr s, w)"
| "start_hooks lb listen cfg (h # hs) s w =
    (let (res, w1) = hook_result lb listen cfg h w in
     case on_start cfg res h s of
       (Some e, s1) \<Rightarrow> (Inl e, w1)
     | (None, s1) \<Rightarrow> start_hooks lb listen cfg hs (s1\<lparr>rn_hooks := hs, rn_started := h # rn_started s\<rparr>) w1)"

definition boot ::
  "'s Libraries \<Rightarrow> (string \<Rightarrow> error option) \<Rightarrow> AppConfig \<Rightarrow> 's World \<Rightarrow> (error + 's App \<times> Running) \<times> 's World" where
  "boot lb listen cfg w =
    (case Options lb cfg w of
       (Inl e, w') \<Rightarrow> (Inl e, w')
     | (Inr app, w') \<Rightarrow>
         (case start_hooks lb listen cfg (hooks cfg) (built cfg) w' of
            (Inl e, w'') \<Rightarrow> (Inl e, w'')
          | (Inr s, w'') \<Rightarrow> (Inr (app, s), w'')))"

text \<open>A run of the start hooks is one of the runs of the process.\<close>

lemma start_hooks_steps:
  assumes "start_hooks lb listen cfg hs s w = (Inr s', w')" and "rn_hooks s = hs" and "\<not> rn_stopping s"
  shows "(app_step cfg)\<^sup>*\<^sup>* s s'"
  using assms
proof (induction hs arbitrary: s w)
  case (Cons h hs)
  obtain res w1 where r: "hook_result lb listen cfg h w = (res, w1)" by fastforce
  obtain q s1 where q: "on_start cfg res h s = (q, s1)" by fastforce
  have n: "q = None" using Cons.prems(1) r q by (cases q) auto
  let ?t = "s1\<lparr>rn_hooks := hs, rn_started := h # rn_started s\<rparr>"
  have "app_step cfg s ?t" using app_step.starts [OF Cons.prems(3,2) q [unfolded n]] .
  moreover have "(app_step cfg)\<^sup>*\<^sup>* ?t s'"
    by (rule Cons.IH [of ?t w1]) (use Cons.prems r q n on_start_fields(3) [OF q] in auto)
  ultimately show ?case by (rule converse_rtranclp_into_rtranclp)
qed simp

text \<open>The process with all its parts running.\<close>

definition all_running :: "AppConfig \<Rightarrow> Running" where
  "all_running cfg =
    \<lparr>rn_hooks = [], rn_started = rev (hooks cfg), rn_waiting = False, rn_stopping = False,
     rn_start_error = None, rn_stop_errors = [], rn_pool_open = True, rn_serving = True, rn_requests = 0,
     rn_consumer = (if cf_SQSConsumerEnabled cfg then Some (pool_start (consumer_config cfg)) else None),
     rn_outbox = (if cf_OutboxEnabled cfg then loop_start new_loop else new_loop),
     rn_pending = (if cf_PendingWorkerEnabled cfg then loop_start new_loop else new_loop)\<rparr>"

lemma hooks_started:
  assumes "Start (new_consumer lb cfg) w = (Inr c, w)"
  shows "start_hooks lb listen cfg (hooks cfg) (built cfg) w =
    (case listen (cf_HTTPAddr cfg) of Some e \<Rightarrow> Inl e | None \<Rightarrow> Inr (all_running cfg), w)"
  using assms
  by (cases "cf_SQSConsumerEnabled cfg"; cases "cf_OutboxEnabled cfg"; cases "cf_PendingWorkerEnabled cfg";
      cases "listen (cf_HTTPAddr cfg)")
    (simp_all add: hooks_def consumer_hooks_def worker_hooks_def hook_result_def on_start_def built_def all_running_def)

text \<open>C26. A loaded configuration starts. When the pool opens, the migrations run, the AWS library
  takes the options of the client and the broker knows the queues, the start of the process depends
  on the address of the HTTP server alone: if it can be listened on, every part that the
  configuration enables is running, in the order of the hooks; if not, the start fails with that
  error. Either way the database is as it was, and the publisher finds its queue without asking the
  broker again, whatever the broker answers.\<close>

theorem loaded_starts:
  assumes "Load os = (cfg, [])" and "lb_pool lb (pool_config cfg) = None"
    and "migrate (lb_migrate lb) cfg = None" and "lb_client lb (aws_options lb cfg) = None"
    and "\<forall>log n. \<exists>u. bk_url (lb_broker lb) log n = Inr u"
  shows "\<exists>app w'. boot lb listen cfg w =
      (case listen (cf_HTTPAddr cfg) of Some e \<Rightarrow> Inl e | None \<Rightarrow> Inr (app, all_running cfg), w') \<and>
    ap_consumer app = new_consumer lb cfg \<and> ap_publisher app = new_publisher lb cfg \<and>
    (app_step cfg)\<^sup>*\<^sup>* (built cfg) (all_running cfg) \<and> wd_db w' = wd_db w \<and>
    wd_log (snd (publisher_url bk (op_queue (new_publisher lb cfg)) w')) = wd_log w'"
proof -
  obtain app w' c where o: "Options lb cfg w = (Inr app, w')" "wd_db w' = wd_db w"
    "ap_consumer app = new_consumer lb cfg" "ap_publisher app = new_publisher lb cfg"
    and c: "Start (new_consumer lb cfg) w' = (Inr c, w')"
    and u: "wd_log (snd (publisher_url bk (op_queue (new_publisher lb cfg)) w')) = wd_log w'"
    using Options_built [OF assms(1-3,5,4), of w bk] by metis
  have "(app_step cfg)\<^sup>*\<^sup>* (built cfg) (all_running cfg)"
    using start_hooks_steps [of lb "\<lambda>_. None" cfg "hooks cfg" "built cfg" w' "all_running cfg" w']
      hooks_started [OF c, of "\<lambda>_. None"] by (simp add: built_def)
  then show ?thesis
    using o u hooks_started [OF c, of listen] unfolding boot_def by (auto split: option.splits)
qed

theorem loaded_starts_witness:
  "(\<exists>app w'. boot demo_libraries (\<lambda>_. None) (read_config no_os) (demo_world db0) =
     (Inr (app, all_running (read_config no_os)), w') \<and> wd_db w' = db0) \<and>
   fst (boot demo_libraries (\<lambda>_. Some ErrDriver) (read_config no_os) (demo_world db0)) = Inl ErrDriver"
proof -
  have l: "lb_pool demo_libraries (pool_config (read_config no_os)) = None"
    "migrate (lb_migrate demo_libraries) (read_config no_os) = None"
    "lb_client demo_libraries (aws_options demo_libraries (read_config no_os)) = None"
    "\<forall>log n. \<exists>u. bk_url (lb_broker demo_libraries) log n = Inr u"
    by (simp_all add: demo_libraries_def migrate_def NewMigrator_def migrated_def demo_broker_def)
  have "wd_db (demo_world db0) = db0" by (simp add: demo_world_def)
  then show ?thesis
    using loaded_starts [where w = "demo_world db0" and bk = demo_broker and listen = "\<lambda>_. None", OF demo_loads l]
      loaded_starts [where w = "demo_world db0" and bk = demo_broker and listen = "\<lambda>_. Some ErrDriver", OF demo_loads l]
    by auto
qed

end
