(* ===== verification/Logging.thy ===== *)
theory Logging
  imports GoStrings
begin

text \<open>
  \<^verbatim>\<open>internal/observability/logging.go\<close>: the level of the logger and the identifiers that a log
  line takes from its context. A context is the two values that the package stores in it, a key of
  its own private type each; a log line is its attributes in order. What writes the line as JSON is
  the standard library's handler, and so is the nesting of a group, which the service never opens.
\<close>

datatype Level = LevelDebug | LevelInfo | LevelWarn | LevelError

definition level_num :: "Level \<Rightarrow> int" where
  "level_num l = (case l of LevelDebug \<Rightarrow> -4 | LevelInfo \<Rightarrow> 0 | LevelWarn \<Rightarrow> 4 | LevelError \<Rightarrow> 8)"

definition parse_level :: "string \<Rightarrow> Level" where
  "parse_level level =
    (let l = ToLower level in
     if l = ''debug'' then LevelDebug
     else if l = ''warn'' then LevelWarn
     else if l = ''error'' then LevelError
     else LevelInfo)"

type_synonym Attr = "string \<times> string"

text \<open>A logger is its level and the attributes given by \<^verbatim>\<open>With\<close>.\<close>

record Logger =
  lg_level :: Level
  lg_with :: "Attr list"

definition NewLogger :: "string \<Rightarrow> string \<Rightarrow> Logger" where
  "NewLogger level instanceID = \<lparr>lg_level = parse_level level, lg_with = [(''instance'', instanceID)]\<rparr>"

subsection \<open>The context\<close>

record LogContext =
  lc_correlation :: "string option"
  lc_messageID :: "string option"

definition WithCorrelationID :: "LogContext \<Rightarrow> string \<Rightarrow> LogContext" where
  "WithCorrelationID ctx i = ctx\<lparr>lc_correlation := Some i\<rparr>"

definition CorrelationID :: "LogContext \<Rightarrow> string" where
  "CorrelationID ctx = (case lc_correlation ctx of None \<Rightarrow> '''' | Some v \<Rightarrow> v)"

definition WithMessageID :: "LogContext \<Rightarrow> string \<Rightarrow> LogContext" where
  "WithMessageID ctx i = ctx\<lparr>lc_messageID := Some i\<rparr>"

subsection \<open>A line\<close>

definition injected :: "string \<Rightarrow> string option \<Rightarrow> Attr list \<Rightarrow> Attr list" where
  "injected key v attrs =
    (case v of
       None \<Rightarrow> []
     | Some x \<Rightarrow> if x \<noteq> '''' \<and> key \<notin> set (map fst attrs) then [(key, x)] else [])"

text \<open>\<^verbatim>\<open>present\<close> is read before either identifier is added.\<close>

definition Handle :: "LogContext \<Rightarrow> Attr list \<Rightarrow> Attr list" where
  "Handle ctx attrs =
    attrs @ injected ''correlationId'' (lc_correlation ctx) attrs
          @ injected ''messageId'' (lc_messageID ctx) attrs"

text \<open>\<^verbatim>\<open>WithAttrs\<close> passes the attributes to the handler inside and keeps the injection.\<close>

definition WithAttrs :: "Logger \<Rightarrow> Attr list \<Rightarrow> Logger" where
  "WithAttrs lg attrs = lg\<lparr>lg_with := lg_with lg @ attrs\<rparr>"

definition log_line :: "Logger \<Rightarrow> LogContext \<Rightarrow> Level \<Rightarrow> Attr list \<Rightarrow> Attr list option" where
  "log_line lg ctx level attrs =
    (if level_num level < level_num (lg_level lg) then None else Some (lg_with lg @ Handle ctx attrs))"

lemma CorrelationID_With [simp]:
  "CorrelationID (WithCorrelationID ctx i) = i"
  "CorrelationID (WithMessageID ctx i) = CorrelationID ctx"
  by (simp_all add: CorrelationID_def WithCorrelationID_def WithMessageID_def)

lemma injected_count:
  "count_list (map fst (injected key v attrs)) key =
    (if key \<notin> set (map fst attrs) \<and> v \<noteq> None \<and> v \<noteq> Some '''' then 1 else 0)"
  by (auto simp: injected_def split: option.splits)

lemma injected_other: "k \<noteq> key \<Longrightarrow> count_list (map fst (injected key v attrs)) k = 0"
  by (auto simp: injected_def split: option.splits)

text \<open>A line written under a correlation id has it exactly once, its own if it gives one; and what
  the line gives is never changed.\<close>

lemma Handle_correlation:
  assumes "CorrelationID ctx \<noteq> ''''" and "count_list (map fst attrs) ''correlationId'' \<le> 1"
  shows "count_list (map fst (Handle ctx attrs)) ''correlationId'' = 1"
proof (cases "''correlationId'' \<in> set (map fst attrs)")
  case True
  then have "count_list (map fst attrs) ''correlationId'' \<noteq> 0" by (simp only: count_list_0_iff not_not)
  then show ?thesis
    using assms(2) True by (simp add: Handle_def injected_count injected_other)
next
  case False
  moreover have "lc_correlation ctx \<noteq> None \<and> lc_correlation ctx \<noteq> Some ''''"
    using assms(1) by (auto simp: CorrelationID_def split: option.splits)
  ultimately show ?thesis
    using False by (simp add: Handle_def injected_count injected_other count_notin)
qed

lemma log_line_instance:
  assumes "log_line (WithAttrs (NewLogger level i) with_attrs) ctx l attrs = Some out"
  shows "hd out = (''instance'', i) \<and> level_num (parse_level level) \<le> level_num l \<and> set attrs \<subseteq> set out"
  using assms by (auto simp: log_line_def WithAttrs_def NewLogger_def Handle_def split: if_splits)

lemma level_default:
  "parse_level ''DEBUG'' = LevelDebug" "parse_level ''Warn'' = LevelWarn" "parse_level ''warning'' = LevelInfo"
  by code_simp+

end
