(* ===== verification/Spec2Isabelle.thy ===== *)
theory Spec2Isabelle
  imports Integrity HttpSafety Pending Publishing Leases Paging Channels Interleaving Lifecycle Shutdown Boot
    Divergences Logging
begin

text \<open>
  The wallet and wagering service, modelled from its Go sources.

  \<^bold>\<open>The program.\<close> Game providers send bets, wins, refunds and rollbacks, over HTTP
  (\<^verbatim>\<open>internal/adapters/httpapi\<close>) or as messages of an SQS queue
  (\<^verbatim>\<open>internal/adapters/sqs/consumer.go\<close>). Both channels build the same command and run the same
  unit of work (\<^verbatim>\<open>internal/app/process.go\<close>) in one PostgreSQL transaction: look the operation up
  by its idempotency key and its external id, lock the wallet, resolve the reference, move the
  balance (\<^verbatim>\<open>internal/domain/wallet\<close>), advance the transaction
  (\<^verbatim>\<open>internal/domain/wagering\<close>), write the ledger entry and the events. An operation whose
  reference has not arrived is parked, and a worker (\<^verbatim>\<open>internal/workers/pending.go\<close>) retries it.
  The events are rows of an outbox, which a second worker (\<^verbatim>\<open>internal/workers/outbox.go\<close>) leases and
  hands to a queue. \<^verbatim>\<open>internal/fxapp\<close> and \<^verbatim>\<open>cmd\<close> wire the parts from
  \<^verbatim>\<open>internal/config\<close>.

  \<^bold>\<open>How the state corresponds.\<close> The database is the record \<^verbatim>\<open>db\<close> of Postgres, a table a list
  of rows; \<^verbatim>\<open>pg_view\<close> reads from it what the domain sees (wallets, transactions, entries, events,
  inbox). Everything else that outlives a call is in the \<^verbatim>\<open>World\<close> of Broker: the database, the
  log of calls to the broker, the client's cache of queue addresses. The Go functions that mutate a
  wallet or a transaction behind a pointer return the new one. A fallible function returns
  \<^verbatim>\<open>error + 'a\<close>; a repository method or a use case is an operation on a state, of type
  \<^verbatim>\<open>('s, 'a) op\<close>. Go's int64 and int are \<^verbatim>\<open>64 word\<close>, int32 is \<^verbatim>\<open>32 word\<close>, with their
  wrap-around; strings are byte strings.

  \<^bold>\<open>The theories.\<close>
  \<^item> Prelude: types, errors, operations. GoInt, GoStrings, GoBase64: the parts of Go's standard
    library that the program computes with, written out.
  \<^item> Money, Wallet, Wagering, Events: \<^verbatim>\<open>internal/domain\<close>. Hash: \<^verbatim>\<open>internal/app/hash.go\<close>.
    Their lemmas: arithmetic is exact or an overflow error; what each movement and each transition
    does on every branch; the invariants of the aggregates; the round trips of amounts and of
    snapshots. The locale \<^verbatim>\<open>movement\<close> of Wallet holds what a debit and a credit have in common.
  \<^item> Ports: \<^verbatim>\<open>internal/app/ports.go\<close>, a \<^verbatim>\<open>Store\<close> of operations, and the locale
    \<^verbatim>\<open>database\<close>, the contract that the use cases rely on. Service, Process, WalletOps:
    \<^verbatim>\<open>internal/app/service.go\<close>, \<^verbatim>\<open>process.go\<close>, \<^verbatim>\<open>wallets.go\<close> over any store.
  \<^item> Outcome, Processing, Growth, Books: the specification. \<^verbatim>\<open>verdict\<close> decides from the content of
    the database what is due to a transaction, \<^verbatim>\<open>carry_out\<close> does it, \<^verbatim>\<open>new_step\<close>,
    \<^verbatim>\<open>replay_step\<close> and \<^verbatim>\<open>retry_step\<close> are the steps on the content. Processing proves inside the
    locale that the code takes these steps; Growth and Books prove what the steps keep.
  \<^item> Postgres, PostgresLog, PostgresStore, PostgresContract:
    \<^verbatim>\<open>internal/adapters/postgres\<close> and the schema under \<^verbatim>\<open>migrations\<close>, statement by statement;
    the last one interprets \<^verbatim>\<open>database\<close> for this store.
  \<^item> Broker, Consumer, Outbox: \<^verbatim>\<open>internal/adapters/sqs\<close> and \<^verbatim>\<open>internal/workers\<close>. Auth, Http:
    \<^verbatim>\<open>internal/adapters/auth\<close> and \<^verbatim>\<open>internal/adapters/httpapi\<close>. Configuration, Startup:
    \<^verbatim>\<open>internal/config\<close>, \<^verbatim>\<open>internal/fxapp\<close>, \<^verbatim>\<open>postgres/pool.go\<close>, \<^verbatim>\<open>cmd\<close>. Logging:
    \<^verbatim>\<open>internal/observability/logging.go\<close>.
  \<^item> System: the reachable databases. One step is one unit of work of any process, committed, failed
    or rolled back, in any order; Interleaving shows that units that run at the same time are such
    steps too. Demo, Queries, ErrorSets: a concrete run for the witnesses, and what reads return.
  \<^item> The properties of the system. Integrity: balances are sums of the ledger, a movement has one
    entry, a transaction is reversed at most once, a settled one stays. Pending: the units of work
    refine the specification, and the retry pass ends. Idempotency: an operation that went through
    is answered the same for good. HttpSafety: who may see and change what, and the contract of the
    errors. Delivery: when a message is deleted, and why a redelivery is harmless. Channels: an
    operation over HTTP and the same one in a message, from the request to the answer and from the
    delivery to the deletion. Interleaving: an operation, a message or a retry whose statements
    alternate with the commits of other processes takes effect at one point. Publishing: at least
    once, and liveness of the outbox. Leases: a leased event is nobody else's, whatever else the
    system does. Paging: the pages are the ledger. Lifecycle: the goroutines of the workers and what
    \<^verbatim>\<open>Stop\<close> guarantees. Shutdown: the process with its hooks, and what is still running when the
    pool of connections closes. Startup: every limit of the configuration reaches its part. Boot:
    the start hooks, and what a loaded configuration needs besides to start. Divergences: where the
    program differs from its comments and documents.

  \<^bold>\<open>Bounds.\<close> The loops that run until a cancellation take a bound as their first argument and return
  \<^const>\<open>None\<close> when it is reached: \<^verbatim>\<open>worker_loop\<close>, and \<^verbatim>\<open>ResolvePendingReferences\<close>, for
  which one more than the attempts that the waiting transactions have left is enough,
  as Pending proves. The loops over the attempts of a backoff and over the chunks of a batch
  are bounded by their own counter. Every other recursion is total.

  \<^bold>\<open>Parameters.\<close> What the repository does not contain is an argument: SHA-256 in hexadecimal, the
  identifiers that are drawn and their text, the clock, faults of begin and commit, the answers of
  the broker, the verifier of tokens, \<^verbatim>\<open>uuid.Parse\<close>, the decoding of a JSON text, the operating
  system's environment, the migration library. The hypotheses on them are few
  and stated where they are used: a clock does not show the first microsecond of year 1
  (\<^verbatim>\<open>clock_ok\<close>), a fault of the driver is not an error that is private to the program
  (\<^verbatim>\<open>driver_faults\<close>), and for the liveness of the outbox a database and a broker that work
  (\<^verbatim>\<open>working\<close>). Nothing is assumed of the digest; identifiers may repeat, and a unit of work that
  draws a known one fails on the constraint that PostgreSQL has for it.

  \<^bold>\<open>Not modelled.\<close> The Prometheus counters of \<^verbatim>\<open>internal/observability/metrics.go\<close>,
  which the program never reads back, and the calls that log or count;
  the text of JSON responses (the value that is encoded is); the contents of response headers
  that carry no decision; opening connections and listening sockets, of which only the error is
  seen; the error of a rollback that fails; the deadlines of contexts,
  except that a context may have ended wherever the code looks; the container's reflection. Of the
  isolation of PostgreSQL, READ COMMITTED is modelled up to the row lock of the wallet, for the
  operations of the providers and the retries of waiting transactions; from the lock on a unit of
  work runs alone, and so do, from their start, the opening of a wallet and the units of the
  outbox. Which rows others have locked when a claim skips them is arbitrary.
\<close>

end
